(* ===== verification/Prelude.thy ===== *)
theory Prelude
  imports Main "HOL-Library.Char_ord" "HOL-Library.List_Lexorder"
begin

text \<open>
  Shared vocabulary of the development: the collections of simplification rules, the part of
  Go's standard library the backend calls (package \<open>strings\<close> on byte strings, package
  \<open>strconv\<close> on decimal integers, 64-bit signed arithmetic), and generic lemmas.

  A Go string is a sequence of bytes; here it is a \<open>string\<close>, whose characters are bytes.
  Functions of \<open>strings\<close> that Go defines on Unicode (\<open>ToUpper\<close>, \<open>TrimSpace\<close>) are modelled on
  ASCII bytes, which is what every call in the backend passes.
\<close>

named_theorems go_simps \<open>equations of the Go standard-library functions\<close>
named_theorems key_simps \<open>Redis keys of different families never coincide\<close>

section \<open>Results\<close>

text \<open>A Go function returning \<open>(T, error)\<close> returns an \<open>'e + 'a\<close>: \<open>Inl\<close> for the error.\<close>

abbreviation is_ok :: "'e + 'a \<Rightarrow> bool" where
  "is_ok r \<equiv> \<not> isl r"

lemma is_okE: "is_ok r \<Longrightarrow> (\<And>a. r = Inr a \<Longrightarrow> P) \<Longrightarrow> P"
  by (cases r) auto

lemma is_ok_iff: "is_ok r \<longleftrightarrow> (\<exists>a. r = Inr a)"
  by (cases r) auto

section \<open>Strings\<close>

definition has_prefix :: "string \<Rightarrow> string \<Rightarrow> bool" where
  "has_prefix s p = (take (length p) s = p)"

definition has_suffix :: "string \<Rightarrow> string \<Rightarrow> bool" where
  "has_suffix s p = (length p \<le> length s \<and> drop (length s - length p) s = p)"

lemma has_prefix_iff: "has_prefix s p \<longleftrightarrow> (\<exists>t. s = p @ t)"
  by (auto simp: has_prefix_def) (metis append_take_drop_id)

lemma has_prefix_append [simp]: "has_prefix (p @ t) p"
  by (simp add: has_prefix_def)

lemma has_suffix_append [simp]: "has_suffix (t @ p) p"
  by (simp add: has_suffix_def)

text \<open>\<open>strings.Index\<close>: the first position of a substring.\<close>

fun str_index :: "string \<Rightarrow> string \<Rightarrow> nat option" where
  "str_index [] sub = (if sub = [] then Some 0 else None)"
| "str_index (c # cs) sub =
     (if has_prefix (c # cs) sub then Some 0 else map_option Suc (str_index cs sub))"

definition str_contains :: "string \<Rightarrow> string \<Rightarrow> bool" where
  "str_contains s sub = (str_index s sub \<noteq> None)"

lemma str_index_Some:
  "str_index s sub = Some i \<Longrightarrow> i + length sub \<le> length s \<and> take (length sub) (drop i s) = sub"
proof (induction s arbitrary: i)
  case Nil
  then show ?case by (auto split: if_splits)
next
  case (Cons c cs)
  show ?case
  proof (cases "has_prefix (c # cs) sub")
    case True
    with Cons.prems have "i = 0" by simp
    moreover from True obtain t where "c # cs = sub @ t" by (auto simp: has_prefix_iff)
    ultimately show ?thesis by simp
  next
    case False
    with Cons.prems obtain j where "str_index cs sub = Some j" "i = Suc j" by auto
    with Cons.IH show ?thesis by simp
  qed
qed

lemma str_index_append: "\<exists>i. str_index (a @ sub @ b) sub = Some i \<and> i \<le> length a"
proof (induction a)
  case Nil
  have "has_prefix (sub @ b) sub" by simp
  then show ?case by (cases "sub @ b") auto
next
  case (Cons x a)
  then show ?case by auto
qed

lemma str_contains_iff: "str_contains s sub \<longleftrightarrow> (\<exists>a b. s = a @ sub @ b)"
proof
  assume "str_contains s sub"
  then obtain i where i: "str_index s sub = Some i" by (auto simp: str_contains_def)
  have "s = take i s @ take (length sub) (drop i s) @ drop (length sub) (drop i s)"
    by (metis append_take_drop_id)
  with str_index_Some [OF i] show "\<exists>a b. s = a @ sub @ b" by metis
next
  assume "\<exists>a b. s = a @ sub @ b"
  then show "str_contains s sub"
    using str_index_append by (fastforce simp: str_contains_def)
qed

text \<open>\<open>strings.Split\<close> and \<open>strings.SplitN\<close> on a one-byte separator.\<close>

fun split_on :: "char \<Rightarrow> string \<Rightarrow> string list" where
  "split_on d [] = [[]]"
| "split_on d (c # cs) =
     (if c = d then [] # split_on d cs
      else (case split_on d cs of p # ps \<Rightarrow> (c # p) # ps | [] \<Rightarrow> [[c]]))"

lemma split_on_not_Nil [simp]: "split_on d s \<noteq> []"
  by (induction s) (auto split: list.splits)

lemma split_on_no_sep: "p \<in> set (split_on d s) \<Longrightarrow> d \<notin> set p"
  by (induction s arbitrary: p) (auto split: list.splits if_splits)

lemma split_on_append: "d \<notin> set p \<Longrightarrow> split_on d (p @ d # rest) = p # split_on d rest"
  by (induction p) auto

lemma split_on_single: "d \<notin> set p \<Longrightarrow> split_on d p = [p]"
  by (induction p) auto

text \<open>White space of \<open>strings.TrimSpace\<close>: tab, newline, vertical tab, form feed, return, space.\<close>

definition is_space :: "char \<Rightarrow> bool" where
  "is_space c = (of_char c \<in> {9, 10, 11, 12, 13, 32 :: nat})"

definition trim_left :: "string \<Rightarrow> string" where
  "trim_left s = dropWhile is_space s"

definition trim_space :: "string \<Rightarrow> string" where
  "trim_space s = rev (dropWhile is_space (rev (dropWhile is_space s)))"

lemma trim_space_Nil [simp]: "trim_space [] = []"
  by (simp add: trim_space_def)

lemma trim_space_id:
  assumes "s \<noteq> []" "\<not> is_space (hd s)" "\<not> is_space (last s)"
  shows "trim_space s = s"
proof -
  have "dropWhile is_space s = s" using assms by (cases s) auto
  moreover have "dropWhile is_space (rev s) = rev s"
    using assms by (cases "rev s") (auto simp: hd_rev [symmetric])
  ultimately show ?thesis by (simp add: trim_space_def)
qed

lemma dropWhile_hd: "dropWhile P xs \<noteq> [] \<Longrightarrow> \<not> P (hd (dropWhile P xs))"
  by (induction xs) auto

lemma trim_space_ends:
  assumes "trim_space s \<noteq> []"
  shows "\<not> is_space (hd (trim_space s))" and "\<not> is_space (last (trim_space s))"
proof -
  let ?a = "dropWhile is_space s"
  let ?b = "dropWhile is_space (rev ?a)"
  have b: "?b \<noteq> []" using assms by (simp add: trim_space_def)
  obtain pre where pre: "rev ?a = pre @ ?b"
    by (metis takeWhile_dropWhile_id)
  then have a: "?a = rev ?b @ rev pre" by (metis rev_append rev_rev_ident)
  from b have "hd ?a = hd (rev ?b)" by (subst a) simp
  moreover have "?a \<noteq> []" using a b by (metis Nil_is_append_conv Nil_is_rev_conv)
  ultimately show "\<not> is_space (hd (trim_space s))"
    using dropWhile_hd [of is_space s] by (simp add: trim_space_def)
  show "\<not> is_space (last (trim_space s))"
    using dropWhile_hd [OF b] b by (simp add: trim_space_def last_rev)
qed

text \<open>\<open>strings.ReplaceAll\<close> with a one-byte pattern.\<close>

definition replace_char :: "char \<Rightarrow> string \<Rightarrow> string \<Rightarrow> string" where
  "replace_char c r s = concat (map (\<lambda>x. if x = c then r else [x]) s)"

definition to_upper_char :: "char \<Rightarrow> char" where
  "to_upper_char c = (let n = (of_char c :: nat) in if 97 \<le> n \<and> n \<le> 122 then char_of (n - 32) else c)"

definition to_lower_char :: "char \<Rightarrow> char" where
  "to_lower_char c = (let n = (of_char c :: nat) in if 65 \<le> n \<and> n \<le> 90 then char_of (n + 32) else c)"

definition to_upper :: "string \<Rightarrow> string" where "to_upper s = map to_upper_char s"
definition to_lower :: "string \<Rightarrow> string" where "to_lower s = map to_lower_char s"

text \<open>\<open>strings.Join\<close>.\<close>

fun str_join :: "string \<Rightarrow> string list \<Rightarrow> string" where
  "str_join sep [] = []"
| "str_join sep [s] = s"
| "str_join sep (s # t # rest) = s @ sep @ str_join sep (t # rest)"

end
