(* ===== verification/Strconv.thy ===== *)
theory Strconv
  imports Prelude
begin

text \<open>
  Go's decimal integers: \<open>strconv.Itoa\<close>, \<open>strconv.Atoi\<close> and \<open>strconv.ParseInt(s, 10, 64)\<close> with
  their error values, and the 64-bit wrap-around of \<open>int\<close>, \<open>int64\<close> and \<open>time.Duration\<close>.
\<close>

section \<open>64-bit signed arithmetic\<close>

definition max_int64 :: int where "max_int64 = 9223372036854775807"
definition min_int64 :: int where "min_int64 = - 9223372036854775808"

text \<open>\<open>wrap64 x\<close> is the value a Go \<open>int64\<close> holds after an operation whose exact result is \<open>x\<close>.\<close>

definition wrap64 :: "int \<Rightarrow> int" where
  "wrap64 x = (x + 9223372036854775808) mod 18446744073709551616 - 9223372036854775808"

definition fits64 :: "int \<Rightarrow> bool" where
  "fits64 x \<longleftrightarrow> min_int64 \<le> x \<and> x \<le> max_int64"

lemma wrap64_fits: "fits64 (wrap64 x)"
  by (simp add: fits64_def wrap64_def min_int64_def max_int64_def)

lemma wrap64_id: "fits64 x \<Longrightarrow> wrap64 x = x"
  by (simp add: fits64_def wrap64_def min_int64_def max_int64_def)

lemma wrap64_id_iff: "wrap64 x = x \<longleftrightarrow> fits64 x"
  using wrap64_fits wrap64_id by metis

section \<open>Formatting\<close>

fun nat_digits :: "nat \<Rightarrow> string" where
  "nat_digits n = (if n < 10 then [char_of (48 + n)]
                   else nat_digits (n div 10) @ [char_of (48 + n mod 10)])"

declare nat_digits.simps [simp del]

definition itoa :: "int \<Rightarrow> string" where
  "itoa i = (if i < 0 then CHR ''-'' # nat_digits (nat (- i)) else nat_digits (nat i))"

definition is_digit :: "char \<Rightarrow> bool" where
  "is_digit c = (let n = (of_char c :: nat) in 48 \<le> n \<and> n \<le> 57)"

definition digit_val :: "char \<Rightarrow> nat" where
  "digit_val c = (of_char c :: nat) - 48"

lemma digit_char: "n < 10 \<Longrightarrow> is_digit (char_of (48 + n)) \<and> digit_val (char_of (48 + n)) = n"
  by (simp add: is_digit_def digit_val_def Let_def)

lemma nat_digits_digit: "c \<in> set (nat_digits n) \<Longrightarrow> is_digit c"
proof (induction n rule: nat_digits.induct)
  case (1 n)
  then show ?case
    using digit_char [of n] digit_char [of "n mod 10"]
    by (subst (asm) (2) nat_digits.simps) (auto split: if_splits)
qed

lemma nat_digits_not_Nil [simp]: "nat_digits n \<noteq> []"
  by (subst nat_digits.simps) simp

section \<open>Parsing\<close>

text \<open>The digit loop; \<open>None\<close> at the first byte that is no digit.\<close>

fun digits_val :: "nat \<Rightarrow> string \<Rightarrow> nat option" where
  "digits_val acc [] = Some acc"
| "digits_val acc (c # cs) = (if is_digit c then digits_val (10 * acc + digit_val c) cs else None)"

lemma digits_val_append:
  "digits_val acc (xs @ ys) = Option.bind (digits_val acc xs) (\<lambda>a. digits_val a ys)"
  by (induction xs arbitrary: acc) auto

lemma digits_val_nat_digits: "digits_val 0 (nat_digits n) = Some n"
proof (induction n rule: nat_digits.induct)
  case (1 n)
  show ?case
  proof (cases "n < 10")
    case True
    then show ?thesis using digit_char [of n] by (subst nat_digits.simps) simp
  next
    case False
    then have "digits_val 0 (nat_digits n) = Some (10 * (n div 10) + n mod 10)"
      using 1 digit_char [of "n mod 10"]
      by (subst nat_digits.simps) (simp add: digits_val_append)
    then show ?thesis by simp
  qed
qed

datatype num_error = ErrSyntax | ErrRange

text \<open>
  \<open>ParseInt(s, 10, 64)\<close>. Go returns a value beside the error: 0 for a syntax error, the nearest
  bound for a range error; a caller that drops the error uses that value.
\<close>

definition parse_int :: "string \<Rightarrow> int \<times> num_error option" where
  "parse_int s =
     (let (neg, ds) = (case s of c # cs \<Rightarrow> if c = CHR ''-'' then (True, cs)
                                            else if c = CHR ''+'' then (False, cs) else (False, s)
                              | [] \<Rightarrow> (False, []))
      in if ds = [] then (0, Some ErrSyntax)
         else case digits_val 0 ds of
                None \<Rightarrow> (0, Some ErrSyntax)
              | Some n \<Rightarrow>
                  (let v = (if neg then - int n else int n)
                   in if v > max_int64 then (max_int64, Some ErrRange)
                      else if v < min_int64 then (min_int64, Some ErrRange)
                      else (v, None)))"

definition atoi :: "string \<Rightarrow> int \<times> num_error option" where
  "atoi s = parse_int s"

lemma parse_int_fits: "fits64 (fst (parse_int s))"
  by (auto simp: parse_int_def fits64_def min_int64_def max_int64_def Let_def
      split: list.splits option.splits prod.splits)

lemma digit_not_sign: "is_digit c \<Longrightarrow> c \<noteq> CHR ''-'' \<and> c \<noteq> CHR ''+''"
  by (auto simp: is_digit_def Let_def)

lemma nat_digits_Cons:
  obtains c cs where "nat_digits n = c # cs" "is_digit c"
  using nat_digits_digit [of _ n] by (cases "nat_digits n") auto

lemma parse_int_itoa: "fits64 i \<Longrightarrow> parse_int (itoa i) = (i, None)"
proof (cases "i < 0")
  case True
  moreover assume "fits64 i"
  ultimately show ?thesis
    by (simp add: parse_int_def itoa_def digits_val_nat_digits fits64_def min_int64_def max_int64_def)
next
  case False
  moreover assume "fits64 i"
  moreover obtain c cs where "nat_digits (nat i) = c # cs" "is_digit c"
    by (rule nat_digits_Cons)
  ultimately show ?thesis
    using digit_not_sign [of c] digits_val_nat_digits [of "nat i"]
    by (simp add: parse_int_def itoa_def fits64_def min_int64_def max_int64_def)
qed

lemma itoa_inject: "fits64 i \<Longrightarrow> fits64 j \<Longrightarrow> itoa i = itoa j \<Longrightarrow> i = j"
  by (metis fst_conv parse_int_itoa)

lemma itoa_chars: "c \<in> set (itoa i) \<Longrightarrow> is_digit c \<or> c = CHR ''-''"
  by (auto simp: itoa_def nat_digits_digit split: if_splits)

end
