(* ===== verification/Json.thy ===== *)
theory Json
  imports Strconv
begin

text \<open>
  The part of \<open>encoding/json\<close> the backend uses: JSON values as \<open>json.Unmarshal\<close> stores them in an
  \<open>interface{}\<close>, \<open>json.Marshal\<close>, \<open>json.Unmarshal\<close>, and the theorem that unmarshalling a marshalled
  value gives the value back.

  A Go map with string keys is an association list with strictly increasing keys (\<open>Marshal\<close> prints
  a map in key order; a map has no order of its own). \<open>JObj\<close> with keys in another order is the
  image of a struct, printed in field order. A number is \<open>JInt\<close> when its literal is a canonical
  integer and \<open>JReal\<close> with its literal otherwise: Go holds both as \<open>float64\<close>, so a literal outside
  the exact range of a double would be reprinted rounded, which the model leaves out. Strings are
  taken to be valid UTF-8, which \<open>Unmarshal\<close> enforces by replacing bad bytes.
\<close>

datatype json =
    JNull
  | JBool bool
  | JInt int
  | JReal string
  | JStr string
  | JArr "json list"
  | JObj "(string \<times> json) list"

type_synonym gomap = "(string \<times> json) list"

section \<open>Maps with string keys\<close>

fun obj_put :: "string \<Rightarrow> 'a \<Rightarrow> (string \<times> 'a) list \<Rightarrow> (string \<times> 'a) list" where
  "obj_put k v [] = [(k, v)]"
| "obj_put k v ((k', v') # r) =
     (if k = k' then (k, v) # r
      else if k < k' then (k, v) # (k', v') # r
      else (k', v') # obj_put k v r)"

definition obj_of :: "(string \<times> 'a) list \<Rightarrow> (string \<times> 'a) list" where
  "obj_of kvs = foldl (\<lambda>m (k, v). obj_put k v m) [] kvs"

definition obj_del :: "string \<Rightarrow> (string \<times> 'a) list \<Rightarrow> (string \<times> 'a) list" where
  "obj_del k m = filter (\<lambda>(k', _). k' \<noteq> k) m"

text \<open>A Go map literal.\<close>

definition jobj :: "(string \<times> json) list \<Rightarrow> json" where
  "jobj kvs = JObj (obj_of kvs)"

definition keys_sorted :: "(string \<times> 'a) list \<Rightarrow> bool" where
  "keys_sorted m = sorted_wrt (<) (map fst m)"

lemma map_of_obj_put [simp]: "map_of (obj_put k v m) = (map_of m)(k \<mapsto> v)"
  by (induction k v m rule: obj_put.induct) (auto simp: fun_eq_iff)

lemma fst_obj_put: "fst ` set (obj_put k v m) = insert k (fst ` set m)"
  by (induction k v m rule: obj_put.induct) auto

lemma keys_sorted_put: "keys_sorted m \<Longrightarrow> keys_sorted (obj_put k v m)"
proof (induction k v m rule: obj_put.induct)
  case (2 k v k' v' r)
  have hd: "\<forall>x\<in>fst ` set r. k' < x" using 2 by (auto simp: keys_sorted_def)
  show ?case
  proof (cases "k' < k")
    case True
    then have "fst ` set (obj_put k v r) = insert k (fst ` set r)" and "keys_sorted (obj_put k v r)"
      using 2 by (auto simp: fst_obj_put keys_sorted_def)
    with True hd show ?thesis
      by (auto simp: keys_sorted_def)
  next
    case False
    with 2 hd show ?thesis by (auto simp: keys_sorted_def dest: order.strict_trans)
  qed
qed (simp add: keys_sorted_def)

lemma obj_put_append:
  "keys_sorted (m @ [(k, v)]) \<Longrightarrow> obj_put k v m = m @ [(k, v)]"
  by (induction k v m rule: obj_put.induct)
    (auto simp: keys_sorted_def sorted_wrt_append)

lemma obj_of_snoc: "obj_of (kvs @ [(k, v)]) = obj_put k v (obj_of kvs)"
  by (simp add: obj_of_def)

lemma obj_of_sorted: "keys_sorted kvs \<Longrightarrow> obj_of kvs = kvs"
proof (induction kvs rule: rev_induct)
  case Nil
  then show ?case by (simp add: obj_of_def)
next
  case (snoc kv kvs)
  obtain k v where kv: "kv = (k, v)" by (cases kv)
  from snoc.prems have "keys_sorted kvs" by (simp add: keys_sorted_def sorted_wrt_append)
  with snoc.IH have "obj_of kvs = kvs" by simp
  with snoc.prems kv show ?case by (simp add: obj_of_snoc obj_put_append)
qed

lemma keys_sorted_obj_of: "keys_sorted (obj_of kvs)"
proof (induction kvs rule: rev_induct)
  case Nil
  then show ?case by (simp add: obj_of_def keys_sorted_def)
next
  case (snoc kv kvs)
  then show ?case by (cases kv) (simp add: obj_of_snoc keys_sorted_put)
qed

lemma map_of_obj_del: "map_of (obj_del k m) = (map_of m)(k := None)"
  by (induction m) (auto simp: obj_del_def fun_eq_iff)

lemma keys_sorted_obj_del: "keys_sorted m \<Longrightarrow> keys_sorted (obj_del k m)"
  by (induction m) (auto simp: obj_del_def keys_sorted_def)

text \<open>Type assertions on a field of a map: \<open>m[k].(string)\<close> and \<open>m[k].(map[string]interface{})\<close>.\<close>

definition jfield_str :: "gomap \<Rightarrow> string \<Rightarrow> string option" where
  "jfield_str m k = (case map_of m k of Some (JStr s) \<Rightarrow> Some s | _ \<Rightarrow> None)"

definition jfield_obj :: "gomap \<Rightarrow> string \<Rightarrow> gomap option" where
  "jfield_obj m k = (case map_of m k of Some (JObj o') \<Rightarrow> Some o' | _ \<Rightarrow> None)"

text \<open>Decoding an object into a struct: the member named as the field's tag, else one whose name
  differs from it in case only.\<close>

definition struct_field :: "json option \<Rightarrow> string \<Rightarrow> json option" where
  "struct_field j k =
     (case j of
        Some (JObj m) \<Rightarrow>
          (case map_of m k of
             Some v \<Rightarrow> Some v
           | None \<Rightarrow> map_option snd (find (\<lambda>(k', _). to_lower k' = to_lower k) m))
      | _ \<Rightarrow> None)"

text \<open>A field of type \<open>string\<close>: its value, the zero value when the member is absent, null or
  of another type.\<close>

definition struct_str :: "json option \<Rightarrow> string \<Rightarrow> string" where
  "struct_str j k = (case struct_field j k of Some (JStr s) \<Rightarrow> s | _ \<Rightarrow> [])"

text \<open>The same member makes \<open>Unmarshal\<close> return a type error.\<close>

definition struct_str_err :: "json option \<Rightarrow> string \<Rightarrow> bool" where
  "struct_str_err j k = (case struct_field j k of None \<Rightarrow> False | Some JNull \<Rightarrow> False | Some (JStr _) \<Rightarrow> False | _ \<Rightarrow> True)"

text \<open>The zero value when an assertion \<open>s, _ := \<dots>\<close> fails.\<close>

definition or_empty :: "string option \<Rightarrow> string" where
  "or_empty r = (case r of Some s \<Rightarrow> s | None \<Rightarrow> [])"

lemma or_empty_simps [simp]: "or_empty None = []" "or_empty (Some s) = s"
  by (simp_all add: or_empty_def)

section \<open>Marshal\<close>

definition hex_digit :: "nat \<Rightarrow> char" where
  "hex_digit n = (if n < 10 then char_of (48 + n) else char_of (87 + n))"

text \<open>The escapes of \<open>Marshal\<close>, which also escapes the HTML characters.\<close>

definition esc_char :: "char \<Rightarrow> string" where
  "esc_char c =
     (let n = (of_char c :: nat) in
      if n = 34 then [CHR 0x5C, CHR 0x22]
      else if n = 92 then [CHR 0x5C, CHR 0x5C]
      else if n = 8 then [CHR 0x5C, CHR ''b'']
      else if n = 12 then [CHR 0x5C, CHR ''f'']
      else if n = 10 then [CHR 0x5C, CHR ''n'']
      else if n = 13 then [CHR 0x5C, CHR ''r'']
      else if n = 9 then [CHR 0x5C, CHR ''t'']
      else if n < 32 \<or> n = 60 \<or> n = 62 \<or> n = 38
        then [CHR 0x5C, CHR ''u'', CHR ''0'', CHR ''0'', hex_digit (n div 16), hex_digit (n mod 16)]
      else [c])"

definition esc_str :: "string \<Rightarrow> string" where
  "esc_str s = concat (map esc_char s)"

definition jquote :: "string \<Rightarrow> string" where
  "jquote s = CHR 0x22 # esc_str s @ [CHR 0x22]"

fun json_marshal :: "json \<Rightarrow> string"
and marshal_elems :: "json list \<Rightarrow> string"
and marshal_members :: "(string \<times> json) list \<Rightarrow> string" where
  "json_marshal JNull = ''null''"
| "json_marshal (JBool b) = (if b then ''true'' else ''false'')"
| "json_marshal (JInt i) = itoa i"
| "json_marshal (JReal l) = l"
| "json_marshal (JStr s) = jquote s"
| "json_marshal (JArr js) = CHR ''['' # marshal_elems js"
| "json_marshal (JObj kvs) = CHR ''{'' # marshal_members kvs"
| "marshal_elems [] = '']''"
| "marshal_elems (j # js) =
     json_marshal j @ (if js = [] then '']'' else CHR '','' # marshal_elems js)"
| "marshal_members [] = ''}''"
| "marshal_members ((k, j) # kvs) =
     jquote k @ CHR '':'' # json_marshal j @
     (if kvs = [] then ''}'' else CHR '','' # marshal_members kvs)"

section \<open>Unmarshal\<close>

text \<open>Unescaping a string literal, after its opening quote.\<close>

definition hex_val :: "char \<Rightarrow> nat option" where
  "hex_val c =
     (let n = (of_char c :: nat) in
      if 48 \<le> n \<and> n \<le> 57 then Some (n - 48)
      else if 97 \<le> n \<and> n \<le> 102 then Some (n - 87)
      else if 65 \<le> n \<and> n \<le> 70 then Some (n - 55)
      else None)"

fun hex_run :: "nat \<Rightarrow> string \<Rightarrow> nat option" where
  "hex_run acc [] = Some acc"
| "hex_run acc (c # cs) = Option.bind (hex_val c) (\<lambda>d. hex_run (16 * acc + d) cs)"

definition hex4 :: "string \<Rightarrow> nat option" where
  "hex4 s = (if length s < 4 then None else hex_run 0 (take 4 s))"

definition utf8 :: "nat \<Rightarrow> string" where
  "utf8 n =
     (if n < 128 then [char_of n]
      else if n < 2048 then [char_of (192 + n div 64), char_of (128 + n mod 64)]
      else if n < 65536 then [char_of (224 + n div 4096), char_of (128 + (n div 64) mod 64),
                              char_of (128 + n mod 64)]
      else [char_of (240 + n div 262144), char_of (128 + (n div 4096) mod 64),
            char_of (128 + (n div 64) mod 64), char_of (128 + n mod 64)])"

text \<open>\<open>\uXXXX\<close>: a surrogate pair is one code point, a lone surrogate the replacement character.\<close>

definition unesc_u :: "string \<Rightarrow> (string \<times> string) option" where
  "unesc_u r =
     (case hex4 r of
        None \<Rightarrow> None
      | Some n \<Rightarrow>
          (let r1 = drop 4 r in
           if n < 55296 \<or> 57344 \<le> n then Some (utf8 n, r1)
           else if n < 56320 \<and> take 2 r1 = [CHR 0x5C, CHR ''u''] then
             (case hex4 (drop 2 r1) of
                None \<Rightarrow> None
              | Some m \<Rightarrow> if 56320 \<le> m \<and> m < 57344
                          then Some (utf8 (65536 + (n - 55296) * 1024 + (m - 56320)), drop 6 r1)
                          else Some (utf8 65533, r1))
           else Some (utf8 65533, r1)))"

definition unesc_simple :: "char \<Rightarrow> char option" where
  "unesc_simple c =
     (if c = CHR 0x22 then Some c else if c = CHR 0x5C then Some c else if c = CHR ''/'' then Some c
      else if c = CHR ''b'' then Some (char_of (8 :: nat))
      else if c = CHR ''f'' then Some (char_of (12 :: nat))
      else if c = CHR ''n'' then Some (char_of (10 :: nat))
      else if c = CHR ''r'' then Some (char_of (13 :: nat))
      else if c = CHR ''t'' then Some (char_of (9 :: nat))
      else None)"

lemma unesc_u_shorter: "unesc_u r = Some (t, r') \<Longrightarrow> length r' \<le> length r"
  by (auto simp: unesc_u_def Let_def split: option.splits if_splits)

function parse_str :: "string \<Rightarrow> string \<Rightarrow> (string \<times> string) option" where
  "parse_str acc [] = None"
| "parse_str acc (c # cs) =
     (if c = CHR 0x22 then Some (rev acc, cs)
      else if (of_char c :: nat) < 32 then None
      else if c \<noteq> CHR 0x5C then parse_str (c # acc) cs
      else (case cs of
              [] \<Rightarrow> None
            | e # r \<Rightarrow>
                if e = CHR ''u'' then
                  (case unesc_u r of
                     None \<Rightarrow> None
                   | Some (t, r') \<Rightarrow> parse_str (rev t @ acc) r')
                else (case unesc_simple e of
                        None \<Rightarrow> None
                      | Some x \<Rightarrow> parse_str (x # acc) r)))"
  by pat_completeness auto
termination
  by (relation "measure (length \<circ> snd)") (auto dest: unesc_u_shorter)

text \<open>Numbers: the longest run of number bytes, checked against the JSON grammar.\<close>

definition is_num_char :: "char \<Rightarrow> bool" where
  "is_num_char c = (is_digit c \<or> c = CHR ''-'' \<or> c = CHR ''+'' \<or> c = CHR ''.'' \<or> c = CHR ''e'' \<or> c = CHR ''E'')"

definition skip_sign :: "string \<Rightarrow> string" where
  "skip_sign s = (case s of c # cs \<Rightarrow> if c = CHR ''-'' \<or> c = CHR ''+'' then cs else s | [] \<Rightarrow> [])"

definition valid_exp :: "string \<Rightarrow> bool" where
  "valid_exp s = (s = [] \<or>
     (case s of c # cs \<Rightarrow> (c = CHR ''e'' \<or> c = CHR ''E'') \<and>
        (let ds = skip_sign cs in ds \<noteq> [] \<and> list_all is_digit ds)))"

definition valid_frac :: "string \<Rightarrow> bool" where
  "valid_frac s =
     (case s of
        [] \<Rightarrow> True
      | c # cs \<Rightarrow> if c = CHR ''.'' then takeWhile is_digit cs \<noteq> [] \<and> valid_exp (dropWhile is_digit cs)
                  else valid_exp s)"

definition valid_number :: "string \<Rightarrow> bool" where
  "valid_number s =
     (let u = (case s of c # cs \<Rightarrow> if c = CHR ''-'' then cs else s | [] \<Rightarrow> []);
          ds = takeWhile is_digit u
      in ds \<noteq> [] \<and> (ds = ''0'' \<or> hd ds \<noteq> CHR ''0'') \<and> valid_frac (dropWhile is_digit u))"

definition lexeme_int :: "string \<Rightarrow> int option" where
  "lexeme_int s =
     (case s of
        [] \<Rightarrow> None
      | c # cs \<Rightarrow> if c = CHR ''-'' then map_option (\<lambda>n. - int n) (digits_val 0 cs)
                  else map_option int (digits_val 0 s))"

definition parse_number :: "string \<Rightarrow> json option" where
  "parse_number l =
     (case lexeme_int l of
        Some i \<Rightarrow> if itoa i = l then Some (JInt i)
                  else if valid_number l then Some (JReal l) else None
      | None \<Rightarrow> if valid_number l then Some (JReal l) else None)"

definition is_ws :: "char \<Rightarrow> bool" where
  "is_ws c = (of_char c \<in> {9, 10, 13, 32 :: nat})"

definition skip_ws :: "string \<Rightarrow> string" where
  "skip_ws s = dropWhile is_ws s"

text \<open>
  Values, array elements and object members. The fuel bounds the recursion;
  \<open>unmarshal_fuel_enough\<close> below shows that the length of the input is enough for every input.
\<close>

fun parse_val :: "nat \<Rightarrow> string \<Rightarrow> (json \<times> string) option"
and parse_elems :: "nat \<Rightarrow> string \<Rightarrow> (json list \<times> string) option"
and parse_members :: "nat \<Rightarrow> string \<Rightarrow> ((string \<times> json) list \<times> string) option" where
  "parse_val 0 s = None"
| "parse_val (Suc f) s =
     (case skip_ws s of
        [] \<Rightarrow> None
      | c # cs \<Rightarrow>
          if c = CHR 0x22 then map_option (\<lambda>(t, r). (JStr t, r)) (parse_str [] cs)
          else if c = CHR ''['' then
            (case skip_ws cs of
               d # r \<Rightarrow> if d = CHR '']'' then Some (JArr [], r)
                       else map_option (\<lambda>(js, r). (JArr js, r)) (parse_elems f cs)
             | [] \<Rightarrow> None)
          else if c = CHR ''{'' then
            (case skip_ws cs of
               d # r \<Rightarrow> if d = CHR ''}'' then Some (JObj [], r)
                       else map_option (\<lambda>(kvs, r). (jobj kvs, r)) (parse_members f cs)
             | [] \<Rightarrow> None)
          else if has_prefix (c # cs) ''true'' then Some (JBool True, drop 4 (c # cs))
          else if has_prefix (c # cs) ''false'' then Some (JBool False, drop 5 (c # cs))
          else if has_prefix (c # cs) ''null'' then Some (JNull, drop 4 (c # cs))
          else map_option (\<lambda>j. (j, dropWhile is_num_char (c # cs)))
                 (parse_number (takeWhile is_num_char (c # cs))))"
| "parse_elems 0 s = None"
| "parse_elems (Suc f) s =
     (case parse_val f s of
        None \<Rightarrow> None
      | Some (j, r) \<Rightarrow>
          (case skip_ws r of
             [] \<Rightarrow> None
           | c # cs \<Rightarrow> if c = CHR '']'' then Some ([j], cs)
                       else if c = CHR '','' then map_option (\<lambda>(js, r'). (j # js, r')) (parse_elems f cs)
                       else None))"
| "parse_members 0 s = None"
| "parse_members (Suc f) s =
     (case skip_ws s of
        [] \<Rightarrow> None
      | q # qs \<Rightarrow>
          if q \<noteq> CHR 0x22 then None
          else (case parse_str [] qs of
             None \<Rightarrow> None
           | Some (k, r) \<Rightarrow>
               (case skip_ws r of
                  [] \<Rightarrow> None
                | d # ds \<Rightarrow>
                    if d \<noteq> CHR '':'' then None
                    else (case parse_val f ds of
                       None \<Rightarrow> None
                     | Some (j, r') \<Rightarrow>
                         (case skip_ws r' of
                            [] \<Rightarrow> None
                          | c # cs \<Rightarrow>
                              if c = CHR ''}'' then Some ([(k, j)], cs)
                              else if c = CHR '','' then
                                map_option (\<lambda>(kvs, r''). ((k, j) # kvs, r'')) (parse_members f cs)
                              else None)))))"

definition json_unmarshal :: "string \<Rightarrow> json option" where
  "json_unmarshal s =
     (case parse_val (Suc (length s)) s of
        Some (j, r) \<Rightarrow> if skip_ws r = [] then Some j else None
      | None \<Rightarrow> None)"

section \<open>Marshal, then Unmarshal\<close>

lemma hex_val_digit: "d < 16 \<Longrightarrow> hex_val (hex_digit d) = Some d"
  by (auto simp: hex_val_def hex_digit_def Let_def)

lemma hex_zero: "hex_val CHR ''0'' = Some 0"
  by (simp add: hex_val_def Let_def)

lemma unesc_u_low:
  assumes "n < 128"
  shows "unesc_u (CHR ''0'' # CHR ''0'' # hex_digit (n div 16) # hex_digit (n mod 16) # r)
    = Some ([char_of n], r)"
proof -
  have "n div 16 < 16" using assms by simp
  then have "hex4 (CHR ''0'' # CHR ''0'' # hex_digit (n div 16) # hex_digit (n mod 16) # r) = Some n"
    by (simp add: hex4_def hex_zero hex_val_digit)
  then show ?thesis using assms by (simp add: unesc_u_def utf8_def)
qed

lemma of_char_eqD: "(of_char c :: nat) = n \<Longrightarrow> c = char_of n"
  by (metis char_of_char)

lemma of_char_numD:
  "(of_char c :: nat) = 34 \<Longrightarrow> c = CHR 0x22"
  "(of_char c :: nat) = 92 \<Longrightarrow> c = CHR 0x5C"
  by (auto dest!: of_char_eqD simp: char_of_def bit_Suc_0_iff)

lemma parse_str_esc: "parse_str acc (esc_char c @ r) = parse_str (c # acc) r"
proof -
  let ?n = "of_char c :: nat"
  consider (q) "?n = 34" | (b) "?n = 92" | (s) "?n \<in> {8, 12, 10, 13, 9}"
    | (u) "?n < 32 \<or> ?n = 60 \<or> ?n = 62 \<or> ?n = 38" "?n \<notin> {8, 12, 10, 13, 9}"
    | (p) "?n \<noteq> 34" "?n \<noteq> 92" "\<not> ?n < 32" "?n \<noteq> 60" "?n \<noteq> 62" "?n \<noteq> 38"
    by blast
  then show ?thesis
  proof cases
    case q
    then have "c = CHR 0x22" by (rule of_char_numD)
    then show ?thesis by (simp add: esc_char_def unesc_simple_def)
  next
    case b
    then have "c = CHR 0x5C" by (rule of_char_numD)
    then show ?thesis by (simp add: esc_char_def unesc_simple_def)
  next
    case s
    then show ?thesis by (auto simp: esc_char_def unesc_simple_def dest!: of_char_eqD)
  next
    case u
    then have e: "esc_char c = [CHR 0x5C, CHR ''u'', CHR ''0'', CHR ''0'',
        hex_digit (?n div 16), hex_digit (?n mod 16)]"
      by (auto simp: esc_char_def Let_def)
    have "unesc_u (CHR ''0'' # CHR ''0'' # hex_digit (?n div 16) # hex_digit (?n mod 16) # r)
        = Some ([c], r)"
      using unesc_u_low [of ?n r] u by auto
    then show ?thesis by (simp add: e)
  next
    case p
    then have "esc_char c = [c]" by (auto simp: esc_char_def Let_def)
    moreover have "c \<noteq> CHR 0x22" "c \<noteq> CHR 0x5C" using p by auto
    ultimately show ?thesis using p by simp
  qed
qed

lemma parse_str_esc_str: "parse_str acc (esc_str s @ r) = parse_str (rev s @ acc) r"
  by (induction s arbitrary: acc) (simp_all add: esc_str_def parse_str_esc)

lemma parse_str_quote: "parse_str [] (esc_str s @ CHR 0x22 # r) = Some (s, r)"
  by (simp add: parse_str_esc_str)


text \<open>The canonical form: every object with its keys in increasing order, as a decoded map has.\<close>

fun canon :: "json \<Rightarrow> json" where
  "canon (JArr js) = JArr (map canon js)"
| "canon (JObj kvs) = jobj (map (\<lambda>(k, j). (k, canon j)) kvs)"
| "canon j = j"

definition wf_real :: "string \<Rightarrow> bool" where
  "wf_real l \<longleftrightarrow> valid_number l \<and> list_all is_num_char l \<and> parse_number l = Some (JReal l)"

fun wf_json :: "json \<Rightarrow> bool" where
  "wf_json (JReal l) = wf_real l"
| "wf_json (JArr js) = (\<forall>j \<in> set js. wf_json j)"
| "wf_json (JObj kvs) = (\<forall>kv \<in> set kvs. wf_json (snd kv))"
| "wf_json j = True"

text \<open>How much fuel a value needs; never more than its printed length.\<close>

fun jneed :: "json \<Rightarrow> nat"
and jneeds :: "json list \<Rightarrow> nat"
and jneedm :: "(string \<times> json) list \<Rightarrow> nat" where
  "jneed (JArr js) = Suc (jneeds js)"
| "jneed (JObj kvs) = Suc (jneedm kvs)"
| "jneed j = 1"
| "jneeds [] = 0"
| "jneeds (j # js) = Suc (max (jneed j) (jneeds js))"
| "jneedm [] = 0"
| "jneedm ((k, j) # kvs) = Suc (max (jneed j) (jneedm kvs))"

lemma lexeme_int_itoa: "lexeme_int (itoa i) = Some i"
proof (cases "i < 0")
  case True
  then show ?thesis by (simp add: itoa_def lexeme_int_def digits_val_nat_digits)
next
  case False
  obtain c cs where "nat_digits (nat i) = c # cs" "is_digit c" by (rule nat_digits_Cons)
  with False digit_not_sign [of c] digits_val_nat_digits [of "nat i"]
  show ?thesis by (simp add: itoa_def lexeme_int_def)
qed

lemma parse_number_itoa: "parse_number (itoa i) = Some (JInt i)"
  by (simp add: parse_number_def lexeme_int_itoa)

lemma itoa_num_chars: "c \<in> set (itoa i) \<Longrightarrow> is_num_char c"
  using itoa_chars [of c i] by (auto simp: is_num_char_def)

lemma itoa_not_Nil [simp]: "itoa i \<noteq> []"
  by (simp add: itoa_def)

definition num_end :: "string \<Rightarrow> bool" where
  "num_end r \<longleftrightarrow> r = [] \<or> \<not> is_num_char (hd r)"

lemma takeWhile_num:
  "list_all is_num_char l \<Longrightarrow> num_end r \<Longrightarrow>
   takeWhile is_num_char (l @ r) = l \<and> dropWhile is_num_char (l @ r) = r"
  by (induction l) (auto simp: num_end_def takeWhile_eq_Nil_iff dropWhile_eq_self_iff)

lemma num_char_facts:
  assumes "is_num_char c"
  shows "\<not> is_ws c" "c \<noteq> CHR 0x22" "c \<noteq> CHR ''[''" "c \<noteq> CHR ''{''" "c \<noteq> CHR '']''" "c \<noteq> CHR ''}''"
    "c \<noteq> CHR ''t''" "c \<noteq> CHR ''f''" "c \<noteq> CHR ''n''"
  using assms by (auto simp: is_num_char_def is_digit_def is_ws_def Let_def)

lemma parse_val_number:
  assumes "list_all is_num_char l" "l \<noteq> []" "num_end r" "parse_number l = Some j"
  shows "parse_val (Suc f) (l @ r) = Some (j, r)"
proof -
  obtain c cs where l: "l = c # cs" using assms(2) by (cases l) auto
  have "is_num_char c" using assms(1) l by simp
  note nf = num_char_facts [OF this]
  have "skip_ws (l @ r) = c # cs @ r" using l nf by (simp add: skip_ws_def)
  moreover have "takeWhile is_num_char (c # cs @ r) = l" "dropWhile is_num_char (c # cs @ r) = r"
    using takeWhile_num [OF assms(1,3)] l by auto
  ultimately show ?thesis
    using l nf assms(4) by (simp add: has_prefix_def del: takeWhile.simps dropWhile.simps)
qed

lemma marshal_hd:
  assumes "wf_json j"
  obtains c cs where "json_marshal j = c # cs" "\<not> is_ws c" "c \<noteq> CHR '']''" "c \<noteq> CHR ''}''"
proof (cases j)
  case (JInt i)
  then obtain c cs where "itoa i = c # cs" by (cases "itoa i") auto
  moreover from this have "is_num_char c" using itoa_num_chars [of c i] by simp
  ultimately show ?thesis using that JInt num_char_facts [of c] by simp
next
  case (JReal l)
  with assms obtain c cs where l: "l = c # cs"
    by (cases l) (auto simp: wf_real_def valid_number_def)
  with JReal assms have "is_num_char c" by (simp add: wf_real_def)
  with l show ?thesis using that JReal num_char_facts [of c] by simp
next
  case (JBool b)
  then show ?thesis using that by (cases b) (auto simp: is_ws_def)
qed (use that in \<open>auto simp: is_ws_def jquote_def\<close>)

lemma marshal_roundtrip_gen:
  "wf_json j \<Longrightarrow> num_end r \<Longrightarrow> jneed j \<le> f \<Longrightarrow> parse_val f (json_marshal j @ r) = Some (canon j, r)"
  "js \<noteq> [] \<Longrightarrow> \<forall>j \<in> set js. wf_json j \<Longrightarrow> jneeds js \<le> f \<Longrightarrow>
     parse_elems f (marshal_elems js @ r) = Some (map canon js, r)"
  "kvs \<noteq> [] \<Longrightarrow> \<forall>kv \<in> set kvs. wf_json (snd kv) \<Longrightarrow> jneedm kvs \<le> f \<Longrightarrow>
     parse_members f (marshal_members kvs @ r) = Some (map (\<lambda>(k, j). (k, canon j)) kvs, r)"
proof (induction j and js and kvs arbitrary: f r and f r and f r
    rule: json_marshal_marshal_elems_marshal_members.induct)
  case 1
  then show ?case by (cases f) (auto simp: skip_ws_def is_ws_def has_prefix_def)
next
  case (2 b)
  then show ?case by (cases f) (auto simp: skip_ws_def is_ws_def has_prefix_def)
next
  case (3 i)
  then show ?case
    by (cases f) (auto intro!: parse_val_number simp: parse_number_itoa itoa_num_chars list_all_iff simp del: parse_val.simps)
next
  case (4 l)
  then show ?case
    by (cases f) (auto intro!: parse_val_number simp: wf_real_def list_all_iff valid_number_def simp del: parse_val.simps)
next
  case (5 s)
  then show ?case by (cases f) (auto simp: skip_ws_def is_ws_def jquote_def parse_str_quote)
next
  case (6 js)
  then obtain g where f: "f = Suc g" "jneeds js \<le> g" by (cases f) auto
  show ?case
  proof (cases js)
    case Nil
    then show ?thesis using f by (simp add: skip_ws_def is_ws_def)
  next
    case (Cons j js')
    with 6 have "wf_json j" by simp
    then obtain c cs where c: "json_marshal j = c # cs" "\<not> is_ws c" "c \<noteq> CHR '']''"
      by (rule marshal_hd)
    have "parse_elems g (marshal_elems js @ r) = Some (map canon js, r)"
      using 6 Cons f by simp
    moreover have "skip_ws (marshal_elems js @ r) = marshal_elems js @ r"
      using Cons c by (simp add: skip_ws_def)
    ultimately show ?thesis using f Cons c by (simp add: skip_ws_def is_ws_def)
  qed
next
  case (7 kvs)
  then obtain g where f: "f = Suc g" "jneedm kvs \<le> g" by (cases f) auto
  show ?case
  proof (cases kvs)
    case Nil
    then show ?thesis using f by (simp add: skip_ws_def is_ws_def jobj_def obj_of_def)
  next
    case (Cons kv kvs')
    have "parse_members g (marshal_members kvs @ r) = Some (map (\<lambda>(k, j). (k, canon j)) kvs, r)"
      using 7 Cons f by simp
    moreover have "skip_ws (marshal_members kvs @ r) = marshal_members kvs @ r"
      "hd (marshal_members kvs) = CHR 0x22" "marshal_members kvs \<noteq> []"
      using Cons by (cases kv; simp add: skip_ws_def is_ws_def jquote_def)+
    ultimately show ?thesis using f
      by (cases "marshal_members kvs") (simp_all add: skip_ws_def is_ws_def)
  qed
next
  case 8
  then show ?case by simp
next
  case (9 j js)
  then obtain g where f: "f = Suc g" "jneed j \<le> g" "jneeds js \<le> g" by (cases f) auto
  show ?case
    using 9 f by (cases "js = []") (simp_all add: skip_ws_def is_ws_def num_end_def is_num_char_def is_digit_def)
next
  case 10
  then show ?case by simp
next
  case (11 k j kvs)
  then obtain g where f: "f = Suc g" "jneed j \<le> g" "jneedm kvs \<le> g" by (cases f) auto
  show ?case
    using 11 f
    by (cases "kvs = []") (simp_all add: skip_ws_def is_ws_def num_end_def is_num_char_def is_digit_def
        jquote_def parse_str_quote)
qed

lemma jneed_le:
  "wf_json j \<Longrightarrow> jneed j \<le> length (json_marshal j)"
  "\<forall>j \<in> set js. wf_json j \<Longrightarrow> jneeds js \<le> length (marshal_elems js)"
  "\<forall>kv \<in> set kvs. wf_json (snd kv) \<Longrightarrow> jneedm kvs \<le> length (marshal_members kvs)"
proof (induction j and js and kvs rule: json_marshal_marshal_elems_marshal_members.induct)
  case (3 i) then show ?case by (cases "itoa i") auto
next
  case (4 l) then show ?case by (cases l) (auto simp: wf_real_def valid_number_def)
qed (auto simp: jquote_def)

lemma json_roundtrip:
  assumes "wf_json j"
  shows "json_unmarshal (json_marshal j) = Some (canon j)"
proof -
  have "jneed j \<le> Suc (length (json_marshal j))" using jneed_le(1) [OF assms] by simp
  with marshal_roundtrip_gen(1) [OF assms, of "[]"] show ?thesis
    by (simp add: json_unmarshal_def num_end_def skip_ws_def del: parse_val.simps)
qed

fun canonical :: "json \<Rightarrow> bool" where
  "canonical (JArr js) = (\<forall>j \<in> set js. canonical j)"
| "canonical (JObj kvs) = (keys_sorted kvs \<and> (\<forall>kv \<in> set kvs. canonical (snd kv)))"
| "canonical j = True"

lemma canon_canonical: "canonical j \<Longrightarrow> canon j = j"
proof (induction j rule: canon.induct)
  case (1 js)
  then show ?case by (simp add: map_idI)
next
  case (2 kvs)
  then have "map (\<lambda>(k, j). (k, canon j)) kvs = kvs" by (intro map_idI) auto
  with 2 show ?case by (simp add: jobj_def obj_of_sorted)
qed auto

lemma canon_map_of: "map_of (map (\<lambda>(k, j). (k, canon j)) kvs) k = map_option canon (map_of kvs k)"
  by (induction kvs) auto

section \<open>The fuel of Unmarshal is enough\<close>

lemma skip_ws_le: "length (skip_ws s) \<le> length s"
  by (simp add: skip_ws_def length_dropWhile_le)

lemma skip_ws_Cons_le: "skip_ws s = c # cs \<Longrightarrow> length cs < length s"
  using skip_ws_le [of s] by simp

lemma parse_str_shorter: "parse_str acc s = Some (t, r) \<Longrightarrow> length r < length s"
proof (induction acc s rule: parse_str.induct)
  case (2 acc c cs)
  show ?case
  proof (cases "c = CHR 0x5C")
    case False
    with 2 show ?thesis by (auto split: if_splits)
  next
    case True
    with "2.prems" obtain e q where cs: "cs = e # q" by (cases cs) auto
    show ?thesis
    proof (cases "e = CHR ''u''")
      case u: True
      with "2.prems" True cs obtain u r' where u': "unesc_u q = Some (u, r')"
        and p: "parse_str (rev u @ acc) r' = Some (t, r)" by (auto split: option.splits)
      from "2.IH"(2) [OF _ _ _ cs u u'] True p have "length r < length r'" by simp
      with unesc_u_shorter [OF u'] cs show ?thesis by simp
    next
      case u: False
      with "2.prems" True cs obtain x where x: "unesc_simple e = Some x"
        and p: "parse_str (x # acc) q = Some (t, r)" by (auto split: option.splits)
      from "2.IH"(3) [OF _ _ _ cs u x] True p have "length r < length q" by simp
      with cs show ?thesis by simp
    qed
  qed
qed simp

lemma parse_number_Nil: "parse_number [] = None"
  by (simp add: parse_number_def lexeme_int_def valid_number_def)

text \<open>Inversion of a successful parse, one disjunct per shape of value.\<close>

lemma parse_val_SomeD:
  assumes "parse_val f s = Some (j, r)"
  obtains (str) g cs t where "f = Suc g" "skip_ws s = CHR 0x22 # cs" "parse_str [] cs = Some (t, r)" "j = JStr t"
  | (arr0) g cs where "f = Suc g" "skip_ws s = CHR ''['' # cs" "skip_ws cs = CHR '']'' # r" "j = JArr []"
  | (arr) g cs d ds js where "f = Suc g" "skip_ws s = CHR ''['' # cs" "skip_ws cs = d # ds" "d \<noteq> CHR '']''"
      "parse_elems g cs = Some (js, r)" "j = JArr js"
  | (obj0) g cs where "f = Suc g" "skip_ws s = CHR ''{'' # cs" "skip_ws cs = CHR ''}'' # r" "j = JObj []"
  | (obj) g cs d ds kvs where "f = Suc g" "skip_ws s = CHR ''{'' # cs" "skip_ws cs = d # ds" "d \<noteq> CHR ''}''"
      "parse_members g cs = Some (kvs, r)" "j = jobj kvs"
  | (flat) g where "f = Suc g" "length r < length (skip_ws s)" "\<And>g'. parse_val (Suc g') s = Some (j, r)"
proof -
  obtain g where f: "f = Suc g" using assms by (cases f) auto
  obtain c cs where s: "skip_ws s = c # cs" using assms f by (cases "skip_ws s") auto
  consider "c = CHR 0x22" | "c = CHR ''[''" | "c = CHR ''{''"
    | (o) "c \<noteq> CHR 0x22" "c \<noteq> CHR ''[''" "c \<noteq> CHR ''{''" by blast
  then show ?thesis
  proof cases
    case 1
    then show ?thesis using str assms f s by auto
  next
    case 2
    then show ?thesis using arr0 arr assms f s by (auto split: list.splits if_splits)
  next
    case 3
    then show ?thesis using obj0 obj assms f s by (auto split: list.splits if_splits)
  next
    case o
    have all: "parse_val (Suc g') s = Some (j, r)" for g' using assms f s o by simp
    have "length (dropWhile is_num_char (c # cs)) < length (c # cs)"
      if "takeWhile is_num_char (c # cs) \<noteq> []"
      using that length_dropWhile_le [of is_num_char cs] by (auto split: if_splits)
    then have "length r < length (skip_ws s)"
      using assms f s o parse_number_Nil by (auto split: if_splits)
    then show ?thesis using flat f all by blast
  qed
qed


lemma parse_shorter:
  "parse_val f s = Some (j, r) \<Longrightarrow> length r < length s"
  "parse_elems f s = Some (js, r) \<Longrightarrow> length r < length s"
  "parse_members f s = Some (kvs, r) \<Longrightarrow> length r < length s"
proof (induction f arbitrary: s j r js kvs)
  case (Suc f)
  {
    case 1
    then show ?case
    proof (cases rule: parse_val_SomeD)
      case (str g cs t)
      with parse_str_shorter skip_ws_Cons_le show ?thesis by fastforce
    next
      case (arr0 g cs)
      with skip_ws_Cons_le [OF arr0(2)] skip_ws_Cons_le [OF arr0(3)] show ?thesis by simp
    next
      case (arr g cs d ds js)
      with Suc.IH(2) skip_ws_Cons_le show ?thesis by fastforce
    next
      case (obj0 g cs)
      with skip_ws_Cons_le [OF obj0(2)] skip_ws_Cons_le [OF obj0(3)] show ?thesis by simp
    next
      case (obj g cs d ds kvs)
      with Suc.IH(3) skip_ws_Cons_le show ?thesis by fastforce
    next
      case (flat g)
      with skip_ws_le [of s] show ?thesis by simp
    qed
  next
    case 2
    then obtain j1 r1 c cs where v: "parse_val f s = Some (j1, r1)" and c: "skip_ws r1 = c # cs"
      by (auto split: option.splits list.splits)
    from Suc.IH(1) [OF v] skip_ws_Cons_le [OF c] have "length cs < length s" by simp
    moreover have "length r \<le> length cs"
      using 2 v c Suc.IH(2) by (fastforce split: if_splits)
    ultimately show ?case by simp
  next
    case 3
    then obtain q qs k r1 ds j1 r2 c cs where
      q: "skip_ws s = q # qs" "parse_str [] qs = Some (k, r1)"
      and d: "skip_ws r1 = CHR '':'' # ds" and v: "parse_val f ds = Some (j1, r2)"
      and c: "skip_ws r2 = c # cs"
      by (auto split: option.splits list.splits if_splits)
    have "length cs < length s"
      using skip_ws_Cons_le [OF q(1)] parse_str_shorter [OF q(2)] skip_ws_Cons_le [OF d]
        Suc.IH(1) [OF v] skip_ws_Cons_le [OF c] by simp
    moreover have "length r \<le> length cs"
      using 3 q d v c Suc.IH(3) by (fastforce split: if_splits)
    ultimately show ?case by simp
  }
qed simp_all

lemma parse_fuel_enough:
  "parse_val f s = Some (j, r) \<Longrightarrow> length s \<le> length r + g \<Longrightarrow> parse_val g s = Some (j, r)"
  "parse_elems f s = Some (js, r) \<Longrightarrow> length s \<le> length r + g \<Longrightarrow> parse_elems g s = Some (js, r)"
  "parse_members f s = Some (kvs, r) \<Longrightarrow> length s \<le> length r + g \<Longrightarrow> parse_members g s = Some (kvs, r)"
proof (induction f arbitrary: s j r g js kvs)
  case (Suc f)
  {
    case 1
    then obtain h where g: "g = Suc h" using parse_shorter(1) [OF 1(1)] by (cases g) auto
    show ?case using 1(1)
    proof (cases rule: parse_val_SomeD)
      case (arr i cs d ds js)
      with Suc.IH(2) [of cs js r h] 1(2) g skip_ws_Cons_le [of s] show ?thesis by fastforce
    next
      case (obj i cs d ds kvs)
      with Suc.IH(3) [of cs kvs r h] 1(2) g skip_ws_Cons_le [of s] show ?thesis by fastforce
    next
      case (flat i)
      with g show ?thesis by blast
    qed (use g in simp_all)
  next
    case 2
    then obtain h where g: "g = Suc h" using parse_shorter(2) [OF 2(1)] by (cases g) auto
    from 2 obtain j1 r1 c cs where v: "parse_val f s = Some (j1, r1)" and c: "skip_ws r1 = c # cs"
      by (auto split: option.splits list.splits)
    note l = parse_shorter(1) [OF v] skip_ws_Cons_le [OF c]
    have le: "length r \<le> length cs" using 2 v c parse_shorter(2) by (fastforce split: if_splits)
    have v': "parse_val h s = Some (j1, r1)" using Suc.IH(1) [OF v] 2(2) l le g by simp
    show ?case
    proof (cases "c = CHR '']''")
      case True
      then show ?thesis using 2 v v' c g by simp
    next
      case False
      with 2 v c obtain js' where "c = CHR '',''" "parse_elems f cs = Some (js', r)" "js = j1 # js'"
        by (auto split: if_splits)
      with Suc.IH(2) [of cs js' r h] 2(2) l g v' c show ?thesis by simp
    qed
  next
    case 3
    then obtain h where g: "g = Suc h" using parse_shorter(3) [OF 3(1)] by (cases g) auto
    from 3 obtain q qs k r1 ds j1 r2 c cs where
      q: "skip_ws s = q # qs" "q = CHR 0x22" "parse_str [] qs = Some (k, r1)"
      and d: "skip_ws r1 = CHR '':'' # ds" and v: "parse_val f ds = Some (j1, r2)"
      and c: "skip_ws r2 = c # cs"
      by (auto split: option.splits list.splits if_splits)
    note l = skip_ws_Cons_le [OF q(1)] parse_str_shorter [OF q(3)] skip_ws_Cons_le [OF d]
      parse_shorter(1) [OF v] skip_ws_Cons_le [OF c]
    have le: "length r \<le> length cs" using 3 q d v c parse_shorter(3) by (fastforce split: if_splits)
    have v': "parse_val h ds = Some (j1, r2)" using Suc.IH(1) [OF v] 3(2) l le g by simp
    show ?case
    proof (cases "c = CHR ''}''")
      case True
      then show ?thesis using 3 q d v v' c g by simp
    next
      case False
      with 3 q d v c obtain kvs' where "c = CHR '',''" "parse_members f cs = Some (kvs', r)"
        "kvs = (k, j1) # kvs'" by (auto split: if_splits)
      with Suc.IH(3) [of cs kvs' r h] 3(2) l g q d v' c show ?thesis by simp
    qed
  }
qed simp_all

lemma unmarshal_fuel_enough:
  "json_unmarshal s = Some j \<longleftrightarrow> (\<exists>f r. parse_val f s = Some (j, r) \<and> skip_ws r = [])"
proof
  assume "json_unmarshal s = Some j"
  then obtain r where "parse_val (Suc (length s)) s = Some (j, r)" "skip_ws r = []"
    by (auto simp: json_unmarshal_def simp del: parse_val.simps split: option.splits if_splits)
  then have "parse_val (Suc (length s)) s = Some (j, r) \<and> skip_ws r = []" by (rule conjI)
  then show "\<exists>f r. parse_val f s = Some (j, r) \<and> skip_ws r = []"
    by (rule exI [where x = "Suc (length s)", OF exI [where x = r]])
next
  assume "\<exists>f r. parse_val f s = Some (j, r) \<and> skip_ws r = []"
  then obtain f r where p: "parse_val f s = Some (j, r)" and "skip_ws r = []" by blast
  moreover from p have "parse_val (Suc (length s)) s = Some (j, r)"
    by (rule parse_fuel_enough(1)) simp
  ultimately show "json_unmarshal s = Some j"
    by (simp add: json_unmarshal_def del: parse_val.simps)
qed

text \<open>A printed value holds no control character, so it fits on one line.\<close>

lemma esc_char_printable: "c \<in> set (esc_char d) \<Longrightarrow> 32 \<le> (of_char c :: nat)"
proof -
  have h: "32 \<le> (of_char (hex_digit n) :: nat)" if "n < 16" for n
    using that by (simp add: hex_digit_def)
  have "(of_char d :: nat) div 16 < 16" "(of_char d :: nat) mod 16 < 16"
    by (simp_all add: less_mult_imp_div_less)
  then show "32 \<le> (of_char c :: nat)" if "c \<in> set (esc_char d)"
    using that h by (auto simp: esc_char_def Let_def split: if_splits)
qed

lemma jquote_printable: "c \<in> set (jquote s) \<Longrightarrow> 32 \<le> (of_char c :: nat)"
  by (auto simp: jquote_def esc_str_def dest: esc_char_printable)

lemma itoa_printable: "c \<in> set (itoa i) \<Longrightarrow> 32 \<le> (of_char c :: nat)"
  by (drule itoa_chars) (auto simp: is_digit_def Let_def)

lemma num_char_printable: "is_num_char c \<Longrightarrow> 32 \<le> (of_char c :: nat)"
  by (auto simp: is_num_char_def is_digit_def Let_def)

lemma marshal_printable:
  "wf_json j \<Longrightarrow> c \<in> set (json_marshal j) \<Longrightarrow> 32 \<le> (of_char c :: nat)"
  "\<forall>j\<in>set js. wf_json j \<Longrightarrow> c \<in> set (marshal_elems js) \<Longrightarrow> 32 \<le> (of_char c :: nat)"
  "\<forall>kv\<in>set kvs. wf_json (snd kv) \<Longrightarrow> c \<in> set (marshal_members kvs) \<Longrightarrow> 32 \<le> (of_char c :: nat)"
  by (induction j and js and kvs rule: json_marshal_marshal_elems_marshal_members.induct)
    (auto simp: wf_real_def list_all_iff num_char_printable
      dest: jquote_printable itoa_printable split: if_splits)

lemma marshal_one_line:
  assumes "wf_json j"
  shows "CHR 0x0A \<notin> set (json_marshal j)" and "CHR 0x0D \<notin> set (json_marshal j)"
  using marshal_printable(1) [OF assms, of "CHR 0x0A"] marshal_printable(1) [OF assms, of "CHR 0x0D"]
  by auto

end
