(* ===== verification/Errors.thy ===== *)
theory Errors
  imports Json
begin

text \<open>
  The error table of \<open>internal/model/errors.go\<close>, the JSON body \<open>ErrorResponse\<close> writes, and the
  prefix helpers \<open>pkg.SafePrefix\<close> and \<open>telemetry.TokenPrefix\<close>.
\<close>

record app_error =
  ae_code :: int
  ae_status :: int
  ae_message :: string

definition mk_error :: "int \<Rightarrow> int \<Rightarrow> string \<Rightarrow> app_error" where
  "mk_error c st m = \<lparr>ae_code = c, ae_status = st, ae_message = m\<rparr>"

section \<open>The table\<close>

definition ErrAuthInvalidToken :: app_error where
  "ErrAuthInvalidToken = mk_error 10001 401 ''Invalid or missing token''"
definition ErrAuthMissingAuth :: app_error where
  "ErrAuthMissingAuth = mk_error 10002 401 ''Missing authorization''"
definition ErrAuthInvalidSession :: app_error where
  "ErrAuthInvalidSession = mk_error 10003 401 ''Invalid admin session''"
definition ErrAuthUnauthorized :: app_error where
  "ErrAuthUnauthorized = mk_error 10004 401 ''Unauthorized''"
definition ErrAuthWrongPassword :: app_error where
  "ErrAuthWrongPassword = mk_error 10005 401 ''Wrong password''"
definition ErrAdminPasswordExists :: app_error where
  "ErrAdminPasswordExists = mk_error 10100 400 ''Password already set''"
definition ErrAdminPasswordShort :: app_error where
  "ErrAdminPasswordShort = mk_error 10101 400 ''Password too short''"
definition ErrChatEmptyMessage :: app_error where
  "ErrChatEmptyMessage = mk_error 10200 400 ''Empty message''"
definition ErrChatNoBot :: app_error where
  "ErrChatNoBot = mk_error 10201 400 ''No bot connected''"
definition ErrChatInvalidReq :: app_error where
  "ErrChatInvalidReq = mk_error 10202 400 ''Invalid request''"
definition ErrChatSendFailed :: app_error where
  "ErrChatSendFailed = mk_error 10203 500 ''Failed to send message to bot''"
definition ErrChatStreamTimeout :: app_error where
  "ErrChatStreamTimeout = mk_error 10204 500 ''Stream timeout''"
definition ErrChatInternalError :: app_error where
  "ErrChatInternalError = mk_error 10205 500 ''Internal server error''"
definition ErrChatStreamUnsupported :: app_error where
  "ErrChatStreamUnsupported = mk_error 10206 500 ''Streaming not supported''"
definition ErrMediaFileTooLarge :: app_error where
  "ErrMediaFileTooLarge = mk_error 10300 413 ''File too large''"
definition ErrMediaInvalidFile :: app_error where
  "ErrMediaInvalidFile = mk_error 10301 400 ''Invalid file or unsupported type''"
definition ErrMediaBadURLScheme :: app_error where
  "ErrMediaBadURLScheme = mk_error 10302 400 ''Invalid media URL scheme''"
definition ErrMediaUnsupportedType :: app_error where
  "ErrMediaUnsupportedType = mk_error 10303 400 ''Unsupported media type''"
definition ErrMediaTooMany :: app_error where
  "ErrMediaTooMany = mk_error 10304 400 ''Too many media items (max 10)''"
definition ErrSessionNotFound :: app_error where
  "ErrSessionNotFound = mk_error 10400 404 ''Session not found''"
definition ErrSessionCreateFailed :: app_error where
  "ErrSessionCreateFailed = mk_error 10401 500 ''Failed to create session''"
definition ErrTokenNotFound :: app_error where
  "ErrTokenNotFound = mk_error 10500 404 ''Token not found''"
definition ErrWSInvalidToken :: app_error where
  "ErrWSInvalidToken = mk_error 10600 4001 ''Invalid or missing bot token''"
definition ErrWSTokenDeleted :: app_error where
  "ErrWSTokenDeleted = mk_error 10601 4003 ''Token deleted''"
definition ErrWSServerRestart :: app_error where
  "ErrWSServerRestart = mk_error 10602 4000 ''Server restarting''"
definition ErrWSEvicted :: app_error where
  "ErrWSEvicted = mk_error 10603 4005 ''Evicted by newer connection''"
definition ErrBotUnknownError :: app_error where
  "ErrBotUnknownError = mk_error 10700 500 ''Unknown error from bot''"

text \<open>Every error of the table.\<close>

definition all_errors :: "app_error list" where
  "all_errors =
     [ErrAuthInvalidToken, ErrAuthMissingAuth, ErrAuthInvalidSession, ErrAuthUnauthorized,
      ErrAuthWrongPassword, ErrAdminPasswordExists, ErrAdminPasswordShort, ErrChatEmptyMessage,
      ErrChatNoBot, ErrChatInvalidReq, ErrChatSendFailed, ErrChatStreamTimeout,
      ErrChatInternalError, ErrChatStreamUnsupported, ErrMediaFileTooLarge, ErrMediaInvalidFile,
      ErrMediaBadURLScheme, ErrMediaUnsupportedType, ErrMediaTooMany, ErrSessionNotFound,
      ErrSessionCreateFailed, ErrTokenNotFound, ErrWSInvalidToken, ErrWSTokenDeleted,
      ErrWSServerRestart, ErrWSEvicted, ErrBotUnknownError]"

lemmas error_defs =
  ErrAuthInvalidToken_def ErrAuthMissingAuth_def ErrAuthInvalidSession_def ErrAuthUnauthorized_def
  ErrAuthWrongPassword_def ErrAdminPasswordExists_def ErrAdminPasswordShort_def
  ErrChatEmptyMessage_def ErrChatNoBot_def ErrChatInvalidReq_def ErrChatSendFailed_def
  ErrChatStreamTimeout_def ErrChatInternalError_def ErrChatStreamUnsupported_def
  ErrMediaFileTooLarge_def ErrMediaInvalidFile_def ErrMediaBadURLScheme_def
  ErrMediaUnsupportedType_def ErrMediaTooMany_def ErrSessionNotFound_def
  ErrSessionCreateFailed_def ErrTokenNotFound_def ErrWSInvalidToken_def ErrWSTokenDeleted_def
  ErrWSServerRestart_def ErrWSEvicted_def ErrBotUnknownError_def mk_error_def

lemma error_codes_distinct: "distinct (map ae_code all_errors)"
  by (simp add: all_errors_def error_defs)

text \<open>The close codes of the WebSocket errors lie in the range RFC 6455 leaves to applications;
  the other statuses are HTTP error statuses.\<close>

lemma error_statuses:
  "\<forall>e\<in>set all_errors. (ae_code e div 100 = 106 \<and> 4000 \<le> ae_status e \<and> ae_status e \<le> 4999) \<or>
     (ae_code e div 100 \<noteq> 106 \<and> 400 \<le> ae_status e \<and> ae_status e \<le> 599)"
  by (simp add: all_errors_def error_defs)

section \<open>HTTP replies\<close>

text \<open>What a handler leaves on the wire through \<open>c.JSON\<close>: the status and the marshalled body.\<close>

record http_reply =
  hr_status :: int
  hr_body :: json

definition json_reply :: "int \<Rightarrow> json \<Rightarrow> http_reply" where
  "json_reply st b = \<lparr>hr_status = st, hr_body = b\<rparr>"

text \<open>\<open>gin.H{"code": 0, \<dots>}\<close>, the body of every success.\<close>

definition ok_reply :: "(string \<times> json) list \<Rightarrow> http_reply" where
  "ok_reply kvs = json_reply 200 (jobj ((''code'', JInt 0) # kvs))"

definition ErrorResponse :: "app_error \<Rightarrow> string list \<Rightarrow> http_reply" where
  "ErrorResponse err detail =
     (let msg = (case detail of [] \<Rightarrow> ae_message err
                 | d # _ \<Rightarrow> if d \<noteq> '''' then ae_message err @ '': '' @ d else ae_message err);
          status = (if ae_status err = 0 then 500 else ae_status err)
      in json_reply status (jobj [(''code'', JInt (ae_code err)), (''error'', JStr msg)]))"

lemma error_reply_fields:
  assumes "ErrorResponse err detail = r"
  shows "\<exists>m. hr_body r = JObj m \<and> map_of m ''code'' = Some (JInt (ae_code err))"
  using assms unfolding ErrorResponse_def json_reply_def jobj_def obj_of_def
  by (auto simp: Let_def)

definition reply_code :: "http_reply \<Rightarrow> int option" where
  "reply_code r =
     (case hr_body r of JObj m \<Rightarrow> (case map_of m ''code'' of Some (JInt c) \<Rightarrow> Some c | _ \<Rightarrow> None)
      | _ \<Rightarrow> None)"

lemma reply_code_error [simp]: "reply_code (ErrorResponse err detail) = Some (ae_code err)"
  using error_reply_fields [OF refl, of err detail] by (auto simp: reply_code_def)

section \<open>Prefixes for logs and metric labels\<close>

definition SafePrefix :: "string \<Rightarrow> nat \<Rightarrow> string" where
  "SafePrefix s n = (if length s \<le> n then s else take n s @ ''...'')"

definition TokenPrefix :: "string \<Rightarrow> string" where
  "TokenPrefix token = (if length token > 10 then take 10 token @ ''...'' else token)"

lemma SafePrefix_reveals: "take (min n (length s)) (SafePrefix s n) = take n s"
  by (simp add: SafePrefix_def min_def)

lemma TokenPrefix_SafePrefix: "TokenPrefix token = SafePrefix token 10"
  by (simp add: TokenPrefix_def SafePrefix_def)

end
