(* ===== verification/Redis.thy ===== *)
theory Redis
  imports Json
begin

text \<open>
  Redis, which the backend reaches through go-redis, is not part of the repository: it is a
  parameter. The record \<open>redis\<close> holds one field for each command the backend issues, a function
  on a server state of an arbitrary type \<open>'s\<close> that returns the reply and the next state. Every
  operation of the development that talks to Redis takes such a record as its argument.

  What the code relies on is the documented effect of each command. It is stated over \<open>store\<close>, the
  keyspace, by the functions and relations \<open>sem_\<dots>\<close>. The locale \<open>redis_service\<close> assumes that a call
  either has its documented effect or fails with a connection error, in which case the command may
  or may not have been executed; \<open>redis_up\<close> assumes in addition that no call fails that way.
  \<open>mem_redis\<close> at the end is an in-memory server that satisfies both, used by the witnesses.

  Scores are the Unix seconds the code writes, kept as \<open>int\<close>. Blocking reads return at once.
  The time to live given with a key is recorded in the store; that the server drops the key when it
  has passed is no command and is not modelled, so a theorem tells what the commands do to a key.
\<close>

datatype rerr = RNil | RFail string

type_synonym ('s, 'a) rcall = "'s \<Rightarrow> (rerr + 'a) \<times> 's"

section \<open>The keyspace\<close>

datatype stream = Stream (s_last: nat) (s_ents: "(nat \<times> string) list") (s_groups: "string \<rightharpoonup> nat \<times> nat list")

datatype rval =
    VStr string
  | VSet "string set"
  | VList "string list"
  | VZSet "(string \<times> int) list"
  | VStream stream

record store =
  kv :: "string \<rightharpoonup> rval"
  ttls :: "string \<rightharpoonup> int"

datatype bound = NegInf | PosInf | Incl int | Excl int

fun above :: "bound \<Rightarrow> int \<Rightarrow> bool" where
  "above NegInf x = True"
| "above PosInf x = False"
| "above (Incl b) x = (b \<le> x)"
| "above (Excl b) x = (b < x)"

fun below :: "bound \<Rightarrow> int \<Rightarrow> bool" where
  "below NegInf x = False"
| "below PosInf x = True"
| "below (Incl b) x = (x \<le> b)"
| "below (Excl b) x = (x < b)"

definition in_range :: "bound \<Rightarrow> bound \<Rightarrow> int \<Rightarrow> bool" where
  "in_range lo hi x = (above lo x \<and> below hi x)"

definition drop_key :: "string \<Rightarrow> store \<Rightarrow> store" where
  "drop_key k st = st\<lparr>kv := (kv st)(k := None), ttls := (ttls st)(k := None)\<rparr>"

definition put_key :: "string \<Rightarrow> rval \<Rightarrow> store \<Rightarrow> store" where
  "put_key k v st = st\<lparr>kv := (kv st)(k \<mapsto> v)\<rparr>"

definition set_ttl :: "string \<Rightarrow> int \<Rightarrow> store \<Rightarrow> store" where
  "set_ttl k t st = st\<lparr>ttls := (ttls st)(k := (if t > 0 then Some t else None))\<rparr>"

definition wrongtype :: "rerr" where
  "wrongtype = RFail ''WRONGTYPE Operation against a key holding the wrong kind of value''"

text \<open>Readings of a key as a value of one type; a missing key reads as the empty value.\<close>

definition str_at :: "store \<Rightarrow> string \<Rightarrow> string option" where
  "str_at st k = (case kv st k of Some (VStr v) \<Rightarrow> Some v | _ \<Rightarrow> None)"

definition set_at :: "store \<Rightarrow> string \<Rightarrow> string set" where
  "set_at st k = (case kv st k of Some (VSet v) \<Rightarrow> v | _ \<Rightarrow> {})"

definition list_at :: "store \<Rightarrow> string \<Rightarrow> string list" where
  "list_at st k = (case kv st k of Some (VList v) \<Rightarrow> v | _ \<Rightarrow> [])"

definition zset_at :: "store \<Rightarrow> string \<Rightarrow> string \<rightharpoonup> int" where
  "zset_at st k = (case kv st k of Some (VZSet z) \<Rightarrow> map_of z | _ \<Rightarrow> Map.empty)"

definition stream_at :: "store \<Rightarrow> string \<Rightarrow> stream option" where
  "stream_at st k = (case kv st k of Some (VStream x) \<Rightarrow> Some x | _ \<Rightarrow> None)"

text \<open>A store in which every key holds what its users expect: the commands on it never find
  another type. Each component states the keys it owns with these.\<close>

definition str_key :: "store \<Rightarrow> string \<Rightarrow> bool" where
  "str_key st k \<longleftrightarrow> (case kv st k of None \<Rightarrow> True | Some (VStr _) \<Rightarrow> True | _ \<Rightarrow> False)"

definition set_key :: "store \<Rightarrow> string \<Rightarrow> bool" where
  "set_key st k \<longleftrightarrow> (case kv st k of None \<Rightarrow> True | Some (VSet s) \<Rightarrow> finite s | _ \<Rightarrow> False)"

definition list_key :: "store \<Rightarrow> string \<Rightarrow> bool" where
  "list_key st k \<longleftrightarrow> (case kv st k of None \<Rightarrow> True | Some (VList _) \<Rightarrow> True | _ \<Rightarrow> False)"

definition zset_key :: "store \<Rightarrow> string \<Rightarrow> bool" where
  "zset_key st k \<longleftrightarrow> (case kv st k of None \<Rightarrow> True | Some (VZSet z) \<Rightarrow> keys_sorted z | _ \<Rightarrow> False)"

definition stream_key :: "store \<Rightarrow> string \<Rightarrow> bool" where
  "stream_key st k \<longleftrightarrow> (case kv st k of None \<Rightarrow> True | Some (VStream _) \<Rightarrow> True | _ \<Rightarrow> False)"

section \<open>Documented effects of the commands\<close>

definition sem_get :: "string \<Rightarrow> store \<Rightarrow> (rerr + string) \<times> store" where
  "sem_get k st = ((case kv st k of None \<Rightarrow> Inl RNil | Some (VStr v) \<Rightarrow> Inr v | _ \<Rightarrow> Inl wrongtype), st)"

definition sem_set :: "string \<Rightarrow> string \<Rightarrow> int \<Rightarrow> store \<Rightarrow> (rerr + unit) \<times> store" where
  "sem_set k v t st = (Inr (), set_ttl k t (put_key k (VStr v) st))"

definition sem_setnx :: "string \<Rightarrow> string \<Rightarrow> int \<Rightarrow> store \<Rightarrow> (rerr + bool) \<times> store" where
  "sem_setnx k v t st =
     (if kv st k = None then (Inr True, set_ttl k t (put_key k (VStr v) st)) else (Inr False, st))"

definition sem_incr :: "string \<Rightarrow> store \<Rightarrow> (rerr + int) \<times> store" where
  "sem_incr k st =
     (case kv st k of
        None \<Rightarrow> (Inr 1, put_key k (VStr (itoa 1)) st)
      | Some (VStr v) \<Rightarrow>
          (case parse_int v of
             (n, None) \<Rightarrow> if n = max_int64 then (Inl (RFail ''ERR increment or decrement would overflow''), st)
                         else (Inr (n + 1), put_key k (VStr (itoa (n + 1))) st)
           | (_, Some _) \<Rightarrow> (Inl (RFail ''ERR value is not an integer or out of range''), st))
      | _ \<Rightarrow> (Inl wrongtype, st))"

definition sem_del :: "string list \<Rightarrow> store \<Rightarrow> (rerr + nat) \<times> store" where
  "sem_del ks st = (Inr (length (filter (\<lambda>k. kv st k \<noteq> None) (remdups ks))), foldl (\<lambda>s k. drop_key k s) st ks)"

definition sem_exists :: "string \<Rightarrow> store \<Rightarrow> (rerr + nat) \<times> store" where
  "sem_exists k st = (Inr (if kv st k = None then 0 else 1), st)"

definition sem_expire :: "string \<Rightarrow> int \<Rightarrow> store \<Rightarrow> (rerr + bool) \<times> store" where
  "sem_expire k t st = (if kv st k = None then (Inr False, st) else (Inr True, set_ttl k t st))"

definition sem_eval :: "(store \<Rightarrow> int \<times> store) \<Rightarrow> store \<Rightarrow> (rerr + int) \<times> store" where
  "sem_eval script st = (case script st of (n, st') \<Rightarrow> (Inr n, st'))"

definition sem_sadd :: "string \<Rightarrow> string \<Rightarrow> store \<Rightarrow> (rerr + nat) \<times> store" where
  "sem_sadd k m st =
     (if set_key st k
      then (Inr (if m \<in> set_at st k then 0 else 1), put_key k (VSet (insert m (set_at st k))) st)
      else (Inl wrongtype, st))"

definition sem_srem :: "string \<Rightarrow> string \<Rightarrow> store \<Rightarrow> (rerr + nat) \<times> store" where
  "sem_srem k m st =
     (if set_key st k
      then (Inr (if m \<in> set_at st k then 1 else 0),
            (if set_at st k - {m} = {} then drop_key k st else put_key k (VSet (set_at st k - {m})) st))
      else (Inl wrongtype, st))"

text \<open>\<open>SMEMBERS\<close> lists a set in no particular order.\<close>

definition sem_smembers :: "string \<Rightarrow> store \<Rightarrow> (rerr + string list) \<Rightarrow> store \<Rightarrow> bool" where
  "sem_smembers k st r st' \<longleftrightarrow> st' = st \<and>
     (if set_key st k then (\<exists>xs. r = Inr xs \<and> distinct xs \<and> set xs = set_at st k) else r = Inl wrongtype)"

definition sem_lrange_all :: "string \<Rightarrow> store \<Rightarrow> (rerr + string list) \<times> store" where
  "sem_lrange_all k st = (if list_key st k then (Inr (list_at st k), st) else (Inl wrongtype, st))"

definition sem_rpush :: "string \<Rightarrow> string list \<Rightarrow> store \<Rightarrow> (rerr + nat) \<times> store" where
  "sem_rpush k vs st =
     (if list_key st k
      then (Inr (length (list_at st k) + length vs), put_key k (VList (list_at st k @ vs)) st)
      else (Inl wrongtype, st))"

text \<open>Sorted sets. A sorted set that becomes empty is removed.\<close>

definition zalist :: "store \<Rightarrow> string \<Rightarrow> (string \<times> int) list" where
  "zalist st k = (case kv st k of Some (VZSet z) \<Rightarrow> z | _ \<Rightarrow> [])"

definition put_zset :: "string \<Rightarrow> (string \<times> int) list \<Rightarrow> store \<Rightarrow> store" where
  "put_zset k z st = (if z = [] then drop_key k st else put_key k (VZSet z) st)"

definition sem_zadd :: "string \<Rightarrow> (string \<times> int) list \<Rightarrow> store \<Rightarrow> (rerr + nat) \<times> store" where
  "sem_zadd k ms st =
     (if zset_key st k
      then (Inr (length (filter (\<lambda>(m, _). m \<notin> dom (zset_at st k)) ms)),
            put_zset k (foldl (\<lambda>z (m, sc). obj_put m sc z) (zalist st k) ms) st)
      else (Inl wrongtype, st))"

definition sem_zrem :: "string \<Rightarrow> string \<Rightarrow> store \<Rightarrow> (rerr + nat) \<times> store" where
  "sem_zrem k m st =
     (if zset_key st k
      then (Inr (if m \<in> dom (zset_at st k) then 1 else 0), put_zset k (obj_del m (zalist st k)) st)
      else (Inl wrongtype, st))"

definition sem_zscore :: "string \<Rightarrow> string \<Rightarrow> store \<Rightarrow> (rerr + int) \<times> store" where
  "sem_zscore k m st =
     (if zset_key st k
      then ((case zset_at st k m of Some sc \<Rightarrow> Inr sc | None \<Rightarrow> Inl RNil), st)
      else (Inl wrongtype, st))"

definition sem_zrangebyscore ::
    "string \<Rightarrow> bound \<Rightarrow> bound \<Rightarrow> store \<Rightarrow> (rerr + string list) \<Rightarrow> store \<Rightarrow> bool" where
  "sem_zrangebyscore k lo hi st r st' \<longleftrightarrow> st' = st \<and>
     (if zset_key st k
      then (\<exists>xs. r = Inr xs \<and> distinct xs \<and>
              set xs = {m. \<exists>sc. zset_at st k m = Some sc \<and> in_range lo hi sc})
      else r = Inl wrongtype)"

definition sem_zremrangebyscore :: "string \<Rightarrow> bound \<Rightarrow> bound \<Rightarrow> store \<Rightarrow> (rerr + nat) \<times> store" where
  "sem_zremrangebyscore k lo hi st =
     (if zset_key st k
      then (Inr (length (filter (\<lambda>(_, sc). in_range lo hi sc) (zalist st k))),
            put_zset k (filter (\<lambda>(_, sc). \<not> in_range lo hi sc) (zalist st k)) st)
      else (Inl wrongtype, st))"

definition sem_zcount :: "string \<Rightarrow> bound \<Rightarrow> bound \<Rightarrow> store \<Rightarrow> (rerr + nat) \<times> store" where
  "sem_zcount k lo hi st =
     (if zset_key st k
      then (Inr (card {m. \<exists>sc. zset_at st k m = Some sc \<and> in_range lo hi sc}), st)
      else (Inl wrongtype, st))"

text \<open>
  Streams. Entry ids are the natural numbers 1, 2, \<open>\<dots>\<close> in the order of insertion (Redis ids are
  increasing pairs). A consumer group is the id of the last entry it delivered and the ids delivered
  and not yet acknowledged. \<open>XADD\<close> with \<open>MAXLEN ~ n\<close> may drop entries from the front as long as \<open>n\<close>
  remain; how many is not documented.
\<close>

definition stream_or_new :: "store \<Rightarrow> string \<Rightarrow> stream" where
  "stream_or_new st k = (case stream_at st k of Some x \<Rightarrow> x | None \<Rightarrow> Stream 0 [] Map.empty)"

definition sem_xadd :: "string \<Rightarrow> int \<Rightarrow> string \<Rightarrow> store \<Rightarrow> (rerr + nat) \<Rightarrow> store \<Rightarrow> bool" where
  "sem_xadd k maxlen msg st r st' \<longleftrightarrow>
     (if stream_key st k then
        (case stream_or_new st k of Stream l es gs \<Rightarrow>
           \<exists>n. (n = 0 \<or> (0 < maxlen \<and> maxlen \<le> int (length es + 1 - n))) \<and> n \<le> length es \<and>
               r = Inr (Suc l) \<and>
               st' = put_key k (VStream (Stream (Suc l) (drop n (es @ [(Suc l, msg)])) gs)) st)
      else r = Inl wrongtype \<and> st' = st)"

definition nogroup :: rerr where
  "nogroup = RFail ''NOGROUP No such key or consumer group''"

definition busygroup :: rerr where
  "busygroup = RFail ''BUSYGROUP Consumer Group name already exists''"

text \<open>\<open>XREADGROUP GROUP g c COUNT 1 STREAMS k >\<close>: the oldest entry not yet delivered to the group.\<close>

definition sem_xreadgroup :: "string \<Rightarrow> string \<Rightarrow> store \<Rightarrow> (rerr + (nat \<times> string)) \<times> store" where
  "sem_xreadgroup k g st =
     (if \<not> stream_key st k then (Inl wrongtype, st)
      else case stream_at st k of
        None \<Rightarrow> (Inl nogroup, st)
      | Some (Stream l es gs) \<Rightarrow>
          (case gs g of
             None \<Rightarrow> (Inl nogroup, st)
           | Some (d, pend) \<Rightarrow>
               (case filter (\<lambda>(i, _). d < i) es of
                  [] \<Rightarrow> (Inl RNil, st)
                | (i, msg) # _ \<Rightarrow>
                    (Inr (i, msg), put_key k (VStream (Stream l es (gs(g \<mapsto> (i, pend @ [i]))))) st))))"

definition sem_xack :: "string \<Rightarrow> string \<Rightarrow> nat \<Rightarrow> store \<Rightarrow> (rerr + nat) \<times> store" where
  "sem_xack k g i st =
     (if \<not> stream_key st k then (Inl wrongtype, st)
      else case stream_at st k of
        None \<Rightarrow> (Inr 0, st)
      | Some (Stream l es gs) \<Rightarrow>
          (case gs g of
             None \<Rightarrow> (Inr 0, st)
           | Some (d, pend) \<Rightarrow>
               (Inr (if i \<in> set pend then 1 else 0),
                put_key k (VStream (Stream l es (gs(g \<mapsto> (d, filter (\<lambda>p. p \<noteq> i) pend))))) st)))"

definition sem_xdel :: "string \<Rightarrow> nat \<Rightarrow> store \<Rightarrow> (rerr + nat) \<times> store" where
  "sem_xdel k i st =
     (if \<not> stream_key st k then (Inl wrongtype, st)
      else case stream_at st k of
        None \<Rightarrow> (Inr 0, st)
      | Some (Stream l es gs) \<Rightarrow>
          (Inr (length (filter (\<lambda>(j, _). j = i) es)),
           put_key k (VStream (Stream l (filter (\<lambda>(j, _). j \<noteq> i) es) gs)) st))"

definition sem_xtrim0 :: "string \<Rightarrow> store \<Rightarrow> (rerr + nat) \<times> store" where
  "sem_xtrim0 k st =
     (if \<not> stream_key st k then (Inl wrongtype, st)
      else case stream_at st k of
        None \<Rightarrow> (Inr 0, st)
      | Some (Stream l es gs) \<Rightarrow> (Inr (length es), put_key k (VStream (Stream l [] gs)) st))"

text \<open>\<open>XGROUP CREATE k g $ MKSTREAM\<close>: the new group starts after the last entry.\<close>

definition sem_xgroup_create :: "string \<Rightarrow> string \<Rightarrow> store \<Rightarrow> (rerr + unit) \<times> store" where
  "sem_xgroup_create k g st =
     (if \<not> stream_key st k then (Inl wrongtype, st)
      else case stream_or_new st k of Stream l es gs \<Rightarrow>
        (case gs g of
           Some _ \<Rightarrow> (Inl busygroup, st)
         | None \<Rightarrow> (Inr (), put_key k (VStream (Stream l es (gs(g \<mapsto> (l, []))))) st)))"

section \<open>The client\<close>

record 's redis =
  rd_get :: "string \<Rightarrow> ('s, string) rcall"
  rd_set :: "string \<Rightarrow> string \<Rightarrow> int \<Rightarrow> ('s, unit) rcall"
  rd_setnx :: "string \<Rightarrow> string \<Rightarrow> int \<Rightarrow> ('s, bool) rcall"
  rd_incr :: "string \<Rightarrow> ('s, int) rcall"
  rd_del :: "string list \<Rightarrow> ('s, nat) rcall"
  rd_exists :: "string \<Rightarrow> ('s, nat) rcall"
  rd_expire :: "string \<Rightarrow> int \<Rightarrow> ('s, bool) rcall"
  rd_eval :: "(store \<Rightarrow> int \<times> store) \<Rightarrow> ('s, int) rcall"
  rd_sadd :: "string \<Rightarrow> string \<Rightarrow> ('s, nat) rcall"
  rd_srem :: "string \<Rightarrow> string \<Rightarrow> ('s, nat) rcall"
  rd_smembers :: "string \<Rightarrow> ('s, string list) rcall"
  rd_lrange_all :: "string \<Rightarrow> ('s, string list) rcall"
  rd_rpush :: "string \<Rightarrow> string list \<Rightarrow> ('s, nat) rcall"
  rd_zadd :: "string \<Rightarrow> (string \<times> int) list \<Rightarrow> ('s, nat) rcall"
  rd_zrem :: "string \<Rightarrow> string \<Rightarrow> ('s, nat) rcall"
  rd_zscore :: "string \<Rightarrow> string \<Rightarrow> ('s, int) rcall"
  rd_zrangebyscore :: "string \<Rightarrow> bound \<Rightarrow> bound \<Rightarrow> ('s, string list) rcall"
  rd_zremrangebyscore :: "string \<Rightarrow> bound \<Rightarrow> bound \<Rightarrow> ('s, nat) rcall"
  rd_zcount :: "string \<Rightarrow> bound \<Rightarrow> bound \<Rightarrow> ('s, nat) rcall"
  rd_xadd :: "string \<Rightarrow> int \<Rightarrow> string \<Rightarrow> ('s, nat) rcall"
  rd_xreadgroup :: "string \<Rightarrow> string \<Rightarrow> ('s, nat \<times> string) rcall"
  rd_xack :: "string \<Rightarrow> string \<Rightarrow> nat \<Rightarrow> ('s, nat) rcall"
  rd_xdel :: "string \<Rightarrow> nat \<Rightarrow> ('s, nat) rcall"
  rd_xtrim0 :: "string \<Rightarrow> ('s, nat) rcall"
  rd_xgroup_create :: "string \<Rightarrow> string \<Rightarrow> ('s, unit) rcall"
  rd_ping :: "('s, unit) rcall"

text \<open>The text of an error, what \<open>err.Error()\<close> returns.\<close>

fun err_text :: "rerr \<Rightarrow> string" where
  "err_text RNil = ''redis: nil''"
| "err_text (RFail e) = e"

section \<open>The laws of the service\<close>

text \<open>A deterministic effect as a relation.\<close>

definition det :: "(store \<Rightarrow> (rerr + 'a) \<times> store) \<Rightarrow> store \<Rightarrow> (rerr + 'a) \<Rightarrow> store \<Rightarrow> bool" where
  "det f st r st' \<longleftrightarrow> f st = (r, st')"

definition obeys :: "('s \<Rightarrow> store) \<Rightarrow> ('s, 'a) rcall \<Rightarrow> (store \<Rightarrow> (rerr + 'a) \<Rightarrow> store \<Rightarrow> bool) \<Rightarrow> bool" where
  "obeys view f spec \<longleftrightarrow> (\<forall>s. spec (view s) (fst (f s)) (view (snd (f s))))"

definition may_fail :: "('s \<Rightarrow> store) \<Rightarrow> ('s, 'a) rcall \<Rightarrow> (store \<Rightarrow> (rerr + 'a) \<Rightarrow> store \<Rightarrow> bool) \<Rightarrow> bool" where
  "may_fail view f spec \<longleftrightarrow>
     (\<forall>s. spec (view s) (fst (f s)) (view (snd (f s))) \<or>
          (\<exists>e. fst (f s) = Inl (RFail e) \<and>
               (view (snd (f s)) = view s \<or> (\<exists>r. spec (view s) r (view (snd (f s)))))))"

lemma obeys_may_fail: "obeys view f spec \<Longrightarrow> may_fail view f spec"
  by (auto simp: obeys_def may_fail_def)

lemma obeys_det:
  "obeys view f (det g) \<longleftrightarrow> (\<forall>s. fst (f s) = fst (g (view s)) \<and> view (snd (f s)) = snd (g (view s)))"
  by (auto simp: obeys_def det_def prod_eq_iff)

text \<open>A server reached over a connection: every call has its documented effect or fails.\<close>

locale redis_service =
  fixes R :: "'s redis"
    and view :: "'s \<Rightarrow> store"
  assumes may_get: "may_fail view (rd_get R k) (det (sem_get k))"
    and may_set: "may_fail view (rd_set R k v t) (det (sem_set k v t))"
    and may_setnx: "may_fail view (rd_setnx R k v t) (det (sem_setnx k v t))"
    and may_incr: "may_fail view (rd_incr R k) (det (sem_incr k))"
    and may_del: "may_fail view (rd_del R ks) (det (sem_del ks))"
    and may_exists: "may_fail view (rd_exists R k) (det (sem_exists k))"
    and may_expire: "may_fail view (rd_expire R k t) (det (sem_expire k t))"
    and may_eval: "may_fail view (rd_eval R f) (det (sem_eval f))"
    and may_sadd: "may_fail view (rd_sadd R k m) (det (sem_sadd k m))"
    and may_srem: "may_fail view (rd_srem R k m) (det (sem_srem k m))"
    and may_smembers: "may_fail view (rd_smembers R k) (sem_smembers k)"
    and may_lrange_all: "may_fail view (rd_lrange_all R k) (det (sem_lrange_all k))"
    and may_rpush: "may_fail view (rd_rpush R k vs) (det (sem_rpush k vs))"
    and may_zadd: "may_fail view (rd_zadd R k ms) (det (sem_zadd k ms))"
    and may_zrem: "may_fail view (rd_zrem R k m) (det (sem_zrem k m))"
    and may_zscore: "may_fail view (rd_zscore R k m) (det (sem_zscore k m))"
    and may_zrangebyscore: "may_fail view (rd_zrangebyscore R k lo hi) (sem_zrangebyscore k lo hi)"
    and may_zremrangebyscore: "may_fail view (rd_zremrangebyscore R k lo hi) (det (sem_zremrangebyscore k lo hi))"
    and may_zcount: "may_fail view (rd_zcount R k lo hi) (det (sem_zcount k lo hi))"
    and may_xadd: "may_fail view (rd_xadd R k n msg) (sem_xadd k n msg)"
    and may_xreadgroup: "may_fail view (rd_xreadgroup R k g) (det (sem_xreadgroup k g))"
    and may_xack: "may_fail view (rd_xack R k g i) (det (sem_xack k g i))"
    and may_xdel: "may_fail view (rd_xdel R k i) (det (sem_xdel k i))"
    and may_xtrim0: "may_fail view (rd_xtrim0 R k) (det (sem_xtrim0 k))"
    and may_xgroup_create: "may_fail view (rd_xgroup_create R k g) (det (sem_xgroup_create k g))"
    and may_ping: "may_fail view (rd_ping R) (det (\<lambda>st. (Inr (), st)))"

text \<open>A server whose connection does not break while the operation at hand runs.\<close>

locale redis_up =
  fixes R :: "'s redis"
    and view :: "'s \<Rightarrow> store"
  assumes obeys_get: "obeys view (rd_get R k) (det (sem_get k))"
    and obeys_set: "obeys view (rd_set R k v t) (det (sem_set k v t))"
    and obeys_setnx: "obeys view (rd_setnx R k v t) (det (sem_setnx k v t))"
    and obeys_incr: "obeys view (rd_incr R k) (det (sem_incr k))"
    and obeys_del: "obeys view (rd_del R ks) (det (sem_del ks))"
    and obeys_exists: "obeys view (rd_exists R k) (det (sem_exists k))"
    and obeys_expire: "obeys view (rd_expire R k t) (det (sem_expire k t))"
    and obeys_eval: "obeys view (rd_eval R f) (det (sem_eval f))"
    and obeys_sadd: "obeys view (rd_sadd R k m) (det (sem_sadd k m))"
    and obeys_srem: "obeys view (rd_srem R k m) (det (sem_srem k m))"
    and obeys_smembers: "obeys view (rd_smembers R k) (sem_smembers k)"
    and obeys_lrange_all: "obeys view (rd_lrange_all R k) (det (sem_lrange_all k))"
    and obeys_rpush: "obeys view (rd_rpush R k vs) (det (sem_rpush k vs))"
    and obeys_zadd: "obeys view (rd_zadd R k ms) (det (sem_zadd k ms))"
    and obeys_zrem: "obeys view (rd_zrem R k m) (det (sem_zrem k m))"
    and obeys_zscore: "obeys view (rd_zscore R k m) (det (sem_zscore k m))"
    and obeys_zrangebyscore: "obeys view (rd_zrangebyscore R k lo hi) (sem_zrangebyscore k lo hi)"
    and obeys_zremrangebyscore: "obeys view (rd_zremrangebyscore R k lo hi) (det (sem_zremrangebyscore k lo hi))"
    and obeys_zcount: "obeys view (rd_zcount R k lo hi) (det (sem_zcount k lo hi))"
    and obeys_xadd: "obeys view (rd_xadd R k n msg) (sem_xadd k n msg)"
    and obeys_xreadgroup: "obeys view (rd_xreadgroup R k g) (det (sem_xreadgroup k g))"
    and obeys_xack: "obeys view (rd_xack R k g i) (det (sem_xack k g i))"
    and obeys_xdel: "obeys view (rd_xdel R k i) (det (sem_xdel k i))"
    and obeys_xtrim0: "obeys view (rd_xtrim0 R k) (det (sem_xtrim0 k))"
    and obeys_xgroup_create: "obeys view (rd_xgroup_create R k g) (det (sem_xgroup_create k g))"
    and obeys_ping: "obeys view (rd_ping R) (det (\<lambda>st. (Inr (), st)))"

sublocale redis_up \<subseteq> redis_service
  by unfold_locales
    (rule obeys_may_fail, rule obeys_get obeys_set obeys_setnx obeys_incr obeys_del obeys_exists obeys_expire obeys_eval obeys_sadd obeys_srem obeys_smembers obeys_lrange_all obeys_rpush obeys_zadd obeys_zrem obeys_zscore obeys_zrangebyscore obeys_zremrangebyscore obeys_zcount obeys_xadd obeys_xreadgroup obeys_xack obeys_xdel obeys_xtrim0 obeys_xgroup_create obeys_ping)+

context redis_up begin

text \<open>The reply and the next keyspace of each deterministic command, as rewrite rules.\<close>

lemma reply [simp]:
  "fst (rd_get R k s) = fst (sem_get k (view s))"
  "fst (rd_set R k v t s) = fst (sem_set k v t (view s))"
  "fst (rd_setnx R k v t s) = fst (sem_setnx k v t (view s))"
  "fst (rd_incr R k s) = fst (sem_incr k (view s))"
  "fst (rd_del R ks s) = fst (sem_del ks (view s))"
  "fst (rd_exists R k s) = fst (sem_exists k (view s))"
  "fst (rd_expire R k t s) = fst (sem_expire k t (view s))"
  "fst (rd_eval R f s) = fst (sem_eval f (view s))"
  "fst (rd_sadd R k m s) = fst (sem_sadd k m (view s))"
  "fst (rd_srem R k m s) = fst (sem_srem k m (view s))"
  "fst (rd_lrange_all R k s) = fst (sem_lrange_all k (view s))"
  "fst (rd_rpush R k vs s) = fst (sem_rpush k vs (view s))"
  "fst (rd_zadd R k ms s) = fst (sem_zadd k ms (view s))"
  "fst (rd_zrem R k m s) = fst (sem_zrem k m (view s))"
  "fst (rd_zscore R k m s) = fst (sem_zscore k m (view s))"
  "fst (rd_zremrangebyscore R k lo hi s) = fst (sem_zremrangebyscore k lo hi (view s))"
  "fst (rd_zcount R k lo hi s) = fst (sem_zcount k lo hi (view s))"
  "fst (rd_xreadgroup R k g s) = fst (sem_xreadgroup k g (view s))"
  "fst (rd_xack R k g i s) = fst (sem_xack k g i (view s))"
  "fst (rd_xdel R k i s) = fst (sem_xdel k i (view s))"
  "fst (rd_xtrim0 R k s) = fst (sem_xtrim0 k (view s))"
  "fst (rd_xgroup_create R k g s) = fst (sem_xgroup_create k g (view s))"
  "fst (rd_ping R s) = fst ((\<lambda>st. (Inr (), st)) (view s))"
  using obeys_get obeys_set obeys_setnx obeys_incr obeys_del obeys_exists obeys_expire obeys_eval obeys_sadd obeys_srem obeys_lrange_all obeys_rpush obeys_zadd obeys_zrem obeys_zscore obeys_zremrangebyscore obeys_zcount obeys_xreadgroup obeys_xack obeys_xdel obeys_xtrim0 obeys_xgroup_create obeys_ping
  by (simp_all add: obeys_det)

lemma next_view [simp]:
  "view (snd (rd_get R k s)) = snd (sem_get k (view s))"
  "view (snd (rd_set R k v t s)) = snd (sem_set k v t (view s))"
  "view (snd (rd_setnx R k v t s)) = snd (sem_setnx k v t (view s))"
  "view (snd (rd_incr R k s)) = snd (sem_incr k (view s))"
  "view (snd (rd_del R ks s)) = snd (sem_del ks (view s))"
  "view (snd (rd_exists R k s)) = snd (sem_exists k (view s))"
  "view (snd (rd_expire R k t s)) = snd (sem_expire k t (view s))"
  "view (snd (rd_eval R f s)) = snd (sem_eval f (view s))"
  "view (snd (rd_sadd R k m s)) = snd (sem_sadd k m (view s))"
  "view (snd (rd_srem R k m s)) = snd (sem_srem k m (view s))"
  "view (snd (rd_lrange_all R k s)) = snd (sem_lrange_all k (view s))"
  "view (snd (rd_rpush R k vs s)) = snd (sem_rpush k vs (view s))"
  "view (snd (rd_zadd R k ms s)) = snd (sem_zadd k ms (view s))"
  "view (snd (rd_zrem R k m s)) = snd (sem_zrem k m (view s))"
  "view (snd (rd_zscore R k m s)) = snd (sem_zscore k m (view s))"
  "view (snd (rd_zremrangebyscore R k lo hi s)) = snd (sem_zremrangebyscore k lo hi (view s))"
  "view (snd (rd_zcount R k lo hi s)) = snd (sem_zcount k lo hi (view s))"
  "view (snd (rd_xreadgroup R k g s)) = snd (sem_xreadgroup k g (view s))"
  "view (snd (rd_xack R k g i s)) = snd (sem_xack k g i (view s))"
  "view (snd (rd_xdel R k i s)) = snd (sem_xdel k i (view s))"
  "view (snd (rd_xtrim0 R k s)) = snd (sem_xtrim0 k (view s))"
  "view (snd (rd_xgroup_create R k g s)) = snd (sem_xgroup_create k g (view s))"
  "view (snd (rd_ping R s)) = snd ((\<lambda>st. (Inr (), st)) (view s))"
  using obeys_get obeys_set obeys_setnx obeys_incr obeys_del obeys_exists obeys_expire obeys_eval obeys_sadd obeys_srem obeys_lrange_all obeys_rpush obeys_zadd obeys_zrem obeys_zscore obeys_zremrangebyscore obeys_zcount obeys_xreadgroup obeys_xack obeys_xdel obeys_xtrim0 obeys_xgroup_create obeys_ping
  by (simp_all add: obeys_det)

lemma smembers_spec:
  assumes "set_key (view s) k"
  obtains xs where "fst (rd_smembers R k s) = Inr xs" "distinct xs" "set xs = set_at (view s) k"
    "view (snd (rd_smembers R k s)) = view s"
proof -
  have "sem_smembers k (view s) (fst (rd_smembers R k s)) (view (snd (rd_smembers R k s)))"
    using obeys_smembers [of k] by (simp add: obeys_def)
  with assms that show ?thesis by (auto simp: sem_smembers_def)
qed

lemma smembers_view [simp]: "view (snd (rd_smembers R k s)) = view s"
  using obeys_smembers [of k] by (auto simp: obeys_def sem_smembers_def)

lemma zrangebyscore_spec:
  assumes "zset_key (view s) k"
  obtains xs where "fst (rd_zrangebyscore R k lo hi s) = Inr xs" "distinct xs"
    "set xs = {m. \<exists>sc. zset_at (view s) k m = Some sc \<and> in_range lo hi sc}"
    "view (snd (rd_zrangebyscore R k lo hi s)) = view s"
proof -
  have "sem_zrangebyscore k lo hi (view s) (fst (rd_zrangebyscore R k lo hi s))
      (view (snd (rd_zrangebyscore R k lo hi s)))"
    using obeys_zrangebyscore [of k lo hi] by (simp add: obeys_def)
  with assms that show ?thesis by (auto simp: sem_zrangebyscore_def)
qed

lemma zrangebyscore_view [simp]: "view (snd (rd_zrangebyscore R k lo hi s)) = view s"
  using obeys_zrangebyscore [of k lo hi] by (auto simp: obeys_def sem_zrangebyscore_def)

lemma xadd_spec: "sem_xadd k n msg (view s) (fst (rd_xadd R k n msg s)) (view (snd (rd_xadd R k n msg s)))"
  using obeys_xadd [of k n msg] by (simp add: obeys_def)

end

section \<open>An in-memory server\<close>

definition mem_smembers :: "string \<Rightarrow> (store, string list) rcall" where
  "mem_smembers k st =
     (if set_key st k then (Inr (sorted_list_of_set (set_at st k)), st) else (Inl wrongtype, st))"

definition mem_zrangebyscore :: "string \<Rightarrow> bound \<Rightarrow> bound \<Rightarrow> (store, string list) rcall" where
  "mem_zrangebyscore k lo hi st =
     (if zset_key st k then (Inr (map fst (filter (\<lambda>(_, sc). in_range lo hi sc) (zalist st k))), st)
      else (Inl wrongtype, st))"

definition mem_xadd :: "string \<Rightarrow> int \<Rightarrow> string \<Rightarrow> (store, nat) rcall" where
  "mem_xadd k maxlen msg st =
     (if stream_key st k then
        (case stream_or_new st k of Stream l es gs \<Rightarrow>
           (Inr (Suc l),
            put_key k (VStream (Stream (Suc l)
              (drop (if 0 < maxlen then length es + 1 - nat maxlen else 0) (es @ [(Suc l, msg)])) gs)) st))
      else (Inl wrongtype, st))"

definition mem_redis :: "store redis" where
  "mem_redis = \<lparr>
     rd_get = sem_get, rd_set = sem_set, rd_setnx = sem_setnx, rd_incr = sem_incr, rd_del = sem_del,
     rd_exists = sem_exists, rd_expire = sem_expire, rd_eval = sem_eval, rd_sadd = sem_sadd,
     rd_srem = sem_srem, rd_smembers = mem_smembers, rd_lrange_all = sem_lrange_all,
     rd_rpush = sem_rpush, rd_zadd = sem_zadd, rd_zrem = sem_zrem, rd_zscore = sem_zscore,
     rd_zrangebyscore = mem_zrangebyscore, rd_zremrangebyscore = sem_zremrangebyscore,
     rd_zcount = sem_zcount, rd_xadd = mem_xadd, rd_xreadgroup = sem_xreadgroup, rd_xack = sem_xack,
     rd_xdel = sem_xdel, rd_xtrim0 = sem_xtrim0, rd_xgroup_create = sem_xgroup_create,
     rd_ping = (\<lambda>st. (Inr (), st)) \<rparr>"

lemma keys_sorted_distinct: "keys_sorted z \<Longrightarrow> distinct (map fst z)"
  by (simp add: keys_sorted_def strict_sorted_iff)

lemma keys_sorted_filter: "keys_sorted z \<Longrightarrow> keys_sorted (filter P z)"
  by (induction z) (auto simp: keys_sorted_def)

lemma zset_at_alist: "zset_at st k = map_of (zalist st k)"
  by (auto simp: zset_at_def zalist_def split: option.splits rval.splits)

lemma zset_key_sorted: "zset_key st k \<Longrightarrow> keys_sorted (zalist st k)"
  by (auto simp: zset_key_def zalist_def keys_sorted_def split: option.splits rval.splits)

lemma mem_obeys_smembers: "obeys (\<lambda>s. s) (mem_smembers k) (sem_smembers k)"
proof -
  have "finite (set_at st k)" if "set_key st k" for st
    using that by (auto simp: set_key_def set_at_def split: option.splits rval.splits)
  then show ?thesis by (auto simp: obeys_def mem_smembers_def sem_smembers_def)
qed

lemma mem_obeys_zrangebyscore: "obeys (\<lambda>s. s) (mem_zrangebyscore k lo hi) (sem_zrangebyscore k lo hi)"
proof -
  have "distinct (map fst (filter P (zalist st k)))" if "zset_key st k" for st P
    using that by (blast intro: keys_sorted_distinct keys_sorted_filter zset_key_sorted)
  moreover have "fst ` {x \<in> set (zalist st k). case x of (_, sc) \<Rightarrow> in_range lo hi sc}
      = {m. \<exists>sc. zset_at st k m = Some sc \<and> in_range lo hi sc}" if "zset_key st k" for st
    using keys_sorted_distinct [OF zset_key_sorted [OF that]]
    by (force simp: zset_at_alist image_iff)
  ultimately show ?thesis by (auto simp: obeys_def mem_zrangebyscore_def sem_zrangebyscore_def)
qed

lemma mem_obeys_xadd: "obeys (\<lambda>s. s) (mem_xadd k n msg) (sem_xadd k n msg)"
proof -
  have "sem_xadd k n msg st (fst (mem_xadd k n msg st)) (snd (mem_xadd k n msg st))" for st
  proof (cases "stream_key st k")
    case True
    obtain l es gs where x: "stream_or_new st k = Stream l es gs" by (cases "stream_or_new st k")
    let ?n = "if 0 < n then length es + 1 - nat n else 0"
    have "(?n = 0 \<or> 0 < n \<and> n \<le> int (length es + 1 - ?n)) \<and> ?n \<le> length es" by auto
    with True x show ?thesis unfolding sem_xadd_def mem_xadd_def by (auto intro!: exI [of _ ?n])
  qed (simp add: sem_xadd_def mem_xadd_def)
  then show ?thesis by (simp add: obeys_def)
qed

interpretation mem: redis_up mem_redis "\<lambda>s. s"
  by unfold_locales
    (simp_all add: mem_redis_def obeys_det mem_obeys_smembers mem_obeys_zrangebyscore mem_obeys_xadd)

end
