(* ===== verification/Queue.thy ===== *)
theory Queue
  imports Redis "HOL-Library.Sublist"
begin

text \<open>
  The message queue of \<open>internal/service/queue.go\<close>: the interface \<open>MessageQueue\<close> is the record
  \<open>mq\<close>, its contract the locale \<open>message_queue\<close>, and \<open>RedisStreamQueue\<close> the implementation over
  Redis streams, shown to meet the contract on any server that answers.

  The consumer name and the blocking time are left out: they select neither the entry read nor
  its effect. An entry id is a number; \<open>data\<close> is the one field of an entry.
\<close>

type_synonym msg_id = nat

record 's mq =
  mq_publish :: "string \<Rightarrow> string \<Rightarrow> 's \<Rightarrow> (string + msg_id) \<times> 's"
  mq_consume :: "string \<Rightarrow> string \<Rightarrow> 's \<Rightarrow> (string + (msg_id \<times> string) option) \<times> 's"
  mq_ack :: "string \<Rightarrow> string \<Rightarrow> msg_id \<Rightarrow> 's \<Rightarrow> (string + unit) \<times> 's"
  mq_delete_message :: "string \<Rightarrow> msg_id \<Rightarrow> 's \<Rightarrow> (string + unit) \<times> 's"
  mq_delete_queue :: "string \<Rightarrow> 's \<Rightarrow> (string + unit) \<times> 's"
  mq_purge :: "string \<Rightarrow> 's \<Rightarrow> (string + unit) \<times> 's"
  mq_ensure_group :: "string \<Rightarrow> string \<Rightarrow> 's \<Rightarrow> (string + unit) \<times> 's"

section \<open>The Redis implementation\<close>

definition Publish :: "'s redis \<Rightarrow> int \<Rightarrow> string \<Rightarrow> string \<Rightarrow> 's \<Rightarrow> (string + msg_id) \<times> 's" where
  "Publish R maxLen queueName message s =
     (case rd_xadd R queueName maxLen message s of
        (Inl err, s1) \<Rightarrow> (Inl (''xadd: '' @ err_text err), s1)
      | (Inr entryID, s1) \<Rightarrow> (Inr entryID, s1))"

definition EnsureGroup :: "'s redis \<Rightarrow> string \<Rightarrow> string \<Rightarrow> 's \<Rightarrow> (string + unit) \<times> 's" where
  "EnsureGroup R queueName grp s =
     (case rd_xgroup_create R queueName grp s of
        (Inl err, s1) \<Rightarrow>
          if str_contains (err_text err) ''BUSYGROUP'' then (Inr (), s1)
          else (Inl (''xgroup create: '' @ err_text err), s1)
      | (Inr _, s1) \<Rightarrow> (Inr (), s1))"

definition Consume ::
    "'s redis \<Rightarrow> string \<Rightarrow> string \<Rightarrow> 's \<Rightarrow> (string + (msg_id \<times> string) option) \<times> 's" where
  "Consume R queueName grp s =
     (case rd_xreadgroup R queueName grp s of
        (Inl RNil, s1) \<Rightarrow> (Inr None, s1)
      | (Inl (RFail e), s1) \<Rightarrow>
          if str_contains e ''NOGROUP'' then
            (case EnsureGroup R queueName grp s1 of (_, s2) \<Rightarrow> (Inr None, s2))
          else (Inl (''xreadgroup: '' @ e), s1)
      | (Inr (i, data), s1) \<Rightarrow> (Inr (Some (i, data)), s1))"

definition Ack :: "'s redis \<Rightarrow> string \<Rightarrow> string \<Rightarrow> msg_id \<Rightarrow> 's \<Rightarrow> (string + unit) \<times> 's" where
  "Ack R queueName grp messageID s =
     (case rd_xack R queueName grp messageID s of
        (Inl err, s1) \<Rightarrow> (Inl (''xack: '' @ err_text err), s1)
      | (Inr _, s1) \<Rightarrow> (Inr (), s1))"

definition DeleteMessage :: "'s redis \<Rightarrow> string \<Rightarrow> msg_id \<Rightarrow> 's \<Rightarrow> (string + unit) \<times> 's" where
  "DeleteMessage R queueName messageID s =
     (case rd_xdel R queueName messageID s of
        (Inl err, s1) \<Rightarrow> (Inl (''xdel: '' @ err_text err), s1)
      | (Inr _, s1) \<Rightarrow> (Inr (), s1))"

definition DeleteQueue :: "'s redis \<Rightarrow> string \<Rightarrow> 's \<Rightarrow> (string + unit) \<times> 's" where
  "DeleteQueue R queueName s =
     (case rd_del R [queueName] s of
        (Inl err, s1) \<Rightarrow> (Inl (''del: '' @ err_text err), s1)
      | (Inr _, s1) \<Rightarrow> (Inr (), s1))"

definition Purge :: "'s redis \<Rightarrow> string \<Rightarrow> 's \<Rightarrow> (string + unit) \<times> 's" where
  "Purge R queueName s =
     (case rd_xtrim0 R queueName s of
        (Inl err, s1) \<Rightarrow> (Inl (''xtrim: '' @ err_text err), s1)
      | (Inr _, s1) \<Rightarrow> (Inr (), s1))"

definition NewRedisStreamQueue :: "'s redis \<Rightarrow> int \<Rightarrow> 's mq" where
  "NewRedisStreamQueue R maxStreamLen = \<lparr>
     mq_publish = Publish R maxStreamLen, mq_consume = Consume R, mq_ack = Ack R,
     mq_delete_message = DeleteMessage R, mq_delete_queue = DeleteQueue R, mq_purge = Purge R,
     mq_ensure_group = EnsureGroup R \<rparr>"

definition NewQueue :: "string \<Rightarrow> 's redis \<Rightarrow> int \<Rightarrow> string + 's mq" where
  "NewQueue queueType R maxStreamLen =
     (if queueType = ''redis_stream'' then Inr (NewRedisStreamQueue R maxStreamLen)
      else Inl (''unsupported queue type: '' @ queueType))"

lemma mq_fields [simp]:
  "mq_publish (NewRedisStreamQueue R n) = Publish R n"
  "mq_consume (NewRedisStreamQueue R n) = Consume R"
  "mq_ack (NewRedisStreamQueue R n) = Ack R"
  "mq_delete_message (NewRedisStreamQueue R n) = DeleteMessage R"
  "mq_delete_queue (NewRedisStreamQueue R n) = DeleteQueue R"
  "mq_purge (NewRedisStreamQueue R n) = Purge R"
  "mq_ensure_group (NewRedisStreamQueue R n) = EnsureGroup R"
  by (simp_all add: NewRedisStreamQueue_def)

section \<open>The contract\<close>

text \<open>\<open>chan s q g\<close> is what group \<open>g\<close> has still to read from queue \<open>q\<close>, oldest first; \<open>None\<close> when
  the group does not exist. \<open>good s q\<close> is the provider's own invariant on a queue. A bounded queue
  may drop the oldest messages once it holds \<open>cap\<close> of them.\<close>

definition only_queue ::
    "('s \<Rightarrow> string \<Rightarrow> bool) \<Rightarrow> ('s \<Rightarrow> string \<Rightarrow> string \<Rightarrow> string list option) \<Rightarrow> string \<Rightarrow> 's \<Rightarrow> 's \<Rightarrow> bool" where
  "only_queue good chan q s s' \<longleftrightarrow>
     (\<forall>q'. q' \<noteq> q \<longrightarrow> good s' q' = good s q' \<and> chan s' q' = chan s q')"

locale message_queue =
  fixes Q :: "'s mq"
    and good :: "'s \<Rightarrow> string \<Rightarrow> bool"
    and chan :: "'s \<Rightarrow> string \<Rightarrow> string \<Rightarrow> string list option"
    and cap :: nat
  assumes publish: "good s q \<Longrightarrow> mq_publish Q q m s = (rp, s') \<Longrightarrow>
      is_ok rp \<and> good s' q \<and> only_queue good chan q s s' \<and>
      (\<forall>g. case chan s q g of None \<Rightarrow> chan s' q g = None
        | Some p \<Rightarrow> \<exists>n. (n = 0 \<or> cap \<le> length p + 1 - n) \<and> chan s' q g = Some (drop n (p @ [m])))"
    and consume: "good s q \<Longrightarrow> mq_consume Q q g s = (rc, s') \<Longrightarrow>
      good s' q \<and> only_queue good chan q s s' \<and>
      (case chan s q g of
         Some (m # p) \<Rightarrow> (\<exists>i. rc = Inr (Some (i, m))) \<and> chan s' q g = Some p
       | _ \<Rightarrow> rc = Inr None \<and> chan s' q g = Some [])"
    and ack: "good s q \<Longrightarrow> mq_ack Q q g i s = (r, s') \<Longrightarrow>
      r = Inr () \<and> good s' q \<and> only_queue good chan q s s' \<and> chan s' q = chan s q"
    and delete_message: "good s q \<Longrightarrow> mq_delete_message Q q i s = (r, s') \<Longrightarrow>
      r = Inr () \<and> good s' q \<and> only_queue good chan q s s' \<and>
      (\<forall>g. rel_option subseq (chan s' q g) (chan s q g))"
    and delete_queue: "mq_delete_queue Q q s = (r, s') \<Longrightarrow>
      r = Inr () \<and> good s' q \<and> only_queue good chan q s s' \<and> chan s' q g = None"
    and purge: "good s q \<Longrightarrow> mq_purge Q q s = (r, s') \<Longrightarrow>
      r = Inr () \<and> good s' q \<and> only_queue good chan q s s' \<and>
      (\<forall>g. chan s' q g = map_option (\<lambda>_. []) (chan s q g))"
    and ensure_group: "good s q \<Longrightarrow> mq_ensure_group Q q g s = (r, s') \<Longrightarrow>
      r = Inr () \<and> good s' q \<and> only_queue good chan q s s' \<and>
      chan s' q g = Some (case chan s q g of None \<Rightarrow> [] | Some p \<Rightarrow> p)"

text \<open>Reading \<open>n\<close> times, the way the consumers do: a read message is acknowledged before the next.\<close>

fun drain :: "'s mq \<Rightarrow> string \<Rightarrow> string \<Rightarrow> nat \<Rightarrow> 's \<Rightarrow> string list \<times> 's" where
  "drain Q q g 0 s = ([], s)"
| "drain Q q g (Suc n) s =
     (case mq_consume Q q g s of
        (Inr (Some (i, m)), s1) \<Rightarrow>
          (case drain Q q g n (snd (mq_ack Q q g i s1)) of (ms, s2) \<Rightarrow> (m # ms, s2))
      | (_, s1) \<Rightarrow> drain Q q g n s1)"

fun publish_all :: "'s mq \<Rightarrow> string \<Rightarrow> string list \<Rightarrow> 's \<Rightarrow> 's" where
  "publish_all Q q [] s = s"
| "publish_all Q q (m # ms) s = publish_all Q q ms (snd (mq_publish Q q m s))"

context message_queue begin

lemma drain_fifo:
  "good s q \<Longrightarrow> chan s q g = Some p \<Longrightarrow> n \<le> length p \<Longrightarrow>
   fst (drain Q q g n s) = take n p \<and> good (snd (drain Q q g n s)) q \<and>
   chan (snd (drain Q q g n s)) q g = Some (drop n p)"
proof (induction n arbitrary: s p)
  case (Suc n)
  then obtain m p' where p: "p = m # p'" by (cases p) auto
  obtain r s1 where c: "mq_consume Q q g s = (r, s1)" by (cases "mq_consume Q q g s")
  obtain i where r: "r = Inr (Some (i, m))" and g1: "good s1 q" and ch: "chan s1 q g = Some p'"
    using consume [OF Suc.prems(1) c] Suc.prems(2) p by auto
  obtain r2 s2 where a: "mq_ack Q q g i s1 = (r2, s2)" by (cases "mq_ack Q q g i s1")
  have "good s2 q" "chan s2 q g = Some p'" using ack [OF g1 a] ch by auto
  from Suc.IH [OF this] Suc.prems(3) p
  show ?case using c r a by (simp add: case_prod_beta)
qed simp

lemma publish_all_queued:
  "good s q \<Longrightarrow> chan s q g = Some p \<Longrightarrow> length p + length ms < cap \<Longrightarrow>
   good (publish_all Q q ms s) q \<and> chan (publish_all Q q ms s) q g = Some (p @ ms)"
proof (induction ms arbitrary: s p)
  case (Cons m ms)
  obtain r s1 where e: "mq_publish Q q m s = (r, s1)" by (cases "mq_publish Q q m s")
  have "case chan s q g of None \<Rightarrow> chan s1 q g = None
      | Some p \<Rightarrow> \<exists>n. (n = 0 \<or> cap \<le> length p + 1 - n) \<and> chan s1 q g = Some (drop n (p @ [m]))"
    and "good s1 q"
    using publish [OF Cons.prems(1) e] by blast+
  then obtain n where "n = 0 \<or> cap \<le> length p + 1 - n" "chan s1 q g = Some (drop n (p @ [m]))" "good s1 q"
    using Cons.prems(2) by auto
  moreover from this Cons.prems(3) have "n = 0" by auto
  ultimately show ?case using Cons.IH [of s1 "p @ [m]"] Cons.prems(3) e by simp
qed simp

text \<open>What is published is read back, once each and in order.\<close>

lemma publish_then_drain:
  assumes "good s q" "chan s q g = Some []" "length ms < cap"
  shows "fst (drain Q q g (length ms) (publish_all Q q ms s)) = ms"
  using publish_all_queued [of s q g "[]" ms] drain_fifo [of "publish_all Q q ms s" q g ms "length ms"] assms
  by simp

end

section \<open>Redis streams meet the contract\<close>

text \<open>A stream whose ids increase and do not exceed its last id, and whose groups have not read
  past it: what the server maintains.\<close>

fun stream_ok :: "stream \<Rightarrow> bool" where
  "stream_ok (Stream l es gs) \<longleftrightarrow>
     sorted_wrt (<) (map fst es) \<and> (\<forall>i\<in>fst ` set es. i \<le> l) \<and> (\<forall>d P. (\<exists>g. gs g = Some (d, P)) \<longrightarrow> d \<le> l)"

definition queue_good :: "store \<Rightarrow> string \<Rightarrow> bool" where
  "queue_good st q \<longleftrightarrow> (case kv st q of None \<Rightarrow> True | Some (VStream x) \<Rightarrow> stream_ok x | _ \<Rightarrow> False)"

definition undelivered :: "nat \<Rightarrow> (nat \<times> string) list \<Rightarrow> string list" where
  "undelivered d es = map snd (filter (\<lambda>(i, _). d < i) es)"

definition queue_chan :: "store \<Rightarrow> string \<Rightarrow> string \<Rightarrow> string list option" where
  "queue_chan st q g =
     (case stream_at st q of
        None \<Rightarrow> None
      | Some (Stream l es gs) \<Rightarrow> map_option (\<lambda>(d, _). undelivered d es) (gs g))"

lemma queue_good_cases:
  assumes "queue_good st q"
  obtains "kv st q = None" | l es gs where "kv st q = Some (VStream (Stream l es gs))" "stream_ok (Stream l es gs)"
proof (cases "kv st q")
  case (Some v)
  with assms obtain x where "v = VStream x" "stream_ok x"
    by (auto simp: queue_good_def split: rval.splits)
  with Some that(2) show ?thesis by (cases x) auto
qed (use that in blast)

lemma stream_readings:
  "kv st q = None \<Longrightarrow> stream_key st q \<and> stream_at st q = None \<and> stream_or_new st q = Stream 0 [] Map.empty"
  "kv st q = Some (VStream x) \<Longrightarrow> stream_key st q \<and> stream_at st q = Some x \<and> stream_or_new st q = x"
  by (simp_all add: stream_key_def stream_at_def stream_or_new_def)

lemma kv_updates [simp]:
  "kv (put_key k v st) = (kv st)(k \<mapsto> v)" "kv (drop_key k st) = (kv st)(k := None)"
  "kv (set_ttl k t st) = kv st"
  by (simp_all add: put_key_def drop_key_def set_ttl_def)

lemma only_queue_kv:
  "(\<And>k. k \<noteq> q \<Longrightarrow> kv st' k = kv st k) \<Longrightarrow> only_queue queue_good queue_chan q st st'"
  by (auto simp: only_queue_def queue_good_def queue_chan_def stream_at_def fun_eq_iff)

lemma chan_stream:
  "kv st q = Some (VStream (Stream l es gs)) \<Longrightarrow>
   queue_chan st q g = map_option (\<lambda>(d, _). undelivered d es) (gs g)"
  by (simp add: queue_chan_def stream_at_def)

lemma chan_none: "kv st q = None \<Longrightarrow> queue_chan st q g = None"
  by (simp add: queue_chan_def stream_at_def)

lemma stream_put [simp]:
  "queue_chan (put_key q (VStream (Stream l es gs)) st) q g = map_option (\<lambda>(d, _). undelivered d es) (gs g)"
  "queue_good (put_key q (VStream x) st) q = stream_ok x"
  by (simp_all add: queue_chan_def stream_at_def queue_good_def)

lemma good_stream: "kv st q = Some (VStream x) \<Longrightarrow> queue_good st q = stream_ok x"
  by (simp add: queue_good_def)

text \<open>In an ordered stream the undelivered entries are a suffix, so trimming the front cuts the
  delivered ones first.\<close>

lemma undelivered_dropWhile:
  "sorted_wrt (<) (map fst es) \<Longrightarrow> undelivered d es = map snd (dropWhile (\<lambda>e. fst e \<le> d) es)"
proof (induction es)
  case (Cons e es)
  show ?case
  proof (cases "fst e \<le> d")
    case True
    with Cons show ?thesis by (cases e) (simp add: undelivered_def)
  next
    case False
    with Cons.prems have "\<forall>x\<in>set (e # es). d < fst x" by fastforce
    then have "filter (\<lambda>(i, _). d < i) (e # es) = e # es" by (subst filter_id_conv) auto
    with False show ?thesis by (simp add: undelivered_def)
  qed
qed (simp add: undelivered_def)

lemma dropWhile_drop_sorted:
  fixes es :: "(nat \<times> string) list"
  shows "sorted_wrt (<) (map fst es) \<Longrightarrow>
   dropWhile (\<lambda>e. fst e \<le> d) (drop n es) = drop (n - length (takeWhile (\<lambda>e. fst e \<le> d) es)) (dropWhile (\<lambda>e. fst e \<le> d) es)"
proof (induction es arbitrary: n)
  case (Cons e es)
  show ?case
  proof (cases n)
    case (Suc m)
    show ?thesis
    proof (cases "fst e \<le> d")
      case True
      with Suc Cons show ?thesis by simp
    next
      case False
      from Cons.prems have "\<forall>x\<in>set es. fst e < fst x" by simp
      with False have "\<forall>x\<in>set es. \<not> fst x \<le> d" by fastforce
      then have "\<forall>x\<in>set (drop m es). \<not> fst x \<le> d" by (meson in_set_dropD)
      then have "dropWhile (\<lambda>e. fst e \<le> d) (drop m es) = drop m es"
        by (cases "drop m es") auto
      with Suc False show ?thesis by simp
    qed
  qed simp
qed simp

lemma undelivered_drop:
  assumes "sorted_wrt (<) (map fst es)"
  shows "undelivered d (drop n es) = drop (n - (length es - length (undelivered d es))) (undelivered d es)"
proof -
  have "sorted_wrt (<) (map fst (drop n es))" using assms by (simp add: drop_map [symmetric] sorted_wrt_drop)
  moreover have "length es - length (dropWhile (\<lambda>e. fst e \<le> d) es) = length (takeWhile (\<lambda>e. fst e \<le> d) es)"
    by (metis add_diff_cancel_right' length_append takeWhile_dropWhile_id)
  ultimately show ?thesis
    using assms by (simp add: undelivered_dropWhile dropWhile_drop_sorted drop_map)
qed

lemma undelivered_filter_subseq: "subseq (undelivered d (filter P es)) (undelivered d es)"
  unfolding undelivered_def by (intro subseq_map subseq_filter subseq_filter_left)

text \<open>The effect of each command on the abstract queue.\<close>

lemma xadd_queue:
  assumes good: "queue_good st q" and x: "sem_xadd q n m st r st'"
  shows "is_ok r \<and> queue_good st' q \<and> only_queue queue_good queue_chan q st st' \<and>
    (\<forall>g. case queue_chan st q g of None \<Rightarrow> queue_chan st' q g = None
       | Some p \<Rightarrow> \<exists>k. (k = 0 \<or> nat n \<le> length p + 1 - k) \<and> queue_chan st' q g = Some (drop k (p @ [m])))"
proof -
  obtain l es gs where st: "stream_key st q" "stream_or_new st q = Stream l es gs" "stream_ok (Stream l es gs)"
      "\<And>g. queue_chan st q g = map_option (\<lambda>(d, _). undelivered d es) (gs g)"
    using good by (rule queue_good_cases) (force simp: stream_readings chan_stream chan_none)+
  let ?es = "es @ [(Suc l, m)]"
  obtain k where k: "k = 0 \<or> (0 < n \<and> n \<le> int (length es + 1 - k))" "k \<le> length es" "r = Inr (Suc l)"
      "st' = put_key q (VStream (Stream (Suc l) (drop k ?es) gs)) st"
    using x [unfolded sem_xadd_def st(2) stream.case if_P [OF st(1)]] by blast
  have sorted: "sorted_wrt (<) (map fst ?es)"
    using st(3) by (auto simp: sorted_wrt_append le_imp_less_Suc)
  have "sorted_wrt (<) (map fst (drop k ?es))"
    using sorted_wrt_drop [OF sorted] by (simp only: drop_map)
  moreover have "\<forall>x\<in>set (drop k ?es). fst x \<le> Suc l"
    using st(3) by (auto dest!: in_set_dropD)
  moreover have "\<forall>d P. (\<exists>g. gs g = Some (d, P)) \<longrightarrow> d \<le> Suc l"
    using st(3) by (fastforce intro: le_SucI)
  ultimately have "stream_ok (Stream (Suc l) (drop k ?es) gs)"
    by (simp only: stream_ok.simps ball_simps)
  then have "queue_good st' q" using k by (simp add: good_stream)
  moreover have "only_queue queue_good queue_chan q st st'" using k by (intro only_queue_kv) simp
  moreover have "case queue_chan st q g of None \<Rightarrow> queue_chan st' q g = None
       | Some p \<Rightarrow> \<exists>k. (k = 0 \<or> nat n \<le> length p + 1 - k) \<and> queue_chan st' q g = Some (drop k (p @ [m]))" for g
  proof (cases "gs g")
    case None
    with st(4) k show ?thesis by (simp add: chan_stream [of st' q "Suc l" "drop k ?es" gs])
  next
    case (Some dp)
    obtain d P where dp: "dp = (d, P)" by (cases dp)
    with Some st(3) have d: "d \<le> l" by auto
    let ?p = "undelivered d es" and ?j = "k - (length ?es - length (undelivered d ?es))"
    have u: "undelivered d ?es = ?p @ [m]" using d by (simp add: undelivered_def)
    have "length ?p \<le> length es" by (simp add: undelivered_def)
    then have "?j = 0 \<or> nat n \<le> length ?p + 1 - ?j" using k(1,2) u by (auto simp: nat_le_iff)
    moreover have "undelivered d (drop k ?es) = drop ?j (?p @ [m])"
      using undelivered_drop [OF sorted] u by simp
    ultimately show ?thesis
      using Some dp st(4) k by (auto simp: chan_stream [of st' q "Suc l" "drop k ?es" gs])
  qed
  ultimately show ?thesis using k by simp
qed

lemma ensure_queue:
  assumes good: "queue_good st q"
  shows "(fst (sem_xgroup_create q g st) = Inr () \<or> fst (sem_xgroup_create q g st) = Inl busygroup) \<and>
    queue_good (snd (sem_xgroup_create q g st)) q \<and>
    only_queue queue_good queue_chan q st (snd (sem_xgroup_create q g st)) \<and>
    queue_chan (snd (sem_xgroup_create q g st)) q g =
      Some (case queue_chan st q g of None \<Rightarrow> [] | Some p \<Rightarrow> p)"
proof -
  obtain l es gs where st: "stream_key st q" "stream_or_new st q = Stream l es gs" "stream_ok (Stream l es gs)"
      "\<And>g. queue_chan st q g = map_option (\<lambda>(d, _). undelivered d es) (gs g)"
    using good by (rule queue_good_cases) (force simp: stream_readings chan_stream chan_none)+
  have none: "undelivered l es = []"
    using st(3) by (auto simp: undelivered_def filter_empty_conv not_less)
  show ?thesis
  proof (cases "gs g")
    case None
    let ?st = "put_key q (VStream (Stream l es (gs(g \<mapsto> (l, []))))) st"
    have e: "sem_xgroup_create q g st = (Inr (), ?st)" using None st by (simp add: sem_xgroup_create_def)
    have "stream_ok (Stream l es (gs(g \<mapsto> (l, []))))" using st(3) by (auto split: if_splits)
    then show ?thesis unfolding e using None st none
      by (simp add: good_stream only_queue_kv chan_stream [where gs = "gs(g \<mapsto> (l, []))"])
  next
    case (Some x)
    then have e: "sem_xgroup_create q g st = (Inl busygroup, st)" using st by (simp add: sem_xgroup_create_def)
    show ?thesis unfolding e using Some good st by (simp add: only_queue_def split: prod.splits)
  qed
qed

lemma read_queue:
  assumes good: "queue_good st q" and e: "sem_xreadgroup q g st = (r, st')"
  shows "queue_good st' q \<and> only_queue queue_good queue_chan q st st' \<and>
    (case queue_chan st q g of
       None \<Rightarrow> r = Inl nogroup \<and> st' = st
     | Some [] \<Rightarrow> r = Inl RNil \<and> st' = st
     | Some (m # p) \<Rightarrow> (\<exists>i. r = Inr (i, m)) \<and> queue_chan st' q g = Some p)"
  using good
proof (cases rule: queue_good_cases)
  case 1
  with e good show ?thesis
    by (auto simp: sem_xreadgroup_def stream_readings chan_none only_queue_def)
next
  case (2 l es gs)
  note rd = stream_readings(2) [OF 2(1)]
  show ?thesis
  proof (cases "gs g")
    case None
    with 2 e good rd show ?thesis by (auto simp: sem_xreadgroup_def chan_stream only_queue_def)
  next
    case (Some dp)
    obtain d P where dp: "dp = (d, P)" by (cases dp)
    show ?thesis
    proof (cases "filter (\<lambda>(i, _). d < i) es")
      case Nil
      with 2 e good rd Some dp show ?thesis
        by (auto simp: sem_xreadgroup_def chan_stream only_queue_def undelivered_def)
    next
      case (Cons im rest)
      obtain i m where im: "im = (i, m)" by (cases im)
      let ?gs = "gs(g \<mapsto> (i, P @ [i]))"
      have st': "r = Inr (i, m)" "st' = put_key q (VStream (Stream l es ?gs)) st"
        using e rd Some dp Cons im by (simp_all add: sem_xreadgroup_def)
      have "im \<in> set (filter (\<lambda>(i, _). d < i) es)" by (simp add: Cons)
      then have "im \<in> set es" "d < i" using im by auto
      then have "i \<le> l" using 2(2) im by force
      then have ok: "stream_ok (Stream l es ?gs)" using 2(2) by auto
      have "sorted_wrt (<) (map fst (filter (\<lambda>(i, _). d < i) es))"
        using 2(2) by (auto simp: sorted_wrt_map intro: sorted_wrt_filter)
      then have "\<forall>x\<in>set rest. i < fst x" using Cons im by simp
      then have "filter (\<lambda>(j, _). i < j) (filter (\<lambda>(i, _). d < i) es) = rest"
        using Cons im by (auto simp: filter_id_conv)
      moreover have "filter (\<lambda>(j, _). i < j) (filter (\<lambda>(i, _). d < i) es) = filter (\<lambda>(j, _). i < j) es"
        using \<open>d < i\<close> by (auto simp: intro!: filter_cong)
      ultimately have "undelivered i es = map snd rest" by (simp add: undelivered_def)
      then show ?thesis
        using 2(1) Some dp Cons im st' ok
        by (auto simp: good_stream only_queue_kv chan_stream undelivered_def)
    qed
  qed
qed

lemma ack_queue:
  assumes good: "queue_good st q" and e: "sem_xack q g i st = (r, st')"
  shows "is_ok r \<and> queue_good st' q \<and> only_queue queue_good queue_chan q st st' \<and> queue_chan st' q = queue_chan st q"
  using good
proof (cases rule: queue_good_cases)
  case 1
  with e good show ?thesis by (auto simp: sem_xack_def stream_readings only_queue_def)
next
  case (2 l es gs)
  show ?thesis
  proof (cases "gs g")
    case None
    with e good stream_readings(2) [OF 2(1)] show ?thesis by (auto simp: sem_xack_def only_queue_def)
  next
    case (Some dp)
    obtain d P where dp: "dp = (d, P)" by (cases dp)
    let ?gs = "gs(g \<mapsto> (d, filter (\<lambda>p. p \<noteq> i) P))"
    have st': "is_ok r" "st' = put_key q (VStream (Stream l es ?gs)) st"
      using e stream_readings(2) [OF 2(1)] Some dp by (auto simp: sem_xack_def)
    then have "stream_ok (Stream l es ?gs)" using 2(2) Some dp by auto
    moreover have "queue_chan st' q = queue_chan st q"
      using st' Some dp by (auto simp: fun_eq_iff chan_stream [OF 2(1)])
    ultimately show ?thesis using st' by (simp add: good_stream only_queue_kv)
  qed
qed

lemma del_queue:
  assumes good: "queue_good st q" and e: "sem_xdel q i st = (r, st')"
  shows "is_ok r \<and> queue_good st' q \<and> only_queue queue_good queue_chan q st st' \<and>
    (\<forall>g. rel_option subseq (queue_chan st' q g) (queue_chan st q g))"
  using good
proof (cases rule: queue_good_cases)
  case 1
  with e good show ?thesis by (auto simp: sem_xdel_def stream_readings only_queue_def chan_none)
next
  case (2 l es gs)
  let ?es = "filter (\<lambda>(j, _). j \<noteq> i) es"
  have st': "is_ok r" "st' = put_key q (VStream (Stream l ?es gs)) st"
    using e stream_readings(2) [OF 2(1)] by (auto simp: sem_xdel_def)
  have "stream_ok (Stream l ?es gs)"
    using 2(2) by (auto simp: sorted_wrt_map intro: sorted_wrt_filter)
  moreover have "rel_option subseq (queue_chan st' q g) (queue_chan st q g)" for g
    using st' 2(1) by (cases "gs g") (auto simp: chan_stream undelivered_filter_subseq)
  ultimately show ?thesis using st' by (simp add: good_stream only_queue_kv)
qed

lemma trim_queue:
  assumes good: "queue_good st q" and e: "sem_xtrim0 q st = (r, st')"
  shows "is_ok r \<and> queue_good st' q \<and> only_queue queue_good queue_chan q st st' \<and>
    (\<forall>g. queue_chan st' q g = map_option (\<lambda>_. []) (queue_chan st q g))"
  using good
proof (cases rule: queue_good_cases)
  case 1
  with e good show ?thesis by (auto simp: sem_xtrim0_def stream_readings only_queue_def chan_none)
next
  case (2 l es gs)
  have st': "is_ok r" "st' = put_key q (VStream (Stream l [] gs)) st"
    using e stream_readings(2) [OF 2(1)] by (auto simp: sem_xtrim0_def)
  then have "queue_chan st' q g = map_option (\<lambda>_. []) (queue_chan st q g)" for g
    using 2(1) by (cases "gs g") (auto simp: chan_stream undelivered_def)
  moreover have "stream_ok (Stream l [] gs)" using 2(2) by auto
  ultimately show ?thesis using st' by (simp add: good_stream only_queue_kv)
qed

section \<open>The contract holds\<close>

lemma error_text_contains [simp]:
  "str_contains (err_text busygroup) ''BUSYGROUP''"
  "str_contains ''NOGROUP No such key or consumer group'' ''NOGROUP''"
  by (simp_all add: busygroup_def str_contains_def has_prefix_def)

context redis_up begin

lemma rpair: "f s = (r, s') \<longleftrightarrow> r = fst (f s) \<and> s' = snd (f s)"
  by auto

lemma Publish_queue:
  assumes "queue_good (view s) q" "Publish R n q m s = (r, s')"
  shows "is_ok r \<and> queue_good (view s') q \<and> only_queue queue_good queue_chan q (view s) (view s') \<and>
    (\<forall>g. case queue_chan (view s) q g of None \<Rightarrow> queue_chan (view s') q g = None
       | Some p \<Rightarrow> \<exists>k. (k = 0 \<or> nat n \<le> length p + 1 - k) \<and> queue_chan (view s') q g = Some (drop k (p @ [m])))"
proof -
  obtain r0 s0 where e: "rd_xadd R q n m s = (r0, s0)" by (cases "rd_xadd R q n m s")
  then have "sem_xadd q n m (view s) r0 (view s0)" using xadd_spec [of q n m s] by simp
  note X = xadd_queue [OF assms(1) this]
  then obtain i where "r0 = Inr i" by (cases r0) auto
  with assms(2) e have "is_ok r" and s': "s' = s0" by (auto simp: Publish_def)
  with X show ?thesis unfolding s' by blast
qed

lemma EnsureGroup_queue:
  assumes "queue_good (view s) q" "EnsureGroup R q g s = (r, s')"
  shows "r = Inr () \<and> queue_good (view s') q \<and> only_queue queue_good queue_chan q (view s) (view s') \<and>
    queue_chan (view s') q g = Some (case queue_chan (view s) q g of None \<Rightarrow> [] | Some p \<Rightarrow> p)"
proof -
  obtain r0 s0 where e: "rd_xgroup_create R q g s = (r0, s0)" by (cases "rd_xgroup_create R q g s")
  then have r0: "r0 = fst (sem_xgroup_create q g (view s))" "view s0 = snd (sem_xgroup_create q g (view s))"
    using reply(22) [of q g s] next_view(22) [of q g s] by simp_all
  note E = ensure_queue [OF assms(1), of g, folded r0]
  from E consider "r0 = Inr ()" | "r0 = Inl busygroup" by auto
  then show ?thesis
    using E assms(2) e by cases (auto simp: EnsureGroup_def simp del: err_text.simps)
qed

lemma Consume_queue:
  assumes good: "queue_good (view s) q" and c: "Consume R q g s = (r, s')"
  shows "queue_good (view s') q \<and> only_queue queue_good queue_chan q (view s) (view s') \<and>
    (case queue_chan (view s) q g of
       Some (m # p) \<Rightarrow> (\<exists>i. r = Inr (Some (i, m))) \<and> queue_chan (view s') q g = Some p
     | _ \<Rightarrow> r = Inr None \<and> queue_chan (view s') q g = Some [])"
proof -
  obtain r0 s0 where e: "rd_xreadgroup R q g s = (r0, s0)" by (cases "rd_xreadgroup R q g s")
  then have "sem_xreadgroup q g (view s) = (r0, view s0)"
    using reply(18) [of q g s] next_view(18) [of q g s] by (simp add: prod_eq_iff)
  note Q = read_queue [OF good this]
  show ?thesis
  proof (cases "queue_chan (view s) q g")
    case None
    then have r0: "r0 = Inl nogroup" "view s0 = view s" using Q by simp_all
    obtain r1 s1 where eg: "EnsureGroup R q g s0 = (r1, s1)" by (cases "EnsureGroup R q g s0")
    have "r = Inr None" "s' = s1" using c e r0 eg by (auto simp: Consume_def nogroup_def)
    with EnsureGroup_queue [OF _ eg] r0 None good show ?thesis by simp
  next
    case (Some p)
    show ?thesis
    proof (cases p)
      case Nil
      with Some Q c e good show ?thesis by (auto simp: Consume_def)
    next
      case (Cons m p')
      with Some Q c e show ?thesis by (auto simp: Consume_def)
    qed
  qed
qed

lemma Ack_queue:
  assumes "queue_good (view s) q" "Ack R q g i s = (r, s')"
  shows "r = Inr () \<and> queue_good (view s') q \<and> only_queue queue_good queue_chan q (view s) (view s') \<and>
    queue_chan (view s') q = queue_chan (view s) q"
proof -
  obtain r0 s0 where e: "rd_xack R q g i s = (r0, s0)" by (cases "rd_xack R q g i s")
  then have "sem_xack q g i (view s) = (r0, view s0)"
    using reply(19) [of q g i s] next_view(19) [of q g i s] by (simp add: prod_eq_iff)
  from ack_queue [OF assms(1) this] assms(2) e show ?thesis
    by (auto simp: Ack_def split: sum.splits)
qed

lemma DeleteMessage_queue:
  assumes "queue_good (view s) q" "DeleteMessage R q i s = (r, s')"
  shows "r = Inr () \<and> queue_good (view s') q \<and> only_queue queue_good queue_chan q (view s) (view s') \<and>
    (\<forall>g. rel_option subseq (queue_chan (view s') q g) (queue_chan (view s) q g))"
proof -
  obtain r0 s0 where e: "rd_xdel R q i s = (r0, s0)" by (cases "rd_xdel R q i s")
  then have "sem_xdel q i (view s) = (r0, view s0)"
    using reply(20) [of q i s] next_view(20) [of q i s] by (simp add: prod_eq_iff)
  from del_queue [OF assms(1) this] assms(2) e show ?thesis
    by (auto simp: DeleteMessage_def split: sum.splits)
qed

lemma Purge_queue:
  assumes "queue_good (view s) q" "Purge R q s = (r, s')"
  shows "r = Inr () \<and> queue_good (view s') q \<and> only_queue queue_good queue_chan q (view s) (view s') \<and>
    (\<forall>g. queue_chan (view s') q g = map_option (\<lambda>_. []) (queue_chan (view s) q g))"
proof -
  obtain r0 s0 where e: "rd_xtrim0 R q s = (r0, s0)" by (cases "rd_xtrim0 R q s")
  then have "sem_xtrim0 q (view s) = (r0, view s0)"
    using reply(21) [of q s] next_view(21) [of q s] by (simp add: prod_eq_iff)
  from trim_queue [OF assms(1) this] assms(2) e show ?thesis
    by (auto simp: Purge_def split: sum.splits)
qed

lemma DeleteQueue_effect:
  "fst (DeleteQueue R q s) = Inr ()" "view (snd (DeleteQueue R q s)) = drop_key q (view s)"
proof -
  have "fst (rd_del R [q] s) = fst (sem_del [q] (view s))" "view (snd (rd_del R [q] s)) = snd (sem_del [q] (view s))"
    by simp_all
  then show "fst (DeleteQueue R q s) = Inr ()" "view (snd (DeleteQueue R q s)) = drop_key q (view s)"
    by (cases "rd_del R [q] s"; simp add: DeleteQueue_def sem_del_def split: sum.splits)+
qed

lemma DeleteQueue_queue:
  assumes "DeleteQueue R q s = (r, s')"
  shows "r = Inr () \<and> queue_good (view s') q \<and> only_queue queue_good queue_chan q (view s) (view s') \<and>
    queue_chan (view s') q g = None"
  using DeleteQueue_effect [of q s] assms
  by (auto simp: queue_good_def chan_none intro!: only_queue_kv)

lemma stream_queue_contract:
  "message_queue (NewRedisStreamQueue R n) (\<lambda>s. queue_good (view s)) (\<lambda>s. queue_chan (view s)) (nat n)"
proof -
  have only: "only_queue (\<lambda>s. queue_good (view s)) (\<lambda>s. queue_chan (view s)) q s s' =
      only_queue queue_good queue_chan q (view s) (view s')" for q s s'
    by (simp add: only_queue_def)
  show ?thesis
    by (unfold_locales; unfold mq_fields only)
      (rule Publish_queue Consume_queue Ack_queue DeleteMessage_queue DeleteQueue_queue Purge_queue
         EnsureGroup_queue; assumption)+
qed

end

sublocale redis_up \<subseteq> stream_queue:
  message_queue "NewRedisStreamQueue R n" "\<lambda>s. queue_good (view s)" "\<lambda>s. queue_chan (view s)" "nat n" for n
  by (rule stream_queue_contract)

interpretation mem_queue:
  message_queue "NewRedisStreamQueue mem_redis n" "\<lambda>s. queue_good s" "\<lambda>s. queue_chan s" "nat n" for n
  by (rule mem.stream_queue_contract)

text \<open>A queue operation writes no other key.\<close>

lemma sem_stream_frame:
  assumes "k \<noteq> q"
  shows "sem_xadd q n m st r st' \<Longrightarrow> kv st' k = kv st k"
    and "kv (snd (sem_xreadgroup q g st)) k = kv st k"
    and "kv (snd (sem_xack q g i st)) k = kv st k"
    and "kv (snd (sem_xtrim0 q st)) k = kv st k"
    and "kv (snd (sem_xgroup_create q g st)) k = kv st k"
  using assms
  by (auto simp: sem_xadd_def sem_xreadgroup_def sem_xack_def sem_xtrim0_def sem_xgroup_create_def
      split: stream.splits option.splits list.splits if_splits)

lemma queue_frame:
  "kv st' q = kv st q \<Longrightarrow> queue_good st' q = queue_good st q \<and> queue_chan st' q = queue_chan st q"
  by (simp add: queue_good_def queue_chan_def stream_at_def fun_eq_iff)

context redis_up begin

lemma Publish_frame: "k \<noteq> q \<Longrightarrow> kv (view (snd (Publish R n q m s))) k = kv (view s) k"
  using sem_stream_frame(1) [OF _ xadd_spec [of q n m s]]
  by (auto simp: Publish_def split: prod.splits sum.splits)

lemma EnsureGroup_frame: "k \<noteq> q \<Longrightarrow> kv (view (snd (EnsureGroup R q g s))) k = kv (view s) k"
  by (auto simp: EnsureGroup_def case_prod_beta sem_stream_frame split: sum.splits)

lemma Consume_frame: "k \<noteq> q \<Longrightarrow> kv (view (snd (Consume R q g s))) k = kv (view s) k"
  by (auto simp: Consume_def EnsureGroup_frame case_prod_beta sem_stream_frame
      split: sum.splits rerr.splits)

lemma Ack_frame: "k \<noteq> q \<Longrightarrow> kv (view (snd (Ack R q g i s))) k = kv (view s) k"
  by (auto simp: Ack_def case_prod_beta sem_stream_frame split: sum.splits)

lemma Purge_frame: "k \<noteq> q \<Longrightarrow> kv (view (snd (Purge R q s))) k = kv (view s) k"
  by (auto simp: Purge_def case_prod_beta sem_stream_frame split: sum.splits)

end

end
