(* ===== verification/Ring.thy ===== *)
theory Ring
  imports Prelude
begin

text \<open>
  The reconcile ring of \<open>internal/service/bridge_reconcile.go\<close>: the slice of tracked tokens, the
  map from a token to its position, and the cursor from which the next batch is taken. The locale
  \<open>token_ring\<close> is what the bridge relies on.
\<close>

record ring =
  r_toks :: "string list"
  r_pos :: "string \<rightharpoonup> nat"
  r_cur :: nat

definition empty_ring :: ring where
  "empty_ring = \<lparr>r_toks = [], r_pos = Map.empty, r_cur = 0\<rparr>"

section \<open>Operations\<close>

definition trackReconcileToken :: "string \<Rightarrow> ring \<Rightarrow> ring" where
  "trackReconcileToken token r =
     (case r_pos r token of
        Some _ \<Rightarrow> r
      | None \<Rightarrow> r\<lparr>r_pos := (r_pos r)(token \<mapsto> length (r_toks r)), r_toks := r_toks r @ [token]\<rparr>)"

definition untrackReconcileToken :: "string \<Rightarrow> ring \<Rightarrow> ring" where
  "untrackReconcileToken token r =
     (case r_pos r token of
        None \<Rightarrow> r
      | Some idx \<Rightarrow>
          let lastIdx = length (r_toks r) - 1;
              lastToken = r_toks r ! lastIdx;
              toks = take lastIdx ((r_toks r)[idx := lastToken]);
              pos = ((r_pos r)(lastToken \<mapsto> idx))(token := None);
              cur = (if toks = [] then 0
                     else let c = (if r_cur r > idx \<and> r_cur r > 0 then r_cur r - 1 else r_cur r)
                          in if c \<ge> length toks then 0 else c)
          in \<lparr>r_toks = toks, r_pos = pos, r_cur = cur\<rparr>)"

text \<open>The loop of \<open>nextReconcileBatch\<close>; the slice does not change while it runs.\<close>

fun batch_loop :: "nat \<Rightarrow> string list \<Rightarrow> nat \<Rightarrow> string list \<Rightarrow> string list \<times> nat" where
  "batch_loop 0 toks cur out = (out, cur)"
| "batch_loop (Suc i) toks cur out =
     (if toks = [] then (out, cur)
      else let c = (if cur \<ge> length toks then 0 else cur)
           in batch_loop i toks (c + 1) (out @ [toks ! c]))"

definition nextReconcileBatch :: "int \<Rightarrow> ring \<Rightarrow> string list \<times> ring" where
  "nextReconcileBatch batchSize r =
     (if batchSize \<le> 0 \<or> r_toks r = [] then ([], r)
      else let limit = min (nat batchSize) (length (r_toks r))
           in case batch_loop limit (r_toks r) (r_cur r) [] of (out, cur) \<Rightarrow> (out, r\<lparr>r_cur := cur\<rparr>))"

section \<open>Invariant\<close>

text \<open>The map holds exactly the position of every token of the slice, and the cursor is at most
  one past the end.\<close>

definition ring_inv :: "ring \<Rightarrow> bool" where
  "ring_inv r \<longleftrightarrow>
     (\<forall>t i. r_pos r t = Some i \<longleftrightarrow> i < length (r_toks r) \<and> r_toks r ! i = t) \<and> r_cur r \<le> length (r_toks r)"

lemma ring_inv_distinct: "ring_inv r \<Longrightarrow> distinct (r_toks r)"
  unfolding ring_inv_def distinct_conv_nth by (metis option.inject)

lemma ring_inv_dom: "ring_inv r \<Longrightarrow> dom (r_pos r) = set (r_toks r)"
  by (force simp: ring_inv_def in_set_conv_nth)

lemma empty_ring_inv: "ring_inv empty_ring"
  by (simp add: ring_inv_def empty_ring_def)

lemma track_inv:
  assumes "ring_inv r"
  shows "ring_inv (trackReconcileToken t r)"
proof (cases "r_pos r t")
  case None
  then have "t \<notin> set (r_toks r)" using ring_inv_dom [OF assms] by auto
  with assms None show ?thesis
    by (auto simp: trackReconcileToken_def ring_inv_def nth_append split: if_splits)
qed (simp add: trackReconcileToken_def assms)

lemma track_set: "ring_inv r \<Longrightarrow> set (r_toks (trackReconcileToken t r)) = insert t (set (r_toks r))"
  using ring_inv_dom [of r] by (auto simp: trackReconcileToken_def split: option.splits)

lemma untrack_toks:
  assumes "ring_inv r" "r_pos r t = Some i"
  shows "r_toks (untrackReconcileToken t r) = take (length (r_toks r) - 1) ((r_toks r)[i := last (r_toks r)])"
proof -
  have "r_toks r \<noteq> []" using assms by (force simp: ring_inv_def)
  with assms(2) show ?thesis by (simp add: untrackReconcileToken_def Let_def last_conv_nth)
qed

lemma untrack_set:
  assumes "ring_inv r"
  shows "set (r_toks (untrackReconcileToken t r)) = set (r_toks r) - {t}"
proof (cases "r_pos r t")
  case None
  then show ?thesis using ring_inv_dom [OF assms] by (auto simp: untrackReconcileToken_def)
next
  case (Some i)
  then have i: "i < length (r_toks r)" "r_toks r ! i = t" using assms by (auto simp: ring_inv_def)
  then obtain xs x where r: "r_toks r = xs @ [x]" by (cases "r_toks r" rule: rev_cases) auto
  have d: "distinct (xs @ [x])" using ring_inv_distinct [OF assms] r by simp
  have "r_toks (untrackReconcileToken t r) = take (length xs) ((xs @ [x])[i := x])"
    using untrack_toks [OF assms Some] r by simp
  also have "\<dots> = xs[i := x]" using i r by (simp add: list_update_append list_update_beyond)
  finally have u: "r_toks (untrackReconcileToken t r) = xs[i := x]" .
  show ?thesis
  proof (cases "i < length xs")
    case True
    then have "t = xs ! i" using i r by (simp add: nth_append)
    with u r d True show ?thesis by (auto simp: set_update_distinct)
  next
    case False
    then have "t = x" using i r by (simp add: nth_append)
    with u r d False show ?thesis by (simp add: list_update_beyond)
  qed
qed

lemma untrack_inv:
  assumes inv: "ring_inv r"
  shows "ring_inv (untrackReconcileToken t r)"
proof (cases "r_pos r t")
  case None
  with inv show ?thesis by (simp add: untrackReconcileToken_def)
next
  case (Some i)
  let ?n = "length (r_toks r) - 1" and ?last = "last (r_toks r)"
  have i: "i < length (r_toks r)" "r_toks r ! i = t" using Some inv by (auto simp: ring_inv_def)
  have ne: "r_toks r \<noteq> []" using i by auto
  have pos: "\<And>u j. r_pos r u = Some j \<longleftrightarrow> j < length (r_toks r) \<and> r_toks r ! j = u"
    using inv by (simp add: ring_inv_def)
  let ?r = "untrackReconcileToken t r"
  have toks: "r_toks ?r = take ?n ((r_toks r)[i := ?last])" by (rule untrack_toks [OF inv Some])
  have rpos: "r_pos ?r = ((r_pos r)(?last \<mapsto> i))(t := None)"
    using Some ne by (simp add: untrackReconcileToken_def Let_def last_conv_nth)
  have len: "length (r_toks ?r) = ?n" using toks i by simp
  have nth: "j < ?n \<Longrightarrow> r_toks ?r ! j = (if j = i then ?last else r_toks r ! j)" for j
    using toks i by (auto simp: nth_list_update)
  have lst: "r_toks r ! ?n = ?last" using ne by (simp add: last_conv_nth)
  have inj: "j = k" if "j < length (r_toks r)" "k < length (r_toks r)" "r_toks r ! j = r_toks r ! k" for j k
    using that pos by (metis option.inject)
  have i_last: "?last = t \<longleftrightarrow> i = ?n" using inj [of i ?n] i lst ne by auto
  have "r_pos ?r u = Some j \<longleftrightarrow> j < ?n \<and> r_toks ?r ! j = u" for u j
  proof (cases "u = t")
    case True
    have "r_toks ?r ! j \<noteq> t" if "j < ?n"
    proof (cases "j = i")
      case True
      with that i_last nth [OF that] show ?thesis by simp
    next
      case False
      have "j < length (r_toks r)" using that by linarith
      with False inj [of j i] i have "r_toks r ! j \<noteq> t" by metis
      with False nth [OF that] show ?thesis by simp
    qed
    with True rpos show ?thesis by auto
  next
    case False
    show ?thesis
    proof (cases "u = ?last")
      case True
      with False have "?last \<noteq> t" by simp
      then have "i < ?n" using i i_last by linarith
      moreover have "r_toks ?r ! j \<noteq> ?last" if "j < ?n" "j \<noteq> i"
      proof -
        have "?n < length (r_toks r)" "j < length (r_toks r)" using ne that by auto
        then have "r_toks r ! j \<noteq> r_toks r ! ?n" using inj [of j ?n] that by auto
        with that nth [of j] lst show ?thesis by simp
      qed
      ultimately show ?thesis using True False rpos nth [of i] by auto
    next
      case F2: False
      have j_cases: "j < length (r_toks r) \<longleftrightarrow> j < ?n \<or> j = ?n" for j
        using ne by (cases "r_toks r") auto
      have "r_pos ?r u = Some j \<longleftrightarrow> j < length (r_toks r) \<and> r_toks r ! j = u"
        using False F2 by (simp add: rpos) (rule pos)
      also have "\<dots> \<longleftrightarrow> j < ?n \<and> r_toks r ! j = u"
        using F2 lst j_cases [of j] by auto
      also have "\<dots> \<longleftrightarrow> j < ?n \<and> r_toks ?r ! j = u"
        using nth [of j] F2 False i by auto
      finally show ?thesis .
    qed
  qed
  moreover have "r_cur ?r \<le> ?n"
  proof -
    have "r_cur ?r = 0 \<or> r_cur ?r < length (r_toks ?r)"
      using Some by (auto simp: untrackReconcileToken_def Let_def)
    with len show ?thesis by auto
  qed
  ultimately show ?thesis using len by (simp add: ring_inv_def)
qed

section \<open>Batches\<close>

text \<open>Where the cursor stands after \<open>k\<close> steps: it runs round the ring.\<close>

lemma batch_loop_ring:
  assumes "toks \<noteq> []" "cur \<le> length toks"
  shows "fst (batch_loop k toks cur out) = out @ map (\<lambda>j. toks ! ((cur + j) mod length toks)) [0..<k] \<and>
    snd (batch_loop k toks cur out) \<le> length toks \<and>
    snd (batch_loop k toks cur out) mod length toks = (cur + k) mod length toks"
  using assms(2)
proof (induction k arbitrary: cur out)
  case (Suc k)
  let ?n = "length toks" and ?c = "if cur \<ge> length toks then 0 else cur"
  have c: "?c < ?n" "?c = cur mod ?n" using Suc.prems assms(1) by (auto simp: le_less)
  have "map (\<lambda>j. toks ! ((?c + 1 + j) mod ?n)) [0..<k] = map (\<lambda>j. toks ! ((cur + Suc j) mod ?n)) [0..<k]"
    using mod_add_left_eq [of cur ?n "Suc j" for j] c(2) by simp
  moreover have "map (\<lambda>j. toks ! ((cur + j) mod ?n)) [0..<Suc k] =
      toks ! ?c # map (\<lambda>j. toks ! ((cur + Suc j) mod ?n)) [0..<k]"
    using c(2) by (simp add: upt_rec [of 0] map_Suc_upt [symmetric] del: upt_Suc)
  moreover have "(?c + 1 + k) mod ?n = (cur + Suc k) mod ?n"
    using mod_add_left_eq [of cur ?n "Suc k"] c(2) by simp
  ultimately show ?case
    using Suc.IH [of "?c + 1" "out @ [toks ! ?c]"] c assms(1) by (simp add: Let_def del: upt_Suc)
qed simp

lemma nextReconcileBatch_spec:
  assumes "ring_inv r"
  shows "fst (nextReconcileBatch n r) =
      map (\<lambda>j. r_toks r ! ((r_cur r + j) mod length (r_toks r))) [0..<min (nat n) (length (r_toks r))]"
    and "r_toks (snd (nextReconcileBatch n r)) = r_toks r"
    and "r_pos (snd (nextReconcileBatch n r)) = r_pos r"
    and "ring_inv (snd (nextReconcileBatch n r))"
    and "r_toks r \<noteq> [] \<Longrightarrow> r_cur (snd (nextReconcileBatch n r)) mod length (r_toks r) =
      (r_cur r + min (nat n) (length (r_toks r))) mod length (r_toks r)"
  using assms batch_loop_ring [of "r_toks r" "r_cur r" "min (nat n) (length (r_toks r))" "[]"]
  by (auto simp: nextReconcileBatch_def ring_inv_def Let_def case_prod_beta simp del: upt_Suc)

lemma batch_distinct:
  assumes "ring_inv r"
  shows "distinct (fst (nextReconcileBatch n r))"
proof -
  let ?m = "length (r_toks r)"
  have "inj_on (\<lambda>j. (r_cur r + j) mod ?m) {0..<min (nat n) ?m}"
  proof (rule inj_onI)
    have wlog: "a = b" if "a \<le> b" "b < ?m" "(r_cur r + a) mod ?m = (r_cur r + b) mod ?m" for a b
    proof -
      have "?m dvd b - a" using that mod_eq_dvd_iff_nat [of "r_cur r + a" "r_cur r + b" ?m] by simp
      with that show ?thesis by (metis diff_is_0_eq le_antisym less_imp_diff_less nat_dvd_not_less not_gr_zero)
    qed
    fix a b assume ab: "a \<in> {0..<min (nat n) ?m}" "b \<in> {0..<min (nat n) ?m}"
      and e: "(r_cur r + a) mod ?m = (r_cur r + b) mod ?m"
    then show "a = b" using wlog [of a b] wlog [of b a] by (cases "a \<le> b") auto
  qed
  then have "inj_on (\<lambda>j. r_toks r ! ((r_cur r + j) mod ?m)) {0..<min (nat n) ?m}"
    using ring_inv_distinct [OF assms] by (cases "?m = 0") (auto simp: inj_on_def nth_eq_iff_index_eq)
  then show ?thesis by (simp add: nextReconcileBatch_spec(1) [OF assms] distinct_map)
qed

text \<open>Successive batches with no change of the ring between them.\<close>

fun batches :: "int \<Rightarrow> nat \<Rightarrow> ring \<Rightarrow> string list" where
  "batches n 0 r = []"
| "batches n (Suc k) r = (case nextReconcileBatch n r of (out, r') \<Rightarrow> out @ batches n k r')"

lemma batches_ring:
  "ring_inv r \<Longrightarrow> batches n k r =
     map (\<lambda>j. r_toks r ! ((r_cur r + j) mod length (r_toks r))) [0..<k * min (nat n) (length (r_toks r))]"
proof (induction k arbitrary: r)
  case (Suc k)
  let ?r = "snd (nextReconcileBatch n r)" and ?m = "length (r_toks r)" and ?l = "min (nat n) (length (r_toks r))"
  note S = nextReconcileBatch_spec [OF Suc.prems, of n]
  show ?case
  proof (cases "r_toks r = []")
    case True
    then have "nextReconcileBatch n r = ([], r)" by (simp add: nextReconcileBatch_def)
    with Suc.IH [OF Suc.prems] True show ?thesis by simp
  next
    case False
    have "(r_cur ?r + j) mod ?m = (r_cur r + (?l + j)) mod ?m" for j
      by (metis S(5) [OF False] add.assoc mod_add_left_eq)
    then have "batches n k ?r = map (\<lambda>j. r_toks r ! ((r_cur r + (?l + j)) mod ?m)) [0..<k * ?l]"
      using Suc.IH [OF S(4)] S(2) by simp
    moreover have "map (\<lambda>j. f (l + j)) [0..<q] = map f [l..<l + q]" for f :: "nat \<Rightarrow> string" and l q
      by (rule nth_equalityI) auto
    ultimately have "batches n k ?r = map (\<lambda>j. r_toks r ! ((r_cur r + j) mod ?m)) [?l..<?l + k * ?l]"
      by simp
    then show ?thesis using S(1) upt_add_eq_append [of 0 ?l "k * ?l"]
      by (simp add: case_prod_beta del: upt_Suc)
  qed
qed simp

lemma batches_cover:
  assumes inv: "ring_inv r" and enough: "length (r_toks r) \<le> k * nat n"
  shows "set (batches n k r) = set (r_toks r)"
proof (cases "r_toks r = []")
  case True
  then show ?thesis by (simp add: batches_ring [OF inv])
next
  case False
  let ?m = "length (r_toks r)" and ?l = "min (nat n) (length (r_toks r))"
  have m: "0 < ?m" using False by simp
  have "?m \<le> k * ?l"
  proof (cases "nat n \<le> ?m")
    case True then show ?thesis using enough by (simp add: min_absorb1)
  next
    case False
    have "k \<noteq> 0" using enough m by (intro notI) simp
    with False show ?thesis by (simp add: min_absorb2)
  qed
  moreover have "\<exists>j<?m. (r_cur r + j) mod ?m = i" if "i < ?m" for i
  proof -
    let ?j = "(i + (?m - r_cur r mod ?m)) mod ?m"
    have "(r_cur r + ?j) mod ?m = (r_cur r mod ?m + (i + (?m - r_cur r mod ?m))) mod ?m"
      by (simp add: mod_simps)
    also have "r_cur r mod ?m + (i + (?m - r_cur r mod ?m)) = i + ?m"
      using mod_less_divisor [OF m, of "r_cur r"] by linarith
    also have "\<dots> mod ?m = i mod ?m" by simp
    also have "\<dots> = i" using that by simp
    finally show ?thesis using m by (intro exI [of _ ?j]) simp
  qed
  ultimately have "set (r_toks r) \<subseteq> set (batches n k r)"
    unfolding batches_ring [OF inv] by (force simp: in_set_conv_nth image_iff simp del: upt_Suc)
  moreover have "set (batches n k r) \<subseteq> set (r_toks r)"
    using m by (auto simp: batches_ring [OF inv])
  ultimately show ?thesis by blast
qed

section \<open>The interface the bridge uses\<close>

locale token_ring =
  fixes track untrack :: "string \<Rightarrow> 'r \<Rightarrow> 'r"
    and batch :: "int \<Rightarrow> 'r \<Rightarrow> string list \<times> 'r"
    and tokens :: "'r \<Rightarrow> string set"
    and inv :: "'r \<Rightarrow> bool"
  assumes track: "inv r \<Longrightarrow> inv (track t r) \<and> tokens (track t r) = insert t (tokens r)"
    and untrack: "inv r \<Longrightarrow> inv (untrack t r) \<and> tokens (untrack t r) = tokens r - {t}"
    and batch: "inv r \<Longrightarrow> batch n r = (out, r') \<Longrightarrow>
      inv r' \<and> tokens r' = tokens r \<and> set out \<subseteq> tokens r \<and> distinct out"
begin

text \<open>Dropping a list of tokens, as a reconcile round that evicts them does.\<close>

lemma untrack_all:
  "inv r \<Longrightarrow> inv (fold untrack ts r) \<and> tokens (fold untrack ts r) = tokens r - set ts"
  by (induction ts arbitrary: r) (auto simp: untrack)

lemma retrack: "inv r \<Longrightarrow> t \<in> tokens r \<Longrightarrow> tokens (track t (untrack t r)) = tokens r"
  by (auto simp: track untrack)

end

interpretation rq: token_ring trackReconcileToken untrackReconcileToken nextReconcileBatch
    "\<lambda>r. set (r_toks r)" ring_inv
proof
  fix r t assume r: "ring_inv r"
  show "ring_inv (trackReconcileToken t r) \<and> set (r_toks (trackReconcileToken t r)) = insert t (set (r_toks r))"
    using r by (simp add: track_inv track_set)
  show "ring_inv (untrackReconcileToken t r) \<and> set (r_toks (untrackReconcileToken t r)) = set (r_toks r) - {t}"
    using r by (simp add: untrack_inv untrack_set)
next
  fix r n out r' assume r: "ring_inv r" and b: "nextReconcileBatch n r = (out, r')"
  have "set out \<subseteq> set (r_toks r)"
    using nextReconcileBatch_spec(1) [OF r, of n] b by (cases "r_toks r = []") auto
  with nextReconcileBatch_spec [OF r, of n] batch_distinct [OF r, of n] b
  show "ring_inv r' \<and> set (r_toks r') = set (r_toks r) \<and> set out \<subseteq> set (r_toks r) \<and> distinct out"
    by simp
qed

end
