(* ===== verification/Bridge.thy ===== *)
theory Bridge
  imports Errors Queue Ring "HOL-Library.AList"
begin

text \<open>
  The core of \<open>internal/service/bridge.go\<close> with \<open>bridge_owner_store.go\<close> and \<open>bridge_cleanup.go\<close>:
  which worker holds which bot. The record \<open>bridge\<close> is a worker's memory; Redis is the state \<open>'s\<close>
  behind the client \<open>R\<close>. Every operation takes both and returns both.

  A mutex-protected operation is one atomic function. A \<open>sync.Map\<close> is an association list with
  distinct keys: \<open>Range\<close> visits its entries in list order, and as every statement is about an
  arbitrary list it covers every order. A \<open>*BotConn\<close> is a number; what is written to its socket is
  recorded in \<open>b_wire\<close>, and \<open>closed.Do\<close> in \<open>b_closed\<close>. Logging is left out.
\<close>

section \<open>Keys and constants\<close>

definition BotAliveKey :: string where "BotAliveKey = ''bridge:bot_alive''"
definition BotInboxPrefix :: string where "BotInboxPrefix = ''bridge:bot_inbox:''"
definition BotOwnerPrefix :: string where "BotOwnerPrefix = ''bridge:bot_owner:''"
definition ChatInboxPrefix :: string where "ChatInboxPrefix = ''bridge:chat_inbox:''"
definition ChatInboxIdxPrefix :: string where "ChatInboxIdxPrefix = ''bridge:chat_inbox_idx:''"
definition CleanupLockKey :: string where "CleanupLockKey = ''bridge:cleanup_lock''"
definition BotGenPrefix :: string where "BotGenPrefix = ''bridge:bot_gen:''"
definition WorkerInboxPrefix :: string where "WorkerInboxPrefix = ''bridge:worker_inbox:''"
definition TraceCtxPrefix :: string where "TraceCtxPrefix = ''bridge:trace_ctx:''"

text \<open>Durations in seconds, as every use reads them.\<close>

definition BotTTL :: int where "BotTTL = 30"
definition HeartbeatInterval :: int where "HeartbeatInterval = 10"
definition CleanupInterval :: int where "CleanupInterval = 10"
definition CleanupLockTTL :: int where "CleanupLockTTL = 120"
definition ReconcileInterval :: int where "ReconcileInterval = 5"
definition WorkerInboxGroup :: string where "WorkerInboxGroup = ''worker''"
definition DefaultWorkerInboxConsumers :: int where "DefaultWorkerInboxConsumers = 4"
definition DefaultReconcileBatchSize :: int where "DefaultReconcileBatchSize = 128"
definition DefaultArtifactCleanupWorkers :: int where "DefaultArtifactCleanupWorkers = 2"

lemmas key_defs = BotAliveKey_def BotInboxPrefix_def BotOwnerPrefix_def ChatInboxPrefix_def
  ChatInboxIdxPrefix_def CleanupLockKey_def BotGenPrefix_def WorkerInboxPrefix_def TraceCtxPrefix_def

text \<open>The families do not overlap, and within a family a key determines its suffix.\<close>

lemma bridge_keys [key_simps]:
  "BotOwnerPrefix @ t \<noteq> BotAliveKey" "BotAliveKey \<noteq> BotOwnerPrefix @ t"
  "BotGenPrefix @ t \<noteq> BotAliveKey" "BotAliveKey \<noteq> BotGenPrefix @ t"
  "BotOwnerPrefix @ t \<noteq> BotGenPrefix @ u" "BotGenPrefix @ t \<noteq> BotOwnerPrefix @ u"
  "BotInboxPrefix @ t \<noteq> BotAliveKey" "BotAliveKey \<noteq> BotInboxPrefix @ t"
  "BotInboxPrefix @ t \<noteq> BotOwnerPrefix @ u" "BotOwnerPrefix @ t \<noteq> BotInboxPrefix @ u"
  "BotInboxPrefix @ t \<noteq> BotGenPrefix @ u" "BotGenPrefix @ t \<noteq> BotInboxPrefix @ u"
  "ChatInboxIdxPrefix @ t \<noteq> BotAliveKey" "BotAliveKey \<noteq> ChatInboxIdxPrefix @ t"
  "ChatInboxIdxPrefix @ t \<noteq> BotOwnerPrefix @ u" "BotOwnerPrefix @ t \<noteq> ChatInboxIdxPrefix @ u"
  "ChatInboxIdxPrefix @ t \<noteq> BotGenPrefix @ u" "BotGenPrefix @ t \<noteq> ChatInboxIdxPrefix @ u"
  "ChatInboxPrefix @ t \<noteq> BotAliveKey" "BotAliveKey \<noteq> ChatInboxPrefix @ t"
  "ChatInboxPrefix @ t \<noteq> BotOwnerPrefix @ u" "BotOwnerPrefix @ t \<noteq> ChatInboxPrefix @ u"
  "ChatInboxPrefix @ t \<noteq> BotGenPrefix @ u" "BotGenPrefix @ t \<noteq> ChatInboxPrefix @ u"
  "ChatInboxPrefix @ t \<noteq> ChatInboxIdxPrefix @ u" "ChatInboxIdxPrefix @ t \<noteq> ChatInboxPrefix @ u"
  "WorkerInboxPrefix @ t \<noteq> BotAliveKey" "BotAliveKey \<noteq> WorkerInboxPrefix @ t"
  "WorkerInboxPrefix @ t \<noteq> BotOwnerPrefix @ u" "BotOwnerPrefix @ t \<noteq> WorkerInboxPrefix @ u"
  "WorkerInboxPrefix @ t \<noteq> BotGenPrefix @ u" "BotGenPrefix @ t \<noteq> WorkerInboxPrefix @ u"
  "CleanupLockKey \<noteq> BotAliveKey" "BotAliveKey \<noteq> CleanupLockKey"
  "CleanupLockKey \<noteq> BotOwnerPrefix @ u" "BotOwnerPrefix @ t \<noteq> CleanupLockKey"
  "CleanupLockKey \<noteq> BotGenPrefix @ u" "BotGenPrefix @ t \<noteq> CleanupLockKey"
  "TraceCtxPrefix @ t \<noteq> WorkerInboxPrefix @ u" "WorkerInboxPrefix @ t \<noteq> TraceCtxPrefix @ u"
  "TraceCtxPrefix @ t \<noteq> BotOwnerPrefix @ u" "BotOwnerPrefix @ t \<noteq> TraceCtxPrefix @ u"
  "TraceCtxPrefix @ t \<noteq> BotGenPrefix @ u" "BotGenPrefix @ t \<noteq> TraceCtxPrefix @ u"
  "TraceCtxPrefix @ t \<noteq> BotAliveKey" "BotAliveKey \<noteq> TraceCtxPrefix @ u"
  "TraceCtxPrefix @ t \<noteq> ChatInboxPrefix @ u" "ChatInboxPrefix @ t \<noteq> TraceCtxPrefix @ u"
  by (simp_all add: key_defs)

section \<open>State\<close>

type_synonym conn = nat

datatype wire = WJson conn json | WText conn string | WClose conn int string

record bridge =
  b_worker :: string
  b_bots :: "(string \<times> conn) list"
  b_gens :: "(string \<times> int) list"
  b_ring :: ring
  b_down :: bool
  b_cancelled :: bool
  b_batch :: int
  b_consumers :: int
  b_cleaners :: int
  b_artifact_ch :: "string list"
  b_spawned :: "string list"
  b_closed :: "conn list"
  b_wire :: "wire list"

definition artifact_cap :: nat where "artifact_cap = 2048"

text \<open>The worker id is the first 12 characters of a fresh UUID, which is the argument.\<close>

definition NewConnectionBridge :: "string \<Rightarrow> bridge" where
  "NewConnectionBridge uuid = \<lparr>
     b_worker = take 12 uuid, b_bots = [], b_gens = [], b_ring = empty_ring, b_down = False,
     b_cancelled = False, b_batch = DefaultReconcileBatchSize,
     b_consumers = DefaultWorkerInboxConsumers, b_cleaners = DefaultArtifactCleanupWorkers,
     b_artifact_ch = [], b_spawned = [], b_closed = [], b_wire = [] \<rparr>"

definition SetWorkerInboxConsumers :: "int \<Rightarrow> bridge \<Rightarrow> bridge" where
  "SetWorkerInboxConsumers n b = (if n > 0 then b\<lparr>b_consumers := n\<rparr> else b)"

section \<open>Sockets\<close>

definition WriteJSON :: "conn \<Rightarrow> json \<Rightarrow> bridge \<Rightarrow> bridge" where
  "WriteJSON c v b = b\<lparr>b_wire := b_wire b @ [WJson c v]\<rparr>"

definition WriteMessage :: "conn \<Rightarrow> string \<Rightarrow> bridge \<Rightarrow> bridge" where
  "WriteMessage c data b = b\<lparr>b_wire := b_wire b @ [WText c data]\<rparr>"

definition Close :: "conn \<Rightarrow> int \<Rightarrow> string \<Rightarrow> bridge \<Rightarrow> bridge" where
  "Close c code reason b =
     (if c \<in> set (b_closed b) then b
      else b\<lparr>b_closed := c # b_closed b, b_wire := b_wire b @ [WClose c code reason]\<rparr>)"

section \<open>The owner store\<close>

definition SetBotOwner :: "'s redis \<Rightarrow> string \<Rightarrow> string \<Rightarrow> 's \<Rightarrow> (string + unit) \<times> 's" where
  "SetBotOwner R token workerID s =
     (case rd_set R (BotOwnerPrefix @ token) workerID 0 s of
        (Inl e, s1) \<Rightarrow> (Inl (''set bot owner: '' @ err_text e), s1)
      | (Inr _, s1) \<Rightarrow> (Inr (), s1))"

definition GetBotOwner :: "'s redis \<Rightarrow> string \<Rightarrow> 's \<Rightarrow> (string + string) \<times> 's" where
  "GetBotOwner R token s =
     (case rd_get R (BotOwnerPrefix @ token) s of
        (Inl e, s1) \<Rightarrow> (Inl (''get bot owner: '' @ err_text e), s1)
      | (Inr workerID, s1) \<Rightarrow> (Inr workerID, s1))"

record bot_route =
  br_token :: string
  br_worker :: string
  br_inbox :: string

definition ResolveBotRoute :: "'s redis \<Rightarrow> string \<Rightarrow> 's \<Rightarrow> (string + bot_route) \<times> 's" where
  "ResolveBotRoute R token s =
     (case GetBotOwner R token s of
        (Inl e, s1) \<Rightarrow> (Inl (''resolve bot route: '' @ e), s1)
      | (Inr workerID, s1) \<Rightarrow>
          (Inr \<lparr>br_token = token, br_worker = workerID, br_inbox = WorkerInboxPrefix @ workerID\<rparr>, s1))"

section \<open>Cleanup of a bot's artifacts\<close>

definition cleanupChatInboxes :: "'s redis \<Rightarrow> string \<Rightarrow> 's \<Rightarrow> 's" where
  "cleanupChatInboxes R token s =
     (let idxKey = ChatInboxIdxPrefix @ token in
      case rd_smembers R idxKey s of
        (Inl _, s1) \<Rightarrow> s1
      | (Inr keys, s1) \<Rightarrow>
          let s2 = foldl (\<lambda>s k. snd (rd_del R [k] s)) s1 keys in snd (rd_del R [idxKey] s2))"

definition doArtifactCleanup :: "'s redis \<Rightarrow> 's mq \<Rightarrow> string \<Rightarrow> 's \<Rightarrow> 's" where
  "doArtifactCleanup R Q token s =
     (case mq_delete_queue Q (BotInboxPrefix @ token) s of (_, s1) \<Rightarrow> cleanupChatInboxes R token s1)"

text \<open>The buffered channel takes the token when it has room; otherwise a goroutine is started,
  which is recorded in \<open>b_spawned\<close> until it runs.\<close>

definition enqueueArtifactCleanup :: "string \<Rightarrow> bridge \<Rightarrow> bridge" where
  "enqueueArtifactCleanup token b =
     (if length (b_artifact_ch b) < artifact_cap then b\<lparr>b_artifact_ch := b_artifact_ch b @ [token]\<rparr>
      else b\<lparr>b_spawned := b_spawned b @ [token]\<rparr>)"

text \<open>One round of \<open>runArtifactCleanupWorker\<close>, and a started goroutine running.\<close>

definition runArtifactCleanupWorker :: "'s redis \<Rightarrow> 's mq \<Rightarrow> bridge \<Rightarrow> 's \<Rightarrow> bridge \<times> 's" where
  "runArtifactCleanupWorker R Q b s =
     (if b_cancelled b then (b, s)
      else case b_artifact_ch b of
        [] \<Rightarrow> (b, s)
      | token # rest \<Rightarrow> (b\<lparr>b_artifact_ch := rest\<rparr>, doArtifactCleanup R Q token s))"

definition run_spawned :: "'s redis \<Rightarrow> 's mq \<Rightarrow> bridge \<Rightarrow> 's \<Rightarrow> bridge \<times> 's" where
  "run_spawned R Q b s =
     (case b_spawned b of
        [] \<Rightarrow> (b, s)
      | token # rest \<Rightarrow> (b\<lparr>b_spawned := rest\<rparr>, doArtifactCleanup R Q token s))"

definition TrackChatInbox :: "'s redis \<Rightarrow> string \<Rightarrow> string \<Rightarrow> 's \<Rightarrow> 's" where
  "TrackChatInbox R token inboxKey s = snd (rd_sadd R (ChatInboxIdxPrefix @ token) inboxKey s)"

definition UntrackChatInbox :: "'s redis \<Rightarrow> string \<Rightarrow> string \<Rightarrow> 's \<Rightarrow> 's" where
  "UntrackChatInbox R token inboxKey s = snd (rd_srem R (ChatInboxIdxPrefix @ token) inboxKey s)"

end
