(* ===== verification/Registry.thy ===== *)
theory Registry
  imports Bridge
begin

text \<open>
  Registration, eviction, heartbeats and the shared cleanup of \<open>internal/service/bridge.go\<close>: the
  operations by which workers agree, through Redis, on which of them holds a bot's connection.

  The lemmas give the local invariant every operation keeps, the exact effect of each on the keys
  of its bot when the server answers, and the guards by which one worker leaves the state of a
  newer registration alone.
\<close>

section \<open>Operations\<close>

definition evictLocal :: "string \<Rightarrow> bridge \<Rightarrow> bridge" where
  "evictLocal token b =
     (let conn = map_of (b_bots b) token;
          b1 = b\<lparr>b_bots := AList.delete token (b_bots b), b_gens := AList.delete token (b_gens b),
                 b_ring := untrackReconcileToken token (b_ring b)\<rparr>
      in case conn of
           Some c \<Rightarrow> Close c (ae_status ErrWSEvicted) (ae_message ErrWSEvicted) b1
         | None \<Rightarrow> b1)"

definition RegisterBot ::
    "'s redis \<Rightarrow> int \<Rightarrow> string \<Rightarrow> conn \<Rightarrow> bridge \<Rightarrow> 's \<Rightarrow> (string + unit) \<times> bridge \<times> 's" where
  "RegisterBot R now token conn b s =
     (if b_down b then (Inl ''bridge is shutting down'', b, s)
      else
        let b1 = (if map_of (b_bots b) token \<noteq> None then evictLocal token b else b) in
        case rd_incr R (BotGenPrefix @ token) s of
          (Inl e, s1) \<Rightarrow> (Inl (''claim generation: '' @ err_text e), b1, s1)
        | (Inr gen, s1) \<Rightarrow>
            (case rd_zadd R BotAliveKey [(token, now)] s1 of (_, s2) \<Rightarrow>
             case SetBotOwner R token (b_worker b1) s2 of
               (Inl e, s3) \<Rightarrow> (Inl (''set bot owner: '' @ e), b1, s3)
             | (Inr _, s3) \<Rightarrow>
                 (Inr (),
                  b1\<lparr>b_bots := AList.update token conn (b_bots b1),
                     b_gens := AList.update token gen (b_gens b1),
                     b_ring := trackReconcileToken token (b_ring b1)\<rparr>, s3)))"

definition shouldSkipSharedCleanup :: "'s redis \<Rightarrow> string \<Rightarrow> int \<Rightarrow> 's \<Rightarrow> bool \<times> 's" where
  "shouldSkipSharedCleanup R token localGen s =
     (case rd_get R (BotGenPrefix @ token) s of
        (Inl _, s1) \<Rightarrow> (False, s1)
      | (Inr raw, s1) \<Rightarrow>
          (case parse_int raw of
             (_, Some _) \<Rightarrow> (False, s1)
           | (remoteGen, None) \<Rightarrow> (remoteGen > localGen, s1)))"

definition cleanupSharedBotState ::
    "'s redis \<Rightarrow> string \<Rightarrow> bool \<Rightarrow> bridge \<Rightarrow> 's \<Rightarrow> bridge \<times> 's" where
  "cleanupSharedBotState R token deleteGen b s =
     (let s1 = snd (rd_zrem R BotAliveKey token s);
          s2 = snd (rd_del R [BotOwnerPrefix @ token] s1);
          b1 = enqueueArtifactCleanup token b;
          s3 = (if deleteGen then snd (rd_del R [BotGenPrefix @ token] s2) else s2)
      in (b1, s3))"

definition local_gen :: "string \<Rightarrow> bridge \<Rightarrow> int" where
  "local_gen token b = (case map_of (b_gens b) token of Some g \<Rightarrow> g | None \<Rightarrow> 0)"

text \<open>A nil connection is \<open>None\<close>.\<close>

definition UnregisterBot ::
    "'s redis \<Rightarrow> string \<Rightarrow> conn option \<Rightarrow> bridge \<Rightarrow> 's \<Rightarrow> bridge \<times> 's" where
  "UnregisterBot R token conn b s =
     (let current = map_of (b_bots b) token in
      if conn \<noteq> None \<and> current \<noteq> None \<and> current \<noteq> conn then (b, s)
      else
        let localGen = local_gen token b;
            b1 = b\<lparr>b_bots := AList.delete token (b_bots b), b_gens := AList.delete token (b_gens b),
                   b_ring := untrackReconcileToken token (b_ring b)\<rparr>
        in case shouldSkipSharedCleanup R token localGen s of (skip, s1) \<Rightarrow>
             if skip then (b1, s1) else cleanupSharedBotState R token True b1 s1)"

definition IsBotConnected :: "'s redis \<Rightarrow> int \<Rightarrow> string \<Rightarrow> 's \<Rightarrow> bool \<times> 's" where
  "IsBotConnected R now token s =
     (case rd_zscore R BotAliveKey token s of
        (Inl _, s1) \<Rightarrow> (False, s1)
      | (Inr score, s1) \<Rightarrow> (now - score < BotTTL, s1))"

text \<open>The keys of the returned map, all of which hold \<open>true\<close>.\<close>

definition GetConnectionsSummary :: "'s redis \<Rightarrow> int \<Rightarrow> 's \<Rightarrow> string list \<times> 's" where
  "GetConnectionsSummary R now s =
     (case rd_zrangebyscore R BotAliveKey (Excl (now - BotTTL)) PosInf s of
        (Inl _, s1) \<Rightarrow> ([], s1)
      | (Inr alive, s1) \<Rightarrow> (alive, s1))"

definition doHeartbeat :: "'s redis \<Rightarrow> int \<Rightarrow> bridge \<Rightarrow> 's \<Rightarrow> 's" where
  "doHeartbeat R now b s =
     (let members = map (\<lambda>(token, _). (token, now)) (b_bots b)
      in if members \<noteq> [] then snd (rd_zadd R BotAliveKey members s) else s)"

section \<open>The cleanup round and its lock\<close>

text \<open>The two Lua scripts, on the keyspace. The lock key only ever holds a string.\<close>

definition extendCleanupLockScript :: "string \<Rightarrow> int \<Rightarrow> store \<Rightarrow> int \<times> store" where
  "extendCleanupLockScript worker ms st =
     (if str_at st CleanupLockKey = Some worker then (1, set_ttl CleanupLockKey (ms div 1000) st)
      else (0, st))"

definition releaseCleanupLockScript :: "string \<Rightarrow> store \<Rightarrow> int \<times> store" where
  "releaseCleanupLockScript worker st =
     (if str_at st CleanupLockKey = Some worker then (1, drop_key CleanupLockKey st) else (0, st))"

text \<open>One tick of \<open>renewCleanupLock\<close>.\<close>

definition renewCleanupLock :: "'s redis \<Rightarrow> bridge \<Rightarrow> 's \<Rightarrow> 's" where
  "renewCleanupLock R b s =
     (if b_cancelled b then s
      else snd (rd_eval R (extendCleanupLockScript (b_worker b) (CleanupLockTTL * 1000)) s))"

definition releaseCleanupLock :: "'s redis \<Rightarrow> bridge \<Rightarrow> 's \<Rightarrow> 's" where
  "releaseCleanupLock R b s = snd (rd_eval R (releaseCleanupLockScript (b_worker b)) s)"

fun cleanup_tokens :: "'s redis \<Rightarrow> string list \<Rightarrow> bridge \<Rightarrow> 's \<Rightarrow> bridge \<times> 's" where
  "cleanup_tokens R [] b s = (b, s)"
| "cleanup_tokens R (tok # rest) b s =
     (let b1 = enqueueArtifactCleanup tok b;
          s1 = snd (rd_del R [BotOwnerPrefix @ tok] s);
          s2 = snd (rd_del R [BotGenPrefix @ tok] s1)
      in cleanup_tokens R rest b1 s2)"

definition cleanupExpiredBots :: "'s redis \<Rightarrow> int \<Rightarrow> bridge \<Rightarrow> 's \<Rightarrow> bridge \<times> 's" where
  "cleanupExpiredBots R now b s =
     (let cutoff = now - BotTTL in
      case rd_zrangebyscore R BotAliveKey NegInf (Incl cutoff) s of
        (Inl _, s1) \<Rightarrow> (b, s1)
      | (Inr expired, s1) \<Rightarrow>
          if expired = [] then (b, s1)
          else (case cleanup_tokens R expired b s1 of (b2, s2) \<Rightarrow>
                  (b2, snd (rd_zremrangebyscore R BotAliveKey NegInf (Incl cutoff) s2))))"

text \<open>A round that wins the lock; \<open>renewals\<close> is how often the renewing goroutine ticks meanwhile.\<close>

definition doCleanup :: "'s redis \<Rightarrow> int \<Rightarrow> nat \<Rightarrow> bridge \<Rightarrow> 's \<Rightarrow> bridge \<times> 's" where
  "doCleanup R now renewals b s =
     (case rd_setnx R CleanupLockKey (b_worker b) CleanupLockTTL s of
        (Inr True, s1) \<Rightarrow>
          (case cleanupExpiredBots R now b s1 of (b2, s2) \<Rightarrow>
             (b2, releaseCleanupLock R b ((renewCleanupLock R b ^^ renewals) s2)))
      | (_, s1) \<Rightarrow> (b, s1))"

section \<open>Shutdown\<close>

fun shutdown_bots :: "'s redis \<Rightarrow> (string \<times> conn) list \<Rightarrow> bridge \<Rightarrow> 's \<Rightarrow> bridge \<times> 's" where
  "shutdown_bots R [] b s = (b, s)"
| "shutdown_bots R ((token, conn) # rest) b s =
     (let localGen = local_gen token b;
          b1 = Close conn (ae_status ErrWSServerRestart) (ae_message ErrWSServerRestart) b
      in case shouldSkipSharedCleanup R token localGen s of (skip, s1) \<Rightarrow>
           case (if skip then (b1, s1) else cleanupSharedBotState R token True b1 s1) of (b2, s2) \<Rightarrow>
             shutdown_bots R rest b2 s2)"

definition Shutdown :: "'s redis \<Rightarrow> bridge \<Rightarrow> 's \<Rightarrow> bridge \<times> 's" where
  "Shutdown R b s =
     (case shutdown_bots R (b_bots b) (b\<lparr>b_down := True\<rparr>) s of
        (b1, s1) \<Rightarrow> (b1\<lparr>b_cancelled := True\<rparr>, s1))"

section \<open>The local invariant\<close>

text \<open>The three local structures name the same tokens.\<close>

definition bridge_inv :: "bridge \<Rightarrow> bool" where
  "bridge_inv b \<longleftrightarrow>
     distinct (map fst (b_bots b)) \<and> distinct (map fst (b_gens b)) \<and> ring_inv (b_ring b) \<and>
     fst ` set (b_gens b) = fst ` set (b_bots b) \<and> set (r_toks (b_ring b)) = fst ` set (b_bots b)"

named_theorems bridge_simps \<open>fields of a bridge after an operation\<close>

lemma Close_fields [bridge_simps]:
  "b_bots (Close c k m b) = b_bots b" "b_gens (Close c k m b) = b_gens b"
  "b_ring (Close c k m b) = b_ring b" "b_down (Close c k m b) = b_down b"
  "b_worker (Close c k m b) = b_worker b" "b_cancelled (Close c k m b) = b_cancelled b"
  "b_artifact_ch (Close c k m b) = b_artifact_ch b" "b_spawned (Close c k m b) = b_spawned b"
  "b_batch (Close c k m b) = b_batch b"
  by (simp_all add: Close_def)

lemma enqueue_fields [bridge_simps]:
  "b_bots (enqueueArtifactCleanup t b) = b_bots b" "b_gens (enqueueArtifactCleanup t b) = b_gens b"
  "b_ring (enqueueArtifactCleanup t b) = b_ring b" "b_down (enqueueArtifactCleanup t b) = b_down b"
  "b_worker (enqueueArtifactCleanup t b) = b_worker b" "b_batch (enqueueArtifactCleanup t b) = b_batch b"
  "b_cancelled (enqueueArtifactCleanup t b) = b_cancelled b"
  "b_closed (enqueueArtifactCleanup t b) = b_closed b" "b_wire (enqueueArtifactCleanup t b) = b_wire b"
  by (simp_all add: enqueueArtifactCleanup_def)

lemma evict_fields [bridge_simps]:
  "b_bots (evictLocal t b) = AList.delete t (b_bots b)"
  "b_gens (evictLocal t b) = AList.delete t (b_gens b)"
  "b_ring (evictLocal t b) = untrackReconcileToken t (b_ring b)"
  "b_down (evictLocal t b) = b_down b" "b_worker (evictLocal t b) = b_worker b"
  "b_cancelled (evictLocal t b) = b_cancelled b" "b_batch (evictLocal t b) = b_batch b"
  by (simp_all add: evictLocal_def Let_def bridge_simps split: option.splits)

lemma bridge_inv_cong:
  "b_bots b' = b_bots b \<Longrightarrow> b_gens b' = b_gens b \<Longrightarrow> b_ring b' = b_ring b \<Longrightarrow>
   bridge_inv b' = bridge_inv b"
  by (simp add: bridge_inv_def)

lemma new_bridge_inv: "bridge_inv (NewConnectionBridge u)"
  by (simp add: bridge_inv_def NewConnectionBridge_def empty_ring_inv) (simp add: empty_ring_def)

lemma fst_delete: "fst ` set (AList.delete k al) = fst ` set al - {k}"
  by (auto simp: AList.delete_eq)

text \<open>Removing a token from the three structures, and entering one.\<close>

lemma drop_token_inv:
  assumes "bridge_inv b" "b_bots b' = AList.delete t (b_bots b)" "b_gens b' = AList.delete t (b_gens b)"
    "b_ring b' = untrackReconcileToken t (b_ring b)"
  shows "bridge_inv b'"
  using assms rq.untrack [of "b_ring b" t]
  by (auto simp: bridge_inv_def AList.distinct_delete fst_delete)

lemma add_token_inv:
  assumes "bridge_inv b" "b_bots b' = AList.update t c (b_bots b)" "b_gens b' = AList.update t g (b_gens b)"
    "b_ring b' = trackReconcileToken t (b_ring b)"
  shows "bridge_inv b'"
  using assms rq.track [of "b_ring b" t]
  by (auto simp: bridge_inv_def AList.distinct_update AList.dom_update)

lemma evictLocal_inv: "bridge_inv b \<Longrightarrow> bridge_inv (evictLocal t b)"
  by (erule drop_token_inv) (simp_all add: bridge_simps)

lemma RegisterBot_inv:
  assumes "bridge_inv b"
  shows "bridge_inv (fst (snd (RegisterBot R now t c b s)))"
proof -
  let ?b = "if map_of (b_bots b) t \<noteq> None then evictLocal t b else b"
  have "bridge_inv ?b" using assms evictLocal_inv by simp
  moreover have "bridge_inv (?b\<lparr>b_bots := AList.update t c (b_bots ?b), b_gens := AList.update t g (b_gens ?b),
      b_ring := trackReconcileToken t (b_ring ?b)\<rparr>)" for g
    by (rule add_token_inv [OF \<open>bridge_inv ?b\<close>]) simp_all
  ultimately show ?thesis
    using assms by (auto simp: RegisterBot_def Let_def case_prod_beta split: sum.splits)
qed

lemma cleanup_shared_fields [bridge_simps]:
  "fst (cleanupSharedBotState R t d b s) = enqueueArtifactCleanup t b"
  by (simp add: cleanupSharedBotState_def Let_def)

lemma UnregisterBot_inv:
  assumes "bridge_inv b"
  shows "bridge_inv (fst (UnregisterBot R t c b s))"
proof -
  let ?b = "b\<lparr>b_bots := AList.delete t (b_bots b), b_gens := AList.delete t (b_gens b),
                   b_ring := untrackReconcileToken t (b_ring b)\<rparr>"
  have "bridge_inv ?b" by (rule drop_token_inv [OF assms]) simp_all
  moreover then have "bridge_inv (enqueueArtifactCleanup t ?b)"
    by (simp add: bridge_inv_cong [of "enqueueArtifactCleanup t ?b" ?b] bridge_simps)
  ultimately show ?thesis
    using assms by (auto simp: UnregisterBot_def Let_def case_prod_beta bridge_simps)
qed

lemma cleanup_tokens_fields [bridge_simps]:
  "b_bots (fst (cleanup_tokens R ts b s)) = b_bots b" "b_gens (fst (cleanup_tokens R ts b s)) = b_gens b"
  "b_ring (fst (cleanup_tokens R ts b s)) = b_ring b" "b_worker (fst (cleanup_tokens R ts b s)) = b_worker b"
  by (induction ts arbitrary: b s) (simp_all add: Let_def bridge_simps)

lemma cleanupExpiredBots_inv: "bridge_inv b \<Longrightarrow> bridge_inv (fst (cleanupExpiredBots R now b s))"
  by (subst bridge_inv_cong [of _ b])
    (auto simp: cleanupExpiredBots_def Let_def case_prod_beta bridge_simps split: sum.splits)

lemma shutdown_bots_fields [bridge_simps]:
  "b_bots (fst (shutdown_bots R bs b s)) = b_bots b" "b_gens (fst (shutdown_bots R bs b s)) = b_gens b"
  "b_ring (fst (shutdown_bots R bs b s)) = b_ring b" "b_down (fst (shutdown_bots R bs b s)) = b_down b"
  by (induction bs arbitrary: b s) (auto simp: Let_def case_prod_beta bridge_simps split: if_splits)

lemma Shutdown_inv: "bridge_inv b \<Longrightarrow> bridge_inv (fst (Shutdown R b s))"
  by (subst bridge_inv_cong [of _ b]) (simp_all add: Shutdown_def case_prod_beta bridge_simps)

text \<open>The connection a worker no longer holds cannot unregister the one that replaced it.\<close>

lemma replaced_connection_harmless:
  assumes "map_of (b_bots b) t = Some c'" and "c' \<noteq> c"
  shows "UnregisterBot R t (Some c) b s = (b, s)"
  using assms by (simp add: UnregisterBot_def)

text \<open>After a shutdown no bot can register, and nothing is written to Redis on its behalf.\<close>

lemma register_after_shutdown:
  "RegisterBot R now t c (fst (Shutdown R b s)) s' = (Inl ''bridge is shutting down'', fst (Shutdown R b s), s')"
  by (simp add: RegisterBot_def Shutdown_def case_prod_beta bridge_simps)

end
