(* ===== verification/Shared.thy ===== *)
theory Shared
  imports Registry
begin

text \<open>
  The shared registry as an abstract state, and the refinement of the Redis operations to it. For
  each token the shared state holds the time of the last heartbeat, the owning worker and the
  generation; \<open>shared_of\<close> reads them from the keyspace. Each operation of \<open>Registry\<close>, on a server
  that answers, is one step on this state.
\<close>

record shared =
  sh_alive :: "string \<rightharpoonup> int"
  sh_owner :: "string \<rightharpoonup> string"
  sh_gen :: "string \<rightharpoonup> int"

definition gen_of :: "store \<Rightarrow> string \<Rightarrow> int option" where
  "gen_of st t = (case str_at st (BotGenPrefix @ t) of
     Some v \<Rightarrow> (case parse_int v of (n, None) \<Rightarrow> Some n | _ \<Rightarrow> None) | None \<Rightarrow> None)"

definition shared_of :: "store \<Rightarrow> shared" where
  "shared_of st = \<lparr>sh_alive = zset_at st BotAliveKey, sh_owner = (\<lambda>t. str_at st (BotOwnerPrefix @ t)),
     sh_gen = gen_of st\<rparr>"

text \<open>The keys of the registry hold what its operations write there.\<close>

definition gen_key :: "store \<Rightarrow> string \<Rightarrow> bool" where
  "gen_key st k \<longleftrightarrow> (case kv st k of None \<Rightarrow> True | Some (VStr v) \<Rightarrow> \<exists>n. v = itoa n \<and> fits64 n | _ \<Rightarrow> False)"

definition bots_ok :: "store \<Rightarrow> bool" where
  "bots_ok st \<longleftrightarrow> zset_key st BotAliveKey \<and> (\<forall>t. str_key st (BotOwnerPrefix @ t)) \<and>
     (\<forall>t. gen_key st (BotGenPrefix @ t))"

section \<open>The abstract steps\<close>

definition sh_register :: "string \<Rightarrow> int \<Rightarrow> string \<Rightarrow> shared \<Rightarrow> int \<times> shared" where
  "sh_register w now t sh =
     (let g = (case sh_gen sh t of None \<Rightarrow> 1 | Some n \<Rightarrow> n + 1)
      in (g, \<lparr>sh_alive = (sh_alive sh)(t \<mapsto> now), sh_owner = (sh_owner sh)(t \<mapsto> w),
              sh_gen = (sh_gen sh)(t \<mapsto> g)\<rparr>))"

definition sh_forget :: "string set \<Rightarrow> shared \<Rightarrow> shared" where
  "sh_forget T sh = \<lparr>sh_alive = sh_alive sh |` (- T), sh_owner = sh_owner sh |` (- T),
     sh_gen = sh_gen sh |` (- T)\<rparr>"

definition newer_gen :: "string \<Rightarrow> int \<Rightarrow> shared \<Rightarrow> bool" where
  "newer_gen t g sh \<longleftrightarrow> (\<exists>n. sh_gen sh t = Some n \<and> n > g)"

definition sh_unregister :: "string \<Rightarrow> int \<Rightarrow> shared \<Rightarrow> shared" where
  "sh_unregister t g sh = (if newer_gen t g sh then sh else sh_forget {t} sh)"

definition sh_heartbeat :: "int \<Rightarrow> string set \<Rightarrow> shared \<Rightarrow> shared" where
  "sh_heartbeat now T sh = sh\<lparr>sh_alive := (\<lambda>t. if t \<in> T then Some now else sh_alive sh t)\<rparr>"

definition expired_at :: "int \<Rightarrow> shared \<Rightarrow> string set" where
  "expired_at now sh = {t. \<exists>sc. sh_alive sh t = Some sc \<and> sc \<le> now - 30}"

definition sh_online :: "int \<Rightarrow> string \<Rightarrow> shared \<Rightarrow> bool" where
  "sh_online now t sh \<longleftrightarrow> (\<exists>sc. sh_alive sh t = Some sc \<and> now - sc < 30)"

section \<open>The keyspace\<close>

lemma kv_put_zset: "kv (put_zset k z st) = (kv st)(k := (if z = [] then None else Some (VZSet z)))"
  by (simp add: put_zset_def)

text \<open>What the registry reads depends only on its own keys.\<close>

lemma shared_cong:
  assumes "kv st' BotAliveKey = kv st BotAliveKey"
    "\<And>t. kv st' (BotOwnerPrefix @ t) = kv st (BotOwnerPrefix @ t)"
    "\<And>t. kv st' (BotGenPrefix @ t) = kv st (BotGenPrefix @ t)"
  shows "shared_of st' = shared_of st \<and> bots_ok st' = bots_ok st"
  using assms by (simp add: shared_of_def bots_ok_def zset_at_def str_at_def gen_of_def zset_key_def
      str_key_def gen_key_def fun_eq_iff)

lemma foldl_obj_put:
  "map_of (foldl (\<lambda>z (m, sc). obj_put m sc z) z ms) = map_of z ++ map_of (rev ms)"
  by (induction ms arbitrary: z) (auto simp: fun_eq_iff map_add_def split: option.splits)

lemma foldl_obj_put_sorted: "keys_sorted z \<Longrightarrow> keys_sorted (foldl (\<lambda>z (m, sc). obj_put m sc z) z ms)"
  by (induction ms arbitrary: z) (auto simp: keys_sorted_put)

lemma zset_put:
  "zset_at (put_zset k z st) k = map_of z"
  "keys_sorted z \<Longrightarrow> zset_key (put_zset k z st) k"
  by (auto simp: put_zset_def zset_at_def zset_key_def)

lemma alive_put:
  assumes "bots_ok st" "keys_sorted z"
  shows "shared_of (put_zset BotAliveKey z st) = (shared_of st)\<lparr>sh_alive := map_of z\<rparr>"
    and "bots_ok (put_zset BotAliveKey z st)"
  using assms zset_put [where k = BotAliveKey and z = z and st = st]
  by (simp_all add: shared_of_def bots_ok_def str_at_def gen_of_def str_key_def gen_key_def
      kv_put_zset key_simps fun_eq_iff)

lemma zadd_shared:
  assumes "bots_ok st"
  shows "shared_of (snd (sem_zadd BotAliveKey ms st)) =
      (shared_of st)\<lparr>sh_alive := sh_alive (shared_of st) ++ map_of (rev ms)\<rparr>"
    and "bots_ok (snd (sem_zadd BotAliveKey ms st))"
  using assms alive_put [OF assms foldl_obj_put_sorted [OF zset_key_sorted]]
  by (simp_all add: sem_zadd_def bots_ok_def foldl_obj_put) (simp add: shared_of_def zset_at_alist)

lemma zrem_shared:
  assumes "bots_ok st"
  shows "shared_of (snd (sem_zrem BotAliveKey t st)) =
      (shared_of st)\<lparr>sh_alive := (sh_alive (shared_of st))(t := None)\<rparr>"
    and "bots_ok (snd (sem_zrem BotAliveKey t st))"
  using assms alive_put [OF assms keys_sorted_obj_del [OF zset_key_sorted]]
  by (simp_all add: sem_zrem_def bots_ok_def map_of_obj_del) (simp add: shared_of_def zset_at_alist)

lemma map_of_filter_score:
  "distinct (map fst z) \<Longrightarrow>
   map_of (filter (\<lambda>(_, sc). P sc) z) = (\<lambda>m. case map_of z m of Some sc \<Rightarrow> if P sc then Some sc else None | None \<Rightarrow> None)"
proof (induction z)
  case (Cons a z)
  obtain k v where a: "a = (k, v)" by (cases a)
  with Cons have "map_of z k = None" by (simp add: map_of_eq_None_iff)
  with Cons a show ?case by (auto simp: fun_eq_iff)
qed (simp add: fun_eq_iff)

lemma zremrange_shared:
  assumes "bots_ok st"
  shows "shared_of (snd (sem_zremrangebyscore BotAliveKey NegInf (Incl (now - 30)) st)) =
      (shared_of st)\<lparr>sh_alive := sh_alive (shared_of st) |` (- expired_at now (shared_of st))\<rparr>"
    and "bots_ok (snd (sem_zremrangebyscore BotAliveKey NegInf (Incl (now - 30)) st))"
proof -
  have z: "zset_key st BotAliveKey" using assms by (simp add: bots_ok_def)
  let ?z = "filter (\<lambda>(_, sc). \<not> in_range NegInf (Incl (now - 30)) sc) (zalist st BotAliveKey)"
  have e: "snd (sem_zremrangebyscore BotAliveKey NegInf (Incl (now - 30)) st) = put_zset BotAliveKey ?z st"
    using z by (simp add: sem_zremrangebyscore_def)
  have s: "keys_sorted ?z" using zset_key_sorted [OF z] by (rule keys_sorted_filter)
  have "map_of ?z = zset_at st BotAliveKey |` (- expired_at now (shared_of st))"
    using map_of_filter_score [OF keys_sorted_distinct [OF zset_key_sorted [OF z]], of "\<lambda>sc. \<not> in_range NegInf (Incl (now - 30)) sc"]
    by (auto simp: fun_eq_iff restrict_map_def expired_at_def shared_of_def zset_at_alist in_range_def split: option.splits)
  then show "shared_of (snd (sem_zremrangebyscore BotAliveKey NegInf (Incl (now - 30)) st)) =
      (shared_of st)\<lparr>sh_alive := sh_alive (shared_of st) |` (- expired_at now (shared_of st))\<rparr>"
    and "bots_ok (snd (sem_zremrangebyscore BotAliveKey NegInf (Incl (now - 30)) st))"
    using alive_put [OF assms s] e by (simp_all add: shared_of_def)
qed

lemma set_owner_shared:
  assumes "bots_ok st"
  shows "shared_of (snd (sem_set (BotOwnerPrefix @ t) w n st)) =
      (shared_of st)\<lparr>sh_owner := (sh_owner (shared_of st))(t \<mapsto> w)\<rparr>"
    and "bots_ok (snd (sem_set (BotOwnerPrefix @ t) w n st))"
  using assms
  by (auto simp: sem_set_def shared_of_def bots_ok_def str_at_def gen_of_def str_key_def gen_key_def
      zset_at_def zset_key_def key_simps fun_eq_iff)

lemma incr_shared:
  assumes "bots_ok st" "gen_of st t = Some max_int64 \<Longrightarrow> False"
  shows "fst (sem_incr (BotGenPrefix @ t) st) = Inr (case gen_of st t of None \<Rightarrow> 1 | Some n \<Rightarrow> n + 1)"
    and "shared_of (snd (sem_incr (BotGenPrefix @ t) st)) =
      (shared_of st)\<lparr>sh_gen := (sh_gen (shared_of st))(t \<mapsto> case gen_of st t of None \<Rightarrow> 1 | Some n \<Rightarrow> n + 1)\<rparr>"
    and "bots_ok (snd (sem_incr (BotGenPrefix @ t) st))"
proof -
  let ?k = "BotGenPrefix @ t"
  let ?g = "case gen_of st t of None \<Rightarrow> 1 | Some n \<Rightarrow> n + 1"
  have g: "gen_key st ?k" using assms by (simp add: bots_ok_def)
  have e: "sem_incr ?k st = (Inr ?g, put_key ?k (VStr (itoa ?g)) st) \<and> fits64 ?g"
  proof (cases "kv st ?k")
    case None
    then have "gen_of st t = None" by (simp add: gen_of_def str_at_def)
    with None show ?thesis by (simp add: sem_incr_def fits64_def min_int64_def max_int64_def)
  next
    case (Some v)
    with g obtain n where n: "v = VStr (itoa n)" "fits64 n"
      by (auto simp: gen_key_def split: rval.splits)
    then have gn: "gen_of st t = Some n" using Some by (simp add: gen_of_def str_at_def parse_int_itoa)
    with assms(2) have "n \<noteq> max_int64" by auto
    with n Some gn show ?thesis
      by (auto simp: sem_incr_def parse_int_itoa fits64_def max_int64_def min_int64_def)
  qed
  then show "fst (sem_incr ?k st) = Inr ?g" by simp
  have p: "gen_of (put_key ?k (VStr (itoa ?g)) st) = (gen_of st)(t \<mapsto> ?g)"
    using e by (auto simp: gen_of_def str_at_def parse_int_itoa fun_eq_iff)
  show "shared_of (snd (sem_incr ?k st)) = (shared_of st)\<lparr>sh_gen := (sh_gen (shared_of st))(t \<mapsto> ?g)\<rparr>"
    using e p by (simp add: shared_of_def str_at_def zset_at_def key_simps fun_eq_iff)
  show "bots_ok (snd (sem_incr ?k st))"
    using e assms by (auto simp: bots_ok_def str_key_def gen_key_def zset_key_def key_simps)
qed

lemma del_owner_shared:
  assumes "bots_ok st"
  shows "shared_of (snd (sem_del [BotOwnerPrefix @ t] st)) =
      (shared_of st)\<lparr>sh_owner := (sh_owner (shared_of st))(t := None)\<rparr>"
    and "bots_ok (snd (sem_del [BotOwnerPrefix @ t] st))"
  using assms by (auto simp: sem_del_def shared_of_def bots_ok_def str_at_def gen_of_def str_key_def
      gen_key_def zset_at_def zset_key_def key_simps fun_eq_iff)

lemma del_gen_shared:
  assumes "bots_ok st"
  shows "shared_of (snd (sem_del [BotGenPrefix @ t] st)) =
      (shared_of st)\<lparr>sh_gen := (sh_gen (shared_of st))(t := None)\<rparr>"
    and "bots_ok (snd (sem_del [BotGenPrefix @ t] st))"
  using assms by (auto simp: sem_del_def shared_of_def bots_ok_def str_at_def gen_of_def str_key_def
      gen_key_def zset_at_def zset_key_def key_simps fun_eq_iff)

section \<open>Refinement\<close>

lemma get_str:
  "str_key st k \<Longrightarrow> fst (sem_get k st) = (case str_at st k of Some v \<Rightarrow> Inr v | None \<Rightarrow> Inl RNil)"
  by (auto simp: str_key_def sem_get_def str_at_def split: option.splits rval.splits)

lemma get_owner: "bots_ok st \<Longrightarrow> fst (sem_get (BotOwnerPrefix @ t) st) =
    (case sh_owner (shared_of st) t of Some w \<Rightarrow> Inr w | None \<Rightarrow> Inl RNil)"
  by (simp add: get_str bots_ok_def shared_of_def)

lemma get_gen:
  assumes "bots_ok st"
  shows "fst (sem_get (BotGenPrefix @ t) st) = Inl RNil \<and> sh_gen (shared_of st) t = None \<or>
    (\<exists>n. fst (sem_get (BotGenPrefix @ t) st) = Inr (itoa n) \<and> fits64 n \<and> sh_gen (shared_of st) t = Some n)"
proof -
  have "gen_key st (BotGenPrefix @ t)" using assms by (simp add: bots_ok_def)
  then show ?thesis
    by (auto simp: gen_key_def sem_get_def shared_of_def gen_of_def str_at_def parse_int_itoa
        split: option.splits rval.splits)
qed

lemma sem_get_state [simp]: "snd (sem_get k st) = st"
  by (simp add: sem_get_def)

lemma shared_eqI:
  "sh_alive x = sh_alive y \<Longrightarrow> sh_owner x = sh_owner y \<Longrightarrow> sh_gen x = sh_gen y \<Longrightarrow> x = (y :: shared)"
  by simp

context redis_up begin

lemma GetBotOwner_reply:
  assumes "bots_ok (view s)"
  shows "fst (GetBotOwner R t s) = (case sh_owner (shared_of (view s)) t of
      Some w \<Rightarrow> Inr w | None \<Rightarrow> Inl ''get bot owner: redis: nil'')"
    and "view (snd (GetBotOwner R t s)) = view s"
  using get_owner [OF assms, of t]
  by (auto simp: GetBotOwner_def case_prod_beta split: sum.splits option.splits)

lemma ResolveBotRoute_reply:
  assumes "bots_ok (view s)"
  shows "fst (ResolveBotRoute R t s) = (case sh_owner (shared_of (view s)) t of
      Some w \<Rightarrow> Inr \<lparr>br_token = t, br_worker = w, br_inbox = WorkerInboxPrefix @ w\<rparr>
    | None \<Rightarrow> Inl ''resolve bot route: get bot owner: redis: nil'')"
    and "view (snd (ResolveBotRoute R t s)) = view s"
  using GetBotOwner_reply [OF assms, of t]
  by (auto simp: ResolveBotRoute_def case_prod_beta split: sum.splits option.splits)

lemma RegisterBot_refines:
  assumes ok: "bots_ok (view s)" and up: "\<not> b_down b" and g: "sh_gen (shared_of (view s)) t \<noteq> Some max_int64"
    and e: "RegisterBot R now t c b s = (r, b', s')"
  shows "r = Inr ()"
    and "shared_of (view s') = snd (sh_register (b_worker b) now t (shared_of (view s)))"
    and "bots_ok (view s')"
    and "map_of (b_bots b') = (map_of (b_bots b))(t \<mapsto> c)"
    and "map_of (b_gens b') = (map_of (b_gens b))(t \<mapsto> fst (sh_register (b_worker b) now t (shared_of (view s))))"
    and "b_down b' = b_down b" and "b_worker b' = b_worker b"
    and "b_ring b' = trackReconcileToken t
      (if map_of (b_bots b) t = None then b_ring b else untrackReconcileToken t (b_ring b))"
proof -
  let ?st1 = "snd (sem_incr (BotGenPrefix @ t) (view s))"
  let ?st2 = "snd (sem_zadd BotAliveKey [(t, now)] ?st1)"
  have g': "gen_of (view s) t = Some max_int64 \<Longrightarrow> False" using g by (simp add: shared_of_def)
  note I = incr_shared [OF ok g']
  note Z = zadd_shared [OF I(3), where ms = "[(t, now)]"]
  note S = set_owner_shared [OF Z(2), where t = t and w = "b_worker b" and n = 0]
  have set_ok: "fst (sem_set k w n st) = Inr ()" for k w n st by (simp add: sem_set_def)
  let ?b = "if map_of (b_bots b) t \<noteq> None then evictLocal t b else b"
  have w: "b_worker ?b = b_worker b" by (simp add: bridge_simps)
  have R: "r = Inr ()" "view s' = snd (sem_set (BotOwnerPrefix @ t) (b_worker b) 0 ?st2)"
    "b' = ?b\<lparr>b_bots := AList.update t c (b_bots ?b),
       b_gens := AList.update t (case gen_of (view s) t of None \<Rightarrow> 1 | Some n \<Rightarrow> n + 1) (b_gens ?b),
       b_ring := trackReconcileToken t (b_ring ?b)\<rparr>"
    using e up I(1) w set_ok
    by (auto simp: RegisterBot_def SetBotOwner_def Let_def case_prod_beta bridge_simps split: if_splits)
  have sg: "sh_gen (shared_of (view s)) = gen_of (view s)" by (simp add: shared_of_def)
  show "r = Inr ()" by (rule R(1))
  show "bots_ok (view s')" using S(2) R(2) by simp
  show "shared_of (view s') = snd (sh_register (b_worker b) now t (shared_of (view s)))"
    using S(1) Z(1) I(2) R(2) by (intro shared_eqI) (simp_all add: sh_register_def Let_def sg)
  show "map_of (b_bots b') = (map_of (b_bots b))(t \<mapsto> c)"
    using R(3) by (simp add: AList.update_conv' AList.delete_conv' bridge_simps)
  show "map_of (b_gens b') = (map_of (b_gens b))(t \<mapsto> fst (sh_register (b_worker b) now t (shared_of (view s))))"
    using R(3) by (simp add: AList.update_conv' AList.delete_conv' bridge_simps sh_register_def Let_def sg)
  show "b_down b' = b_down b" "b_worker b' = b_worker b" using R(3) by (simp_all add: bridge_simps)
  show "b_ring b' = trackReconcileToken t
      (if map_of (b_bots b) t = None then b_ring b else untrackReconcileToken t (b_ring b))"
    using R(3) by (simp add: bridge_simps)
qed

lemma skip_reply:
  assumes "bots_ok (view s)"
  shows "fst (shouldSkipSharedCleanup R t g s) = newer_gen t g (shared_of (view s))"
    and "view (snd (shouldSkipSharedCleanup R t g s)) = view s"
  using get_gen [OF assms, of t]
  by (auto simp: shouldSkipSharedCleanup_def case_prod_beta newer_gen_def parse_int_itoa split: sum.splits)

lemma cleanup_shared_refines:
  assumes "bots_ok (view s)"
  shows "shared_of (view (snd (cleanupSharedBotState R t True b s))) = sh_forget {t} (shared_of (view s))"
    and "bots_ok (view (snd (cleanupSharedBotState R t True b s)))"
proof -
  note Z = zrem_shared [OF assms, of t]
  note O = del_owner_shared [OF Z(2), of t]
  note G = del_gen_shared [OF O(2), of t]
  show "shared_of (view (snd (cleanupSharedBotState R t True b s))) = sh_forget {t} (shared_of (view s))"
    using G(1) O(1) Z(1)
    by (intro shared_eqI) (auto simp: cleanupSharedBotState_def Let_def sh_forget_def fun_eq_iff restrict_map_def)
  show "bots_ok (view (snd (cleanupSharedBotState R t True b s)))"
    using G(2) by (simp add: cleanupSharedBotState_def Let_def)
qed

lemma UnregisterBot_refines:
  assumes ok: "bots_ok (view s)" and e: "UnregisterBot R t c b s = (b', s')"
    and mine: "c = None \<or> map_of (b_bots b) t = None \<or> map_of (b_bots b) t = c"
  shows "shared_of (view s') = sh_unregister t (local_gen t b) (shared_of (view s))"
    and "bots_ok (view s')"
    and "map_of (b_bots b') = (map_of (b_bots b))(t := None)"
    and "map_of (b_gens b') = (map_of (b_gens b))(t := None)"
proof -
  let ?b = "b\<lparr>b_bots := AList.delete t (b_bots b), b_gens := AList.delete t (b_gens b),
                   b_ring := untrackReconcileToken t (b_ring b)\<rparr>"
  let ?g = "local_gen t b"
  note K = skip_reply [OF ok, of t ?g]
  have ok1: "bots_ok (view (snd (shouldSkipSharedCleanup R t ?g s)))" using K(2) ok by simp
  note C = cleanup_shared_refines [OF ok1, of t ?b]
  have split: "(b', s') = (if newer_gen t ?g (shared_of (view s)) then (?b, snd (shouldSkipSharedCleanup R t ?g s))
      else cleanupSharedBotState R t True ?b (snd (shouldSkipSharedCleanup R t ?g s)))"
    using e mine K(1) by (auto simp: UnregisterBot_def Let_def case_prod_beta)
  show "shared_of (view s') = sh_unregister t ?g (shared_of (view s))" "bots_ok (view s')"
    using split C K ok by (auto simp: sh_unregister_def dest: arg_cong [where f = snd] split: if_splits)
  show "map_of (b_bots b') = (map_of (b_bots b))(t := None)" "map_of (b_gens b') = (map_of (b_gens b))(t := None)"
    using arg_cong [OF split, of fst]
    by (auto simp: bridge_simps AList.delete_conv' split: if_splits)
qed

lemma UnregisterBot_stale_conn:
  "map_of (b_bots b) t = Some c' \<Longrightarrow> c' \<noteq> c \<Longrightarrow> UnregisterBot R t (Some c) b s = (b, s)"
  by (simp add: UnregisterBot_def)

end

text \<open>A generation is given out again once the key was deleted: a worker that still holds the first of
  three connections of a bot, after the second was closed, unregisters the third.\<close>

lemma stale_unregister_wipes:
  fixes a b c :: string
  assumes "sh_gen sh t = None"
  defines "sh1 \<equiv> snd (sh_register a 0 t sh)"
  defines "sh2 \<equiv> snd (sh_register b 1 t sh1)"
  defines "sh3 \<equiv> sh_unregister t (fst (sh_register b 1 t sh1)) sh2"
  defines "sh4 \<equiv> snd (sh_register c 2 t sh3)"
  shows "sh_owner sh4 t = Some c \<and> sh_owner (sh_unregister t (fst (sh_register a 0 t sh)) sh4) t = None"
  using assms by (simp add: sh_register_def sh_unregister_def sh_forget_def newer_gen_def Let_def)

section \<open>Heartbeats, liveness and the cleanup round\<close>

lemma in_range_expired: "in_range NegInf (Incl (now - BotTTL)) sc \<longleftrightarrow> sc \<le> now - 30"
  by (simp add: in_range_def BotTTL_def)

lemma in_range_online: "in_range (Excl (now - BotTTL)) PosInf sc \<longleftrightarrow> now - sc < 30"
  by (auto simp: in_range_def BotTTL_def)

lemma sh_alive_of [simp]: "sh_alive (shared_of st) = zset_at st BotAliveKey"
  by (simp add: shared_of_def)

lemma kv_drop_lock:
  "shared_of (drop_key CleanupLockKey st) = shared_of st" "bots_ok (drop_key CleanupLockKey st) = bots_ok st"
  "shared_of (put_key CleanupLockKey v st) = shared_of st" "bots_ok (put_key CleanupLockKey v st) = bots_ok st"
  "shared_of (set_ttl k n st) = shared_of st" "bots_ok (set_ttl k n st) = bots_ok st"
  using shared_cong [of "drop_key CleanupLockKey st" st] shared_cong [of "put_key CleanupLockKey v st" st]
    shared_cong [of "set_ttl k n st" st]
  by (simp_all add: key_simps)

lemma sh_forget_fields [simp]:
  "sh_alive (sh_forget T sh) = sh_alive sh |` (- T)" "sh_owner (sh_forget T sh) = sh_owner sh |` (- T)"
  "sh_gen (sh_forget T sh) = sh_gen sh |` (- T)"
  by (simp_all add: sh_forget_def)

lemma sh_forget_empty: "sh_forget {} sh = sh"
  by (rule shared_eqI) (simp_all add: restrict_map_def)

context redis_up begin

lemma IsBotConnected_reply:
  assumes "bots_ok (view s)"
  shows "fst (IsBotConnected R now t s) = sh_online now t (shared_of (view s))"
    and "view (snd (IsBotConnected R now t s)) = view s"
  using assms
  by (auto simp: IsBotConnected_def case_prod_beta sem_zscore_def sh_online_def bots_ok_def BotTTL_def
      split: sum.splits option.splits)

lemma GetConnectionsSummary_reply:
  assumes "bots_ok (view s)"
  shows "set (fst (GetConnectionsSummary R now s)) = {t. sh_online now t (shared_of (view s))}"
    and "distinct (fst (GetConnectionsSummary R now s))"
    and "view (snd (GetConnectionsSummary R now s)) = view s"
proof -
  have z: "zset_key (view s) BotAliveKey" using assms by (simp add: bots_ok_def)
  obtain xs where xs: "fst (rd_zrangebyscore R BotAliveKey (Excl (now - BotTTL)) PosInf s) = Inr xs" "distinct xs"
      "set xs = {m. \<exists>sc. zset_at (view s) BotAliveKey m = Some sc \<and> in_range (Excl (now - BotTTL)) PosInf sc}"
    by (rule zrangebyscore_spec [OF z, of "Excl (now - BotTTL)" PosInf]) (rule that; assumption)
  then have "fst (GetConnectionsSummary R now s) = xs"
    by (simp add: GetConnectionsSummary_def case_prod_beta)
  with xs show "set (fst (GetConnectionsSummary R now s)) = {t. sh_online now t (shared_of (view s))}"
    and "distinct (fst (GetConnectionsSummary R now s))"
    by (simp_all add: sh_online_def in_range_online)
  show "view (snd (GetConnectionsSummary R now s)) = view s"
    by (simp add: GetConnectionsSummary_def case_prod_beta split: sum.splits)
qed

lemma doHeartbeat_refines:
  assumes ok: "bots_ok (view s)"
  shows "shared_of (view (doHeartbeat R now b s)) = sh_heartbeat now (fst ` set (b_bots b)) (shared_of (view s))"
    and "bots_ok (view (doHeartbeat R now b s))"
proof -
  let ?ms = "map (\<lambda>(token, _). (token, now)) (b_bots b)"
  have "map_of (rev ?ms) t = (if t \<in> fst ` set (b_bots b) then Some now else None)" for t
  proof (cases "t \<in> fst ` set (b_bots b)")
    case True
    then have "(t, now) \<in> set (rev ?ms)" by force
    then have "map_of (rev ?ms) t \<noteq> None" by (metis domI domIff map_of_eq_None_iff image_eqI fst_conv)
    then obtain v where v: "map_of (rev ?ms) t = Some v" by auto
    then have "(t, v) \<in> set (rev ?ms)" by (rule map_of_SomeD)
    then have "v = now" by auto
    with v True show ?thesis by simp
  next
    case False
    then show ?thesis by (auto simp: map_of_eq_None_iff image_iff)
  qed
  then have m: "zset_at (view s) BotAliveKey ++ map_of (rev ?ms) =
      (\<lambda>t. if t \<in> fst ` set (b_bots b) then Some now else zset_at (view s) BotAliveKey t)"
    by (auto simp: fun_eq_iff map_add_def)
  show "shared_of (view (doHeartbeat R now b s)) = sh_heartbeat now (fst ` set (b_bots b)) (shared_of (view s))"
  proof (cases "b_bots b = []")
    case False
    then show ?thesis
      using zadd_shared(1) [OF ok, of ?ms] m
      by (intro shared_eqI) (simp_all add: doHeartbeat_def Let_def sh_heartbeat_def fun_eq_iff)
  qed (simp add: doHeartbeat_def sh_heartbeat_def)
  show "bots_ok (view (doHeartbeat R now b s))"
    using zadd_shared(2) [OF ok, of ?ms] ok by (simp add: doHeartbeat_def Let_def)
qed

lemma cleanup_tokens_refines:
  assumes "bots_ok (view s)"
  shows "bots_ok (view (snd (cleanup_tokens R ts b s))) \<and>
    shared_of (view (snd (cleanup_tokens R ts b s))) =
      (sh_forget (set ts) (shared_of (view s)))\<lparr>sh_alive := sh_alive (shared_of (view s))\<rparr>"
  using assms
proof (induction ts arbitrary: b s)
  case Nil
  then show ?case by (simp add: sh_forget_empty)
next
  case (Cons t ts)
  note O = del_owner_shared [OF Cons.prems, of t]
  note G = del_gen_shared [OF O(2), of t]
  let ?s = "snd (rd_del R [BotGenPrefix @ t] (snd (rd_del R [BotOwnerPrefix @ t] s)))"
  have ok: "bots_ok (view ?s)" using G(2) by simp
  have sh: "shared_of (view ?s) = (sh_forget {t} (shared_of (view s)))\<lparr>sh_alive := sh_alive (shared_of (view s))\<rparr>"
    using G(1) O(1) by (intro shared_eqI) (auto simp: sh_forget_def fun_eq_iff restrict_map_def)
  have "(sh_forget (set ts) (shared_of (view ?s)))\<lparr>sh_alive := sh_alive (shared_of (view ?s))\<rparr> =
      (sh_forget (set (t # ts)) (shared_of (view s)))\<lparr>sh_alive := sh_alive (shared_of (view s))\<rparr>"
    unfolding sh by (rule shared_eqI) (auto simp: restrict_map_def fun_eq_iff)
  with Cons.IH [OF ok, of "enqueueArtifactCleanup t b"] show ?case
    by (simp only: cleanup_tokens.simps Let_def)
qed

lemma cleanupExpiredBots_refines:
  assumes ok: "bots_ok (view s)"
  shows "shared_of (view (snd (cleanupExpiredBots R now b s))) =
      sh_forget (expired_at now (shared_of (view s))) (shared_of (view s))"
    and "bots_ok (view (snd (cleanupExpiredBots R now b s)))"
proof -
  have z: "zset_key (view s) BotAliveKey" using ok by (simp add: bots_ok_def)
  let ?f = "rd_zrangebyscore R BotAliveKey NegInf (Incl (now - BotTTL)) s"
  obtain xs where xs: "fst ?f = Inr xs"
      "set xs = {m. \<exists>sc. zset_at (view s) BotAliveKey m = Some sc \<and> in_range NegInf (Incl (now - BotTTL)) sc}"
    by (rule zrangebyscore_spec [OF z, of NegInf "Incl (now - BotTTL)"]) (rule that; assumption)
  then have ex: "set xs = expired_at now (shared_of (view s))" by (simp add: expired_at_def in_range_expired)
  have v: "view (snd ?f) = view s" by simp
  have C: "cleanupExpiredBots R now b s = (if xs = [] then (b, snd ?f)
      else (fst (cleanup_tokens R xs b (snd ?f)),
        snd (rd_zremrangebyscore R BotAliveKey NegInf (Incl (now - BotTTL)) (snd (cleanup_tokens R xs b (snd ?f))))))"
    using xs(1) by (simp add: cleanupExpiredBots_def Let_def case_prod_beta)
  have ok1: "bots_ok (view (snd ?f))" using ok v by simp
  note T = cleanup_tokens_refines [OF ok1, of xs b, unfolded v]
  let ?st = "view (snd (cleanup_tokens R xs b (snd ?f)))"
  have "expired_at now (shared_of ?st) = expired_at now (shared_of (view s))"
    using T by (simp add: expired_at_def)
  then have Z: "shared_of (snd (sem_zremrangebyscore BotAliveKey NegInf (Incl (now - 30)) ?st)) =
      sh_forget (set xs) (shared_of (view s))"
    using zremrange_shared(1) [OF T [THEN conjunct1], of now] T ex
    by (intro shared_eqI) (simp_all add: sh_forget_def)
  note N = sh_forget_empty
  show "shared_of (view (snd (cleanupExpiredBots R now b s))) =
      sh_forget (expired_at now (shared_of (view s))) (shared_of (view s))"
    using C Z N v ex by (auto simp: BotTTL_def)
  show "bots_ok (view (snd (cleanupExpiredBots R now b s)))"
    using C zremrange_shared(2) [OF T [THEN conjunct1], of now] ok1 by (simp add: BotTTL_def)
qed

end

section \<open>The cleanup lock\<close>

definition lock_holder :: "store \<Rightarrow> string option" where
  "lock_holder st = str_at st CleanupLockKey"

lemma kv_sem_del1: "kv (snd (sem_del [k] st)) k' = (if k' = k then None else kv st k')"
  by (simp add: sem_del_def)

text \<open>Neither script touches a lock held by another worker.\<close>

lemma release_other: "lock_holder st \<noteq> Some w \<Longrightarrow> releaseCleanupLockScript w st = (0, st)"
  by (simp add: releaseCleanupLockScript_def lock_holder_def)

lemma extend_other: "lock_holder st \<noteq> Some w \<Longrightarrow> extendCleanupLockScript w ms st = (0, st)"
  by (simp add: extendCleanupLockScript_def lock_holder_def)

text \<open>A worker extends and releases the cleanup lock only while it holds it.\<close>

lemma lock_scripts_respect_holder:
  assumes "lock_holder st \<noteq> Some w"
  shows "releaseCleanupLockScript w st = (0, st) \<and> extendCleanupLockScript w ms st = (0, st)"
  using assms by (simp add: release_other extend_other)

lemma extend_kv: "kv (snd (extendCleanupLockScript w ms st)) = kv st"
  by (simp add: extendCleanupLockScript_def)

context redis_up begin

lemma cleanup_tokens_lock:
  "kv (view (snd (cleanup_tokens R ts b s))) CleanupLockKey = kv (view s) CleanupLockKey"
  by (induction ts arbitrary: b s) (simp_all add: Let_def kv_sem_del1 key_simps)

lemma cleanupExpiredBots_lock:
  "kv (view (snd (cleanupExpiredBots R now b s))) CleanupLockKey = kv (view s) CleanupLockKey"
  by (auto simp: cleanupExpiredBots_def Let_def case_prod_beta cleanup_tokens_lock
      sem_zremrangebyscore_def kv_put_zset key_simps split: sum.splits)

lemma renewal_kv: "kv (view (renewCleanupLock R b s)) = kv (view s)"
  by (simp add: renewCleanupLock_def sem_eval_def case_prod_beta extend_kv)

lemma renewals_kv: "kv (view ((renewCleanupLock R b ^^ n) s)) = kv (view s)"
  by (induction n) (simp_all add: renewal_kv)

lemma doCleanup_locked:
  assumes "kv (view s) CleanupLockKey \<noteq> None"
  shows "fst (doCleanup R now n b s) = b" and "view (snd (doCleanup R now n b s)) = view s"
proof -
  have "fst (rd_setnx R CleanupLockKey (b_worker b) CleanupLockTTL s) = Inr False"
    "view (snd (rd_setnx R CleanupLockKey (b_worker b) CleanupLockTTL s)) = view s"
    using assms by (auto simp: sem_setnx_def)
  then show "fst (doCleanup R now n b s) = b" "view (snd (doCleanup R now n b s)) = view s"
    by (cases "rd_setnx R CleanupLockKey (b_worker b) CleanupLockTTL s"; simp add: doCleanup_def)+
qed

lemma doCleanup_refines:
  assumes ok: "bots_ok (view s)" and free: "kv (view s) CleanupLockKey = None"
  shows "shared_of (view (snd (doCleanup R now n b s))) =
      sh_forget (expired_at now (shared_of (view s))) (shared_of (view s))"
    and "bots_ok (view (snd (doCleanup R now n b s)))"
    and "kv (view (snd (doCleanup R now n b s))) CleanupLockKey = None"
proof -
  let ?w = "b_worker b"
  obtain r1 s1 where l: "rd_setnx R CleanupLockKey ?w CleanupLockTTL s = (r1, s1)"
    by (cases "rd_setnx R CleanupLockKey ?w CleanupLockTTL s")
  have r1: "r1 = Inr True"
    and v1: "view s1 = set_ttl CleanupLockKey CleanupLockTTL (put_key CleanupLockKey (VStr ?w) (view s))"
    using reply(3) [of CleanupLockKey ?w CleanupLockTTL s] next_view(3) [of CleanupLockKey ?w CleanupLockTTL s] free l
    by (simp_all add: sem_setnx_def)
  have sh1: "shared_of (view s1) = shared_of (view s)" and ok1: "bots_ok (view s1)"
    using v1 ok by (simp_all add: kv_drop_lock)
  obtain b2 s2 where c: "cleanupExpiredBots R now b s1 = (b2, s2)" by (cases "cleanupExpiredBots R now b s1")
  note C = cleanupExpiredBots_refines [OF ok1, of now b, unfolded c snd_conv sh1]
  let ?s3 = "(renewCleanupLock R b ^^ n) s2"
  have kv3: "kv (view ?s3) = kv (view s2)" by (rule renewals_kv)
  have own: "str_at (view ?s3) CleanupLockKey = Some ?w"
    using cleanupExpiredBots_lock [of now b s1] c v1 kv3 by (simp add: str_at_def)
  have sh3: "shared_of (view ?s3) = shared_of (view s2) \<and> bots_ok (view ?s3) = bots_ok (view s2)"
    by (rule shared_cong) (simp_all add: kv3)
  have fin: "view (releaseCleanupLock R b ?s3) = drop_key CleanupLockKey (view ?s3)"
    using own by (simp add: releaseCleanupLock_def sem_eval_def releaseCleanupLockScript_def)
  have d: "snd (doCleanup R now n b s) = releaseCleanupLock R b ?s3"
    using l r1 c by (simp add: doCleanup_def)
  show "shared_of (view (snd (doCleanup R now n b s))) =
      sh_forget (expired_at now (shared_of (view s))) (shared_of (view s))"
    using d fin sh3 C by (simp add: kv_drop_lock)
  show "bots_ok (view (snd (doCleanup R now n b s)))" using d fin sh3 C by (simp add: kv_drop_lock)
  show "kv (view (snd (doCleanup R now n b s))) CleanupLockKey = None" using d fin by simp
qed

end

section \<open>Shutdown\<close>

text \<open>What a worker's shutdown leaves: every bot whose generation is not newer than the worker's.\<close>

fun sh_shutdown :: "(string \<times> int) list \<Rightarrow> shared \<Rightarrow> shared" where
  "sh_shutdown [] sh = sh"
| "sh_shutdown ((t, g) # rest) sh = sh_shutdown rest (sh_unregister t g sh)"

lemma close_gens [simp]: "local_gen t (Close c k m b) = local_gen t b"
  by (simp add: local_gen_def bridge_simps)

context redis_up begin

lemma shutdown_bots_refines:
  assumes "bots_ok (view s)"
  shows "shared_of (view (snd (shutdown_bots R bs b s))) =
      sh_shutdown (map (\<lambda>(t, _). (t, local_gen t b)) bs) (shared_of (view s)) \<and>
    bots_ok (view (snd (shutdown_bots R bs b s)))"
  using assms
proof (induction bs arbitrary: b s)
  case (Cons x bs)
  obtain t c where x: "x = (t, c)" by (cases x)
  let ?g = "local_gen t b" and ?b = "Close c (ae_status ErrWSServerRestart) (ae_message ErrWSServerRestart) b"
  let ?s = "snd (shouldSkipSharedCleanup R t ?g s)"
  have ok1: "bots_ok (view ?s)" using skip_reply(2) [OF Cons.prems] Cons.prems by simp
  let ?bs = "if newer_gen t ?g (shared_of (view s)) then (?b, ?s) else cleanupSharedBotState R t True ?b ?s"
  have e: "shutdown_bots R (x # bs) b s = shutdown_bots R bs (fst ?bs) (snd ?bs)"
    using skip_reply(1) [OF Cons.prems, of t ?g] x by (simp add: Let_def case_prod_beta)
  have sh: "shared_of (view (snd ?bs)) = sh_unregister t ?g (shared_of (view s))" "bots_ok (view (snd ?bs))"
    using cleanup_shared_refines [OF ok1, of t ?b] skip_reply(2) [OF Cons.prems] ok1
    by (simp_all add: sh_unregister_def)
  have lg: "local_gen u (fst ?bs) = local_gen u b" for u
    by (simp add: local_gen_def bridge_simps)
  show ?case unfolding e using Cons.IH [OF sh(2), of "fst ?bs"] sh(1) lg x by simp
qed simp

lemma Shutdown_refines:
  assumes "bots_ok (view s)" "Shutdown R b s = (b', s')"
  shows "shared_of (view s') = sh_shutdown (map (\<lambda>(t, _). (t, local_gen t b)) (b_bots b)) (shared_of (view s))"
    and "bots_ok (view s')" and "b_down b'" and "b_cancelled b'"
  using shutdown_bots_refines [OF assms(1), of "b_bots b" "b\<lparr>b_down := True\<rparr>"] assms(2)
  by (auto simp: Shutdown_def case_prod_beta local_gen_def bridge_simps)

end

lemma sh_shutdown_other:
  "t \<notin> fst ` set gs \<Longrightarrow> sh_alive (sh_shutdown gs sh) t = sh_alive sh t \<and>
     sh_owner (sh_shutdown gs sh) t = sh_owner sh t \<and> sh_gen (sh_shutdown gs sh) t = sh_gen sh t"
proof (induction gs sh rule: sh_shutdown.induct)
  case (2 u g rest sh)
  then show ?case by (auto simp: sh_unregister_def restrict_map_def)
qed simp

end
