(* ===== verification/Translate.thy ===== *)
theory Translate
  imports Json
begin

text \<open>
  \<open>TranslateBotEvent\<close> and \<open>getNestedString\<close> of \<open>internal/service/bridge.go\<close>: from a bot's JSON-RPC
  notification to the event the chat stream shows. A nil map is \<open>None\<close>.
\<close>

definition getNestedString :: "gomap option \<Rightarrow> string \<Rightarrow> string option" where
  "getNestedString m key = (case m of None \<Rightarrow> None | Some m \<Rightarrow> jfield_str m key)"

definition gomap_of :: "(string \<times> json) list \<Rightarrow> gomap" where
  "gomap_of kvs = obj_of kvs"

text \<open>The zero value of a missing key is nil.\<close>

definition jget :: "gomap \<Rightarrow> string \<Rightarrow> json" where
  "jget m k = (case map_of m k of Some v \<Rightarrow> v | None \<Rightarrow> JNull)"

definition or_default :: "string \<Rightarrow> string \<Rightarrow> string" where
  "or_default s d = (if s = '''' then d else s)"

text \<open>The text of a tool result: a string, the \<open>text\<close> of an object, or the printed value.\<close>

definition tool_result_text :: "json \<Rightarrow> string" where
  "tool_result_text v =
     (case v of
        JStr s \<Rightarrow> s
      | JObj m \<Rightarrow> or_empty (jfield_str m ''text'')
      | JNull \<Rightarrow> ''''
      | _ \<Rightarrow> json_marshal v)"

definition tool_call_input :: "json \<Rightarrow> string" where
  "tool_call_input v = (case v of JStr s \<Rightarrow> s | JNull \<Rightarrow> '''' | _ \<Rightarrow> json_marshal v)"

definition translate_media :: "gomap option \<Rightarrow> gomap option" where
  "translate_media content =
     (case content of
        None \<Rightarrow> None
      | Some c \<Rightarrow>
          (case jfield_obj c ''media'' of
             None \<Rightarrow> None
           | Some media \<Rightarrow>
               let downloadURL = or_empty (jfield_str media ''downloadUrl'') in
               if downloadURL = '''' then None
               else
                 let caption = or_empty (getNestedString content ''text'');
                     data = [(''type'', JStr ''url''), (''content'', JStr downloadURL)] @
                            (if caption \<noteq> '''' then [(''caption'', JStr caption)] else [])
                 in Some (gomap_of [(''type'', JStr ''media''), (''data'', jobj data)])))"

definition TranslateBotEvent :: "string \<Rightarrow> gomap option \<Rightarrow> gomap option" where
  "TranslateBotEvent meth params =
     (if meth \<noteq> ''session/update'' then None
      else case params of
        None \<Rightarrow> None
      | Some ps \<Rightarrow>
          (case jfield_obj ps ''update'' of
             None \<Rightarrow> None
           | Some update \<Rightarrow>
               let updateType = or_empty (jfield_str update ''sessionUpdate'');
                   content = jfield_obj update ''content'';
                   text = or_empty (getNestedString content ''text'');
                   title = or_default (or_empty (jfield_str update ''title'')) ''tool'';
                   status = or_default (or_empty (jfield_str update ''status'')) ''completed''
               in
               if updateType = ''agent_message_chunk'' then
                 Some (gomap_of [(''type'', JStr ''chunk''), (''content'', JStr text)])
               else if updateType = ''agent_message_final'' then
                 Some (gomap_of [(''type'', JStr ''done''), (''content'', JStr text)])
               else if updateType = ''tool_result'' then
                 Some (gomap_of [(''type'', JStr ''tool_result''), (''name'', JStr title),
                   (''status'', JStr status), (''content'', JStr (tool_result_text (jget update ''content'')))])
               else if updateType = ''agent_thought_chunk'' then
                 Some (gomap_of [(''type'', JStr ''thinking''), (''content'', JStr text)])
               else if updateType = ''tool_call'' then
                 Some (gomap_of [(''type'', JStr ''tool_call''), (''name'', JStr title),
                   (''input'', JStr (tool_call_input (jget update ''content'')))])
               else if updateType = ''agent_media'' then translate_media content
               else
                 (case content of
                    None \<Rightarrow> None
                  | Some c \<Rightarrow>
                      (case jfield_str c ''text'' of
                         Some t \<Rightarrow> Some (gomap_of [(''type'', JStr ''chunk''), (''content'', JStr t)])
                       | None \<Rightarrow> None))))"

section \<open>The shape of a chat event\<close>

text \<open>What the chat stream relies on: a known type, and string fields, or for media a URL.\<close>

definition event_type :: "gomap \<Rightarrow> string" where
  "event_type ev = or_empty (jfield_str ev ''type'')"

definition has_str :: "gomap \<Rightarrow> string \<Rightarrow> bool" where
  "has_str m k \<longleftrightarrow> jfield_str m k \<noteq> None"

definition chat_event :: "gomap \<Rightarrow> bool" where
  "chat_event ev \<longleftrightarrow>
     keys_sorted ev \<and>
     (if event_type ev \<in> {''chunk'', ''done'', ''thinking''} then dom (map_of ev) = {''type'', ''content''} \<and> has_str ev ''content''
      else if event_type ev = ''tool_result'' then
        dom (map_of ev) = {''type'', ''name'', ''status'', ''content''} \<and>
        has_str ev ''content'' \<and> or_empty (jfield_str ev ''name'') \<noteq> '''' \<and> or_empty (jfield_str ev ''status'') \<noteq> ''''
      else if event_type ev = ''tool_call'' then
        dom (map_of ev) = {''type'', ''name'', ''input''} \<and> has_str ev ''input'' \<and> or_empty (jfield_str ev ''name'') \<noteq> ''''
      else event_type ev = ''media'' \<and>
        (\<exists>d. jfield_obj ev ''data'' = Some d \<and> jfield_str d ''type'' = Some ''url'' \<and>
             or_empty (jfield_str d ''content'') \<noteq> '''' \<and> jfield_str d ''caption'' \<noteq> Some ''''))"

lemma map_of_gomap_of: "distinct (map fst kvs) \<Longrightarrow> map_of (gomap_of kvs) = map_of kvs"
proof -
  have "map_of (obj_of kvs) = map_of (rev kvs)"
    by (induction kvs rule: rev_induct) (auto simp: obj_of_snoc obj_of_def fun_eq_iff)
  moreover assume "distinct (map fst kvs)"
  then have "map_of (rev kvs) = map_of kvs" by (subst map_of_inject_set) (simp_all add: rev_map [symmetric])
  ultimately show ?thesis by (simp add: gomap_of_def)
qed

lemma gomap_of_sorted: "keys_sorted (gomap_of kvs)"
  by (simp add: gomap_of_def keys_sorted_obj_of)

lemmas event_defs = chat_event_def event_type_def has_str_def jfield_str_def jfield_obj_def

lemma or_default_nonempty: "d \<noteq> '''' \<Longrightarrow> or_default s d \<noteq> ''''"
  by (simp add: or_default_def)

lemma text_event: "t \<in> {''chunk'', ''done'', ''thinking''} \<Longrightarrow>
    chat_event (gomap_of [(''type'', JStr t), (''content'', JStr x)])"
  by (auto simp: event_defs map_of_gomap_of gomap_of_sorted)

lemma tool_result_event: "n \<noteq> '''' \<Longrightarrow> st \<noteq> '''' \<Longrightarrow>
    chat_event (gomap_of [(''type'', JStr ''tool_result''), (''name'', JStr n), (''status'', JStr st), (''content'', JStr x)])"
  by (auto simp: event_defs map_of_gomap_of gomap_of_sorted)

lemma tool_call_event: "n \<noteq> '''' \<Longrightarrow>
    chat_event (gomap_of [(''type'', JStr ''tool_call''), (''name'', JStr n), (''input'', JStr x)])"
  by (auto simp: event_defs map_of_gomap_of gomap_of_sorted)

lemma media_event:
  assumes "translate_media content = Some ev"
  shows "chat_event ev"
proof -
  obtain c media where c: "content = Some c" "jfield_obj c ''media'' = Some media"
    using assms by (auto simp: translate_media_def split: option.splits)
  define u where "u = or_empty (jfield_str media ''downloadUrl'')"
  define cap where "cap = or_empty (getNestedString content ''text'')"
  have "u \<noteq> []" and "ev = gomap_of [(''type'', JStr ''media''), (''data'', jobj
      ([(''type'', JStr ''url''), (''content'', JStr u)] @ (if cap \<noteq> '''' then [(''caption'', JStr cap)] else [])))]"
    using assms c by (auto simp: translate_media_def Let_def u_def cap_def split: if_splits)
  then show ?thesis
    by (auto simp: event_defs map_of_gomap_of gomap_of_sorted jobj_def
        map_of_gomap_of [unfolded gomap_of_def])
qed

lemma translate_chat_event:
  assumes "TranslateBotEvent meth params = Some ev"
  shows "chat_event ev"
  using assms unfolding TranslateBotEvent_def
  by (auto simp: Let_def or_default_nonempty intro!: text_event tool_result_event tool_call_event
      dest: media_event split: option.splits if_splits)

end
