(* ===== verification/Url.thy ===== *)
theory Url
  imports Json
begin

text \<open>
  The part of Go's \<open>net/url\<close> that \<open>ensureEncodedURL\<close> of \<open>internal/service/bridge.go\<close> uses
  (\<open>Parse\<close>, \<open>PathUnescape\<close>, \<open>PathEscape\<close>, \<open>URL.String\<close>), and that function.
\<close>

section \<open>Escaping\<close>

datatype url_mode = EncPath | EncPathSegment | EncHost | EncZone | EncUserPassword | EncFragment

definition is_alnum :: "char \<Rightarrow> bool" where
  "is_alnum c = (let n = (of_char c :: nat) in
     48 \<le> n \<and> n \<le> 57 \<or> 65 \<le> n \<and> n \<le> 90 \<or> 97 \<le> n \<and> n \<le> 122)"

definition should_escape :: "char \<Rightarrow> url_mode \<Rightarrow> bool" where
  "should_escape c mode =
     (if is_alnum c then False
      else if mode \<in> {EncHost, EncZone} \<and> c \<in> set ''!$&()*+,;=:[]<>'' \<union> {CHR 0x27, CHR 0x22} then False
      else if c \<in> set ''-_.~'' then False
      else if c \<in> set ''$&+,/:;=?@'' \<and> mode \<in> {EncPath, EncPathSegment, EncUserPassword, EncFragment} then
        (case mode of
           EncPath \<Rightarrow> c = CHR ''?''
         | EncPathSegment \<Rightarrow> c \<in> set ''/;,?''
         | EncUserPassword \<Rightarrow> c \<in> set ''@/?:''
         | _ \<Rightarrow> False)
      else if mode = EncFragment \<and> c \<in> set ''!()*'' then False
      else True)"

definition upper_hex :: "nat \<Rightarrow> char" where
  "upper_hex n = (if n < 10 then char_of (48 + n) else char_of (55 + n))"

definition pct :: "char \<Rightarrow> string" where
  "pct c = [CHR ''%'', upper_hex ((of_char c :: nat) div 16), upper_hex ((of_char c :: nat) mod 16)]"

definition url_escape :: "url_mode \<Rightarrow> string \<Rightarrow> string" where
  "url_escape mode s = concat (map (\<lambda>c. if should_escape c mode then pct c else [c]) s)"

text \<open>\<open>unescape\<close> fails on a bad percent sequence, and in a host on a byte that may not appear there.\<close>

definition host_pct_bad :: "url_mode \<Rightarrow> nat \<Rightarrow> nat \<Rightarrow> bool" where
  "host_pct_bad mode h l =
     (let v = 16 * h + l; is25 = (h = 2 \<and> l = 5) in
      mode = EncHost \<and> h < 8 \<and> \<not> is25 \<or>
      mode = EncZone \<and> \<not> is25 \<and> v \<noteq> 32 \<and> should_escape (char_of v) EncHost)"

fun url_unescape :: "url_mode \<Rightarrow> string \<Rightarrow> string option" where
  "url_unescape mode [] = Some []"
| "url_unescape mode (c # cs) =
     (if c = CHR ''%'' then
        (case cs of
           a # b # rest \<Rightarrow>
             (case (hex_val a, hex_val b) of
                (Some h, Some l) \<Rightarrow>
                  if host_pct_bad mode h l then None
                  else map_option ((#) (char_of (16 * h + l))) (url_unescape mode rest)
              | _ \<Rightarrow> None)
         | _ \<Rightarrow> None)
      else if mode \<in> {EncHost, EncZone} \<and> (of_char c :: nat) < 128 \<and> should_escape c mode then None
      else map_option ((#) c) (url_unescape mode cs))"

definition valid_encoded :: "url_mode \<Rightarrow> string \<Rightarrow> bool" where
  "valid_encoded mode s =
     list_all (\<lambda>c. c \<in> set ''!$&()*+,;=:@[]%'' \<union> {CHR 0x27} \<or> \<not> should_escape c mode) s"

definition PathEscape :: "string \<Rightarrow> string" where "PathEscape = url_escape EncPathSegment"
definition PathUnescape :: "string \<Rightarrow> string option" where "PathUnescape = url_unescape EncPathSegment"

section \<open>Parsing\<close>

record url =
  u_scheme :: string
  u_opaque :: string
  u_user :: "(string \<times> string option) option"
  u_host :: string
  u_path :: string
  u_raw_path :: string
  u_omit_host :: bool
  u_force_query :: bool
  u_raw_query :: string
  u_fragment :: string
  u_raw_fragment :: string

text \<open>\<open>strings.Cut\<close> at a byte, and at its last occurrence.\<close>

definition cut_at :: "char \<Rightarrow> string \<Rightarrow> string \<times> string" where
  "cut_at d s = (takeWhile (\<lambda>c. c \<noteq> d) s, tl (dropWhile (\<lambda>c. c \<noteq> d) s))"

definition cut_last :: "char \<Rightarrow> string \<Rightarrow> (string \<times> string) option" where
  "cut_last d s =
     (if d \<in> set s then
        (let r = rev s in Some (rev (tl (dropWhile (\<lambda>c. c \<noteq> d) r)), rev (takeWhile (\<lambda>c. c \<noteq> d) r)))
      else None)"

text \<open>\<open>getScheme\<close>: letters, then also digits, plus, minus and dot, up to a colon.\<close>

fun scheme_loop :: "string \<Rightarrow> string \<Rightarrow> string \<Rightarrow> (string \<times> string) option" where
  "scheme_loop whole acc [] = Some ([], whole)"
| "scheme_loop whole acc (c # cs) =
     (if is_alnum c \<and> \<not> is_digit c then scheme_loop whole (acc @ [c]) cs
      else if is_digit c \<or> c \<in> set ''+-.'' then
        (if acc = [] then Some ([], whole) else scheme_loop whole (acc @ [c]) cs)
      else if c = CHR '':'' then (if acc = [] then None else Some (acc, cs))
      else Some ([], whole))"

definition valid_optional_port :: "string \<Rightarrow> bool" where
  "valid_optional_port port =
     (case port of [] \<Rightarrow> True | c # ds \<Rightarrow> c = CHR '':'' \<and> list_all is_digit ds)"

text \<open>A host may hold one colon, ahead of its port. That the text between brackets is an IPv6
  address is not checked here.\<close>

definition parse_host :: "string \<Rightarrow> string option" where
  "parse_host host =
     (if has_prefix host ''['' then
        (case cut_last (CHR '']'') host of
           None \<Rightarrow> None
         | Some (pre, post) \<Rightarrow>
             if \<not> valid_optional_port post then None
             else (case str_index pre ''%25'' of
                     None \<Rightarrow> url_unescape EncHost host
                   | Some z \<Rightarrow>
                       (case (url_unescape EncHost (take z pre), url_unescape EncZone (drop z pre),
                              url_unescape EncHost (CHR '']'' # post)) of
                          (Some h1, Some h2, Some h3) \<Rightarrow> Some (h1 @ h2 @ h3)
                        | _ \<Rightarrow> None)))
      else
        if CHR '':'' \<notin> set host \<or> valid_optional_port (CHR '':'' # snd (cut_at (CHR '':'') host))
        then url_unescape EncHost host else None)"

definition valid_userinfo :: "string \<Rightarrow> bool" where
  "valid_userinfo s = list_all (\<lambda>c. is_alnum c \<or> c \<in> set ''-._:~!$&()*+,;=%@'' \<union> {CHR 0x27}) s"

definition parse_authority :: "string \<Rightarrow> ((string \<times> string option) option \<times> string) option" where
  "parse_authority authority =
     (case cut_last (CHR ''@'') authority of
        None \<Rightarrow> map_option (\<lambda>h. (None, h)) (parse_host authority)
      | Some (userinfo, hostpart) \<Rightarrow>
          (case parse_host hostpart of
             None \<Rightarrow> None
           | Some h \<Rightarrow>
               if \<not> valid_userinfo userinfo then None
               else if CHR '':'' \<notin> set userinfo then
                 map_option (\<lambda>u. (Some (u, None), h)) (url_unescape EncUserPassword userinfo)
               else (case cut_at (CHR '':'') userinfo of (u, p) \<Rightarrow>
                 (case (url_unescape EncUserPassword u, url_unescape EncUserPassword p) of
                    (Some u', Some p') \<Rightarrow> Some (Some (u', Some p'), h) | _ \<Rightarrow> None))))"

definition empty_url :: url where
  "empty_url = \<lparr>u_scheme = [], u_opaque = [], u_user = None, u_host = [], u_path = [], u_raw_path = [],
     u_omit_host = False, u_force_query = False, u_raw_query = [], u_fragment = [], u_raw_fragment = []\<rparr>"

definition set_path :: "string \<Rightarrow> url \<Rightarrow> url option" where
  "set_path p u =
     map_option (\<lambda>path. u\<lparr>u_path := path, u_raw_path := (if p = url_escape EncPath path then [] else p)\<rparr>)
       (url_unescape EncPath p)"

definition set_fragment :: "string \<Rightarrow> url \<Rightarrow> url option" where
  "set_fragment f u =
     map_option (\<lambda>fr. u\<lparr>u_fragment := fr, u_raw_fragment := (if f = url_escape EncFragment fr then [] else f)\<rparr>)
       (url_unescape EncFragment f)"

definition is_ctl :: "char \<Rightarrow> bool" where
  "is_ctl c = (let n = (of_char c :: nat) in n < 32 \<or> n = 127)"

definition url_parse_path :: "url \<Rightarrow> string \<Rightarrow> url option" where
  "url_parse_path u rest =
     (if \<not> has_prefix rest ''/'' \<and> u_scheme u \<noteq> [] then Some (u\<lparr>u_opaque := rest\<rparr>)
      else if \<not> has_prefix rest ''/'' \<and> CHR '':'' \<in> set (fst (cut_at (CHR ''/'') rest)) then None
      else if (u_scheme u \<noteq> [] \<or> \<not> has_prefix rest ''///'') \<and> has_prefix rest ''//'' then
        (let authority = takeWhile (\<lambda>c. c \<noteq> CHR ''/'') (drop 2 rest);
             path = dropWhile (\<lambda>c. c \<noteq> CHR ''/'') (drop 2 rest)
         in case parse_authority authority of
              None \<Rightarrow> None
            | Some (user, host) \<Rightarrow> set_path path (u\<lparr>u_user := user, u_host := host\<rparr>))
      else set_path rest (if u_scheme u \<noteq> [] \<and> has_prefix rest ''/'' then u\<lparr>u_omit_host := True\<rparr> else u))"

definition url_parse :: "string \<Rightarrow> url option" where
  "url_parse rawURL =
     (case cut_at (CHR ''#'') rawURL of (whole, frag) \<Rightarrow>
        if list_ex is_ctl whole then None
        else
          let parsed =
            (if whole = ''*'' then Some (empty_url\<lparr>u_path := ''*''\<rparr>)
             else case scheme_loop whole [] whole of
               None \<Rightarrow> None
             | Some (scheme, rest) \<Rightarrow>
                 let u = empty_url\<lparr>u_scheme := to_lower scheme\<rparr> in
                 if has_suffix rest ''?'' \<and> length (filter (\<lambda>c. c = CHR ''?'') rest) = 1
                 then url_parse_path (u\<lparr>u_force_query := True\<rparr>) (butlast rest)
                 else (case cut_at (CHR ''?'') rest of (r, q) \<Rightarrow> url_parse_path (u\<lparr>u_raw_query := q\<rparr>) r))
          in case parsed of
               None \<Rightarrow> None
             | Some u \<Rightarrow> if frag = [] then Some u else set_fragment frag u)"

section \<open>Printing\<close>

definition EscapedPath :: "url \<Rightarrow> string" where
  "EscapedPath u =
     (if u_raw_path u \<noteq> [] \<and> valid_encoded EncPath (u_raw_path u) \<and>
         url_unescape EncPath (u_raw_path u) = Some (u_path u) then u_raw_path u
      else if u_path u = ''*'' then ''*''
      else url_escape EncPath (u_path u))"

definition EscapedFragment :: "url \<Rightarrow> string" where
  "EscapedFragment u =
     (if u_raw_fragment u \<noteq> [] \<and> valid_encoded EncFragment (u_raw_fragment u) \<and>
         url_unescape EncFragment (u_raw_fragment u) = Some (u_fragment u) then u_raw_fragment u
      else url_escape EncFragment (u_fragment u))"

definition userinfo_string :: "string \<times> string option \<Rightarrow> string" where
  "userinfo_string ui = (case ui of
     (u, None) \<Rightarrow> url_escape EncUserPassword u
   | (u, Some p) \<Rightarrow> url_escape EncUserPassword u @ '':'' @ url_escape EncUserPassword p)"

definition url_string :: "url \<Rightarrow> string" where
  "url_string u =
     (let scheme = (if u_scheme u \<noteq> [] then u_scheme u @ '':'' else []);
          hier =
            (if u_opaque u \<noteq> [] then scheme @ u_opaque u
             else
               let auth =
                 (if (u_scheme u \<noteq> [] \<or> u_host u \<noteq> [] \<or> u_user u \<noteq> None) \<and>
                     \<not> (u_omit_host u \<and> u_host u = [] \<and> u_user u = None) then
                    (if u_host u \<noteq> [] \<or> u_path u \<noteq> [] \<or> u_user u \<noteq> None then ''//'' else []) @
                    (case u_user u of Some ui \<Rightarrow> userinfo_string ui @ ''@'' | None \<Rightarrow> []) @
                    url_escape EncHost (u_host u)
                  else []);
                 path = EscapedPath u;
                 buf = scheme @ auth @
                   (if path \<noteq> [] \<and> \<not> has_prefix path ''/'' \<and> u_host u \<noteq> [] then ''/'' else []);
                 dot = (if buf = [] \<and> CHR '':'' \<in> set (fst (cut_at (CHR ''/'') path)) then ''./'' else [])
               in buf @ dot @ path);
          query = (if u_force_query u \<or> u_raw_query u \<noteq> [] then ''?'' @ u_raw_query u else []);
          frag = (if u_fragment u \<noteq> [] then ''#'' @ EscapedFragment u else [])
      in hier @ query @ frag)"

section \<open>ensureEncodedURL\<close>

text \<open>\<open>strings.ReplaceAll(\<dots>, "%2F", "/")\<close>.\<close>

fun restore_slashes :: "string \<Rightarrow> string" where
  "restore_slashes [] = []"
| "restore_slashes (c # cs) =
     (if has_prefix (c # cs) ''%2F'' then CHR ''/'' # restore_slashes (drop 2 cs)
      else c # restore_slashes cs)"

definition ensureEncodedURL :: "string \<Rightarrow> string" where
  "ensureEncodedURL rawURL =
     (case url_parse rawURL of
        None \<Rightarrow> rawURL
      | Some parsed \<Rightarrow>
          (case PathUnescape (u_path parsed) of
             None \<Rightarrow> rawURL
           | Some decoded \<Rightarrow>
               url_string (parsed\<lparr>u_raw_path := restore_slashes (PathEscape decoded)\<rparr>)))"

section \<open>Escaping round trips\<close>

lemma upper_hex_val: "n < 16 \<Longrightarrow> hex_val (upper_hex n) = Some n"
  by (auto simp: hex_val_def upper_hex_def Let_def)

lemma percent_escaped: "should_escape (CHR ''%'') mode"
  by (cases mode) (simp_all add: should_escape_def is_alnum_def)

lemma char_nibbles: "char_of (16 * ((of_char c :: nat) div 16) + (of_char c :: nat) mod 16) = c"
  by simp

lemma unescape_pct:
  "mode \<notin> {EncHost, EncZone} \<Longrightarrow>
   url_unescape mode (pct c @ s) = map_option ((#) c) (url_unescape mode s)"
  using upper_hex_val [of "(of_char c :: nat) div 16"] upper_hex_val [of "(of_char c :: nat) mod 16"]
  by (auto simp: pct_def host_pct_bad_def Let_def less_mult_imp_div_less)

lemma unescape_escape:
  assumes "mode \<notin> {EncHost, EncZone}"
  shows "url_unescape mode (url_escape mode s) = Some s"
proof (induction s)
  case (Cons c s)
  show ?case
  proof (cases "should_escape c mode")
    case True
    then show ?thesis using Cons unescape_pct [OF assms] by (simp add: url_escape_def)
  next
    case False
    then have "c \<noteq> CHR ''%''" using percent_escaped by metis
    then show ?thesis using Cons False assms by (simp add: url_escape_def)
  qed
qed (simp add: url_escape_def)

text \<open>The escaped path with its slashes restored still unescapes to the path.\<close>

lemma restore_slashes_no: "CHR ''%'' \<notin> set s \<Longrightarrow> restore_slashes s = s"
  by (induction s) (auto simp: has_prefix_def)

lemma restore_pct:
  "restore_slashes (pct c @ s) = (if c = CHR ''/'' then CHR ''/'' # restore_slashes s else pct c @ restore_slashes s)"
proof -
  let ?h = "upper_hex ((of_char c :: nat) div 16)" and ?l = "upper_hex ((of_char c :: nat) mod 16)"
  have d: "(of_char c :: nat) div 16 < 16" "(of_char c :: nat) mod 16 < 16"
    by (simp_all add: less_mult_imp_div_less)
  have code: "(of_char (upper_hex n) :: nat) = (if n < 10 then 48 + n else 55 + n)" if "n < 16" for n
    using that by (simp add: upper_hex_def)
  have not_pct: "upper_hex n \<noteq> CHR ''%''" if "n < 16" for n
    using code [OF that] by (auto split: if_splits)
  have "?h = CHR ''2'' \<and> ?l = CHR ''F'' \<longleftrightarrow> c = CHR ''/''"
  proof
    assume "?h = CHR ''2'' \<and> ?l = CHR ''F''"
    then have "(of_char ?h :: nat) = 50" "(of_char ?l :: nat) = 70" by simp_all
    then have "(of_char c :: nat) div 16 = 2" "(of_char c :: nat) mod 16 = 15"
      using code d by (auto split: if_splits)
    then have "(of_char c :: nat) = of_char (CHR ''/'')"
      using div_mult_mod_eq [of "of_char c :: nat" 16] by simp
    then show "c = CHR ''/''" by (simp only: of_char_eq_iff)
  next
    assume "c = CHR ''/''"
    then have "(of_char ?h :: nat) = of_char (CHR ''2'')" "(of_char ?l :: nat) = of_char (CHR ''F'')"
      using code by simp_all
    then show "?h = CHR ''2'' \<and> ?l = CHR ''F''" by (simp only: of_char_eq_iff)
  qed
  then show ?thesis using not_pct d by (auto simp: pct_def has_prefix_def)
qed

lemma unescape_restored:
  "url_unescape EncPath (restore_slashes (PathEscape s)) = Some s"
proof (induction s)
  case (Cons c s)
  have e: "PathEscape (c # s) = (if should_escape c EncPathSegment then pct c else [c]) @ PathEscape s"
    by (simp add: PathEscape_def url_escape_def)
  show ?case
  proof (cases "should_escape c EncPathSegment")
    case True
    then show ?thesis using Cons e restore_pct unescape_pct [of EncPath] by simp
  next
    case False
    then have "c \<noteq> CHR ''%''" using percent_escaped by metis
    then show ?thesis using Cons e False by (simp add: has_prefix_def)
  qed
qed (simp add: PathEscape_def url_escape_def)

text \<open>Whatever raw path is set, the printed path unescapes to the path of the URL.\<close>

lemma escaped_path_sound: "url_unescape EncPath (EscapedPath u) = Some (u_path u)"
  by (auto simp: EscapedPath_def unescape_escape)

text \<open>A path without percent signs is printed segment by segment, with its slashes kept.\<close>

lemma PathUnescape_plain: "CHR ''%'' \<notin> set p \<Longrightarrow> PathUnescape p = Some p"
proof -
  have "CHR ''%'' \<notin> set p \<Longrightarrow> url_unescape EncPathSegment p = Some p"
    by (induction p) auto
  then show "CHR ''%'' \<notin> set p \<Longrightarrow> PathUnescape p = Some p" by (simp add: PathUnescape_def)
qed

end
