(* ===== verification/BotMessage.thy ===== *)
theory BotMessage
  imports Shared Translate Url
begin

text \<open>
  The two directions of a conversation in \<open>internal/service/bridge.go\<close> and
  \<open>bridge_worker_inbox.go\<close>: a request goes from any worker through the owner's inbox to the bot's
  socket (\<open>SendToBot\<close>, \<open>SendCancelToBot\<close>, the inbox consumers), a bot's message goes to the inbox
  of the chat stream (\<open>HandleBotMessage\<close>, \<open>sendToSession\<close>). Spans are left out; the trace context
  stored for a session is an argument.
\<close>

section \<open>The worker inbox\<close>

record worker_msg =
  wm_token :: string
  wm_rpc :: json
  wm_disconnect :: bool

text \<open>\<open>workerInboxMessage\<close> as \<open>json.Marshal\<close> prints it: fields in order, empty ones omitted.\<close>

definition worker_payload :: "worker_msg \<Rightarrow> string" where
  "worker_payload m = json_marshal (JObj
     ([(''token'', JStr (wm_token m))] @
      (if wm_rpc m = JNull then [] else [(''rpc_request'', wm_rpc m)]) @
      (if wm_disconnect m then [(''disconnect'', JBool True)] else [])))"

text \<open>\<open>json.Unmarshal\<close> into the struct; \<open>None\<close> for a syntax or type error.\<close>

definition worker_decode :: "string \<Rightarrow> worker_msg option" where
  "worker_decode data =
     (case json_unmarshal data of
        None \<Rightarrow> None
      | Some JNull \<Rightarrow> Some \<lparr>wm_token = [], wm_rpc = JNull, wm_disconnect = False\<rparr>
      | Some (JObj m) \<Rightarrow>
          let j = Some (JObj m) in
          if struct_str_err j ''token'' then None
          else
            map_option (\<lambda>d. \<lparr>wm_token = struct_str j ''token'',
                wm_rpc = (case struct_field j ''rpc_request'' of Some v \<Rightarrow> v | None \<Rightarrow> JNull),
                wm_disconnect = d\<rparr>)
              (case struct_field j ''disconnect'' of
                 Some (JBool d) \<Rightarrow> Some d
               | None \<Rightarrow> Some False
               | Some JNull \<Rightarrow> Some False
               | Some _ \<Rightarrow> None)
      | Some _ \<Rightarrow> None)"

definition workerInboxName :: "string \<Rightarrow> string" where
  "workerInboxName workerID = WorkerInboxPrefix @ workerID"

definition PublishToWorkerInbox ::
    "'s mq \<Rightarrow> string \<Rightarrow> string \<Rightarrow> json \<Rightarrow> 's \<Rightarrow> (string + unit) \<times> 's" where
  "PublishToWorkerInbox Q workerID token rpcRequest s =
     (let payload = worker_payload \<lparr>wm_token = token, wm_rpc = rpcRequest, wm_disconnect = False\<rparr> in
      case mq_publish Q (workerInboxName workerID) payload s of
        (Inl e, s1) \<Rightarrow> (Inl (''publish worker inbox: '' @ e), s1)
      | (Inr _, s1) \<Rightarrow> (Inr (), s1))"

definition PublishDisconnectToWorkerInbox ::
    "'s mq \<Rightarrow> string \<Rightarrow> string \<Rightarrow> 's \<Rightarrow> (string + unit) \<times> 's" where
  "PublishDisconnectToWorkerInbox Q workerID token s =
     (let payload = worker_payload \<lparr>wm_token = token, wm_rpc = JNull, wm_disconnect = True\<rparr> in
      case mq_publish Q (workerInboxName workerID) payload s of
        (Inl e, s1) \<Rightarrow> (Inl (''publish worker inbox disconnect: '' @ e), s1)
      | (Inr _, s1) \<Rightarrow> (Inr (), s1))"

text \<open>What the consumer does with one message, after acknowledging it.\<close>

definition deliver_worker_msg :: "worker_msg \<Rightarrow> bridge \<Rightarrow> bridge" where
  "deliver_worker_msg msg b =
     (if wm_token msg = '''' then b
      else if wm_disconnect msg then evictLocal (wm_token msg) b
      else (case map_of (b_bots b) (wm_token msg) of
              None \<Rightarrow> b
            | Some conn \<Rightarrow> if wm_rpc msg \<noteq> JNull then WriteJSON conn (wm_rpc msg) b else b))"

text \<open>One round of \<open>runWorkerInboxConsumer\<close>; \<open>None\<close> when the goroutine returns.\<close>

definition runWorkerInboxConsumer :: "'s mq \<Rightarrow> bridge \<Rightarrow> 's \<Rightarrow> (bridge \<times> 's) option" where
  "runWorkerInboxConsumer Q b s =
     (let inbox = workerInboxName (b_worker b) in
      if b_cancelled b then None
      else if b_down b then None
      else (case mq_consume Q inbox WorkerInboxGroup s of
              (Inl _, s1) \<Rightarrow> Some (b, s1)
            | (Inr None, s1) \<Rightarrow> Some (b, s1)
            | (Inr (Some (i, data)), s1) \<Rightarrow>
                (case mq_ack Q inbox WorkerInboxGroup i s1 of (_, s2) \<Rightarrow>
                   (case worker_decode data of
                      None \<Rightarrow> Some (b, s2)
                    | Some msg \<Rightarrow> Some (deliver_worker_msg msg b, s2)))))"

text \<open>\<open>startWorkerInboxConsumers\<close> creates the group; the consumers' names are left out.\<close>

definition startWorkerInboxConsumers :: "'s mq \<Rightarrow> bridge \<Rightarrow> 's \<Rightarrow> 's" where
  "startWorkerInboxConsumers Q b s = snd (mq_ensure_group Q (workerInboxName (b_worker b)) WorkerInboxGroup s)"

section \<open>Requests to a bot\<close>

definition cancel_request :: "string \<Rightarrow> json" where
  "cancel_request sessionID = jobj
     [(''jsonrpc'', JStr ''2.0''), (''method'', JStr ''session/cancel''),
      (''params'', jobj [(''sessionId'', JStr sessionID)])]"

definition SendCancelToBot ::
    "'s redis \<Rightarrow> 's mq \<Rightarrow> string \<Rightarrow> string \<Rightarrow> 's \<Rightarrow> (string + unit) \<times> 's" where
  "SendCancelToBot R Q token sessionID s =
     (let rpcRequest = cancel_request sessionID in
      case ResolveBotRoute R token s of
        (Inl e, s1) \<Rightarrow> (Inl e, s1)
      | (Inr route, s1) \<Rightarrow> PublishToWorkerInbox Q (br_worker route) token rpcRequest s1)"

definition content_item :: "string \<Rightarrow> string \<Rightarrow> json" where
  "content_item ty c = jobj [(''type'', JStr ty), (''content'', JStr c)]"

definition content_items :: "string \<Rightarrow> string list \<Rightarrow> json list" where
  "content_items userMessage mediaURLs =
     (if userMessage \<noteq> '''' then [content_item ''text'' userMessage] else []) @
     map (\<lambda>u. content_item ''url'' (ensureEncodedURL u)) mediaURLs"

definition prompt_request :: "string \<Rightarrow> string \<Rightarrow> json list \<Rightarrow> json" where
  "prompt_request requestID sessionID items = jobj
     [(''jsonrpc'', JStr ''2.0''), (''id'', JStr requestID), (''method'', JStr ''session/prompt''),
      (''params'', jobj [(''sessionId'', JStr sessionID), (''prompt'', jobj [(''content'', JArr items)])])]"

text \<open>\<open>uuid\<close> is the fresh identifier, \<open>carrier\<close> the propagated trace context.\<close>

definition SendToBot ::
    "'s redis \<Rightarrow> 's mq \<Rightarrow> string \<Rightarrow> (string \<times> string) list \<Rightarrow> string \<Rightarrow> string \<Rightarrow> string list \<Rightarrow> string \<Rightarrow>
     's \<Rightarrow> (string + string) \<times> 's" where
  "SendToBot R Q uuid carrier token userMessage mediaURLs sessionID s =
     (if sessionID = '''' then (Inl ''missing session_id'', s)
      else
        let requestID = ''req_'' @ take 12 uuid;
            items = content_items userMessage mediaURLs
        in if items = [] then (Inl ''empty content'', s)
           else
             (case ResolveBotRoute R token s of
                (Inl e, s1) \<Rightarrow> (Inl e, s1)
              | (Inr route, s1) \<Rightarrow>
                  let data = json_marshal (jobj (map (\<lambda>(k, v). (k, JStr v)) carrier));
                      s2 = snd (rd_set R (TraceCtxPrefix @ sessionID) data 600 s1)
                  in (case PublishToWorkerInbox Q (br_worker route) token
                             (prompt_request requestID sessionID items) s2 of
                        (Inl e, s3) \<Rightarrow> (Inl e, s3)
                      | (Inr _, s3) \<Rightarrow> (Inr requestID, s3))))"

section \<open>Messages from a bot\<close>

definition chat_inbox :: "string \<Rightarrow> string \<Rightarrow> string" where
  "chat_inbox token sessionID = ChatInboxPrefix @ token @ '':'' @ sessionID"

definition sendToSession ::
    "'s redis \<Rightarrow> 's mq \<Rightarrow> string \<Rightarrow> string \<Rightarrow> gomap \<Rightarrow> bridge \<Rightarrow> 's \<Rightarrow> 's" where
  "sendToSession R Q token sessionID event b s =
     (if b_down b then s
      else
        let inbox = chat_inbox token sessionID in
        case rd_exists R inbox s of (r, s1) \<Rightarrow>
          let inboxExists = (case r of Inr n \<Rightarrow> n > 0 | Inl _ \<Rightarrow> False) in
          if \<not> inboxExists then s1
          else snd (mq_publish Q inbox (json_marshal (JObj event)) s1))"

text \<open>The session an error message names: in its data, else at the top.\<close>

definition error_session :: "gomap \<Rightarrow> gomap option \<Rightarrow> string" where
  "error_session msg errMap =
     (let sid = (case errMap of None \<Rightarrow> ''''
                 | Some em \<Rightarrow> (case jfield_obj em ''data'' of Some d \<Rightarrow> or_empty (jfield_str d ''sessionId'') | None \<Rightarrow> ''''))
      in if sid = '''' then or_empty (jfield_str msg ''sessionId'') else sid)"

definition has_key :: "gomap \<Rightarrow> string \<Rightarrow> bool" where
  "has_key m k = (map_of m k \<noteq> None)"

definition top_session :: "gomap \<Rightarrow> string" where
  "top_session msg =
     (let meth = or_empty (jfield_str msg ''method'') in
      if meth \<noteq> '''' then or_empty (getNestedString (jfield_obj msg ''params'') ''sessionId'')
      else if has_key msg ''id'' then
        (let sid = (if has_key msg ''error'' then
                      (case jfield_obj msg ''error'' of None \<Rightarrow> ''''
                       | Some em \<Rightarrow> (case jfield_obj em ''data'' of
                           Some d \<Rightarrow> or_empty (jfield_str d ''sessionId'') | None \<Rightarrow> ''''))
                    else '''')
         in if sid = '''' then or_empty (jfield_str msg ''sessionId'') else sid)
      else '''')"

definition error_event :: "string \<Rightarrow> gomap" where
  "error_event m = gomap_of [(''type'', JStr ''error''), (''content'', JStr m)]"

definition handle_notification ::
    "'s redis \<Rightarrow> 's mq \<Rightarrow> string \<Rightarrow> gomap \<Rightarrow> bridge \<Rightarrow> 's \<Rightarrow> 's" where
  "handle_notification R Q token msg b s =
     (let meth = or_empty (jfield_str msg ''method'');
          params = jfield_obj msg ''params'';
          sessionID = or_empty (getNestedString params ''sessionId'')
      in if meth = '''' then s
         else case TranslateBotEvent meth params of
           Some chatEvent \<Rightarrow> if sessionID \<noteq> '''' then sendToSession R Q token sessionID chatEvent b s else s
         | None \<Rightarrow> s)"

definition handle_response ::
    "'s redis \<Rightarrow> 's mq \<Rightarrow> string \<Rightarrow> gomap \<Rightarrow> bridge \<Rightarrow> 's \<Rightarrow> 's" where
  "handle_response R Q token msg b s =
     (if has_key msg ''id'' \<and> \<not> has_key msg ''result'' \<and> has_key msg ''error'' then
        let errMap = jfield_obj msg ''error'';
            sessionID = error_session msg errMap;
            errMsg = (case errMap of None \<Rightarrow> ae_message ErrBotUnknownError
                      | Some em \<Rightarrow> (case jfield_str em ''message'' of Some m \<Rightarrow> m
                                    | None \<Rightarrow> ae_message ErrBotUnknownError))
        in if sessionID \<noteq> '''' then sendToSession R Q token sessionID (error_event errMsg) b s else s
      else s)"

definition HandleBotMessage ::
    "'s redis \<Rightarrow> 's mq \<Rightarrow> string \<Rightarrow> string \<Rightarrow> bridge \<Rightarrow> 's \<Rightarrow> bridge \<times> 's" where
  "HandleBotMessage R Q token raw b s =
     (let decoded = (case json_unmarshal raw of Some (JObj m) \<Rightarrow> Some m | Some JNull \<Rightarrow> Some [] | _ \<Rightarrow> None)
      in case decoded of
        None \<Rightarrow> (b, s)
      | Some msg \<Rightarrow>
          if jfield_str msg ''type'' = Some ''ping'' then
            (case map_of (b_bots b) token of
               Some conn \<Rightarrow> (WriteMessage conn ''pong'' b, s)
             | None \<Rightarrow> (b, s))
          else
            let s1 = (if top_session msg \<noteq> '''' then snd (rd_get R (TraceCtxPrefix @ top_session msg) s) else s);
                s2 = handle_notification R Q token msg b s1
            in (b, handle_response R Q token msg b s2))"

section \<open>The inbox payload\<close>

lemma worker_roundtrip:
  assumes "wf_json (wm_rpc m)"
  shows "worker_decode (worker_payload m) = Some (m\<lparr>wm_rpc := canon (wm_rpc m)\<rparr>)"
proof -
  let ?o = "JObj ([(''token'', JStr (wm_token m))] @
      (if wm_rpc m = JNull then [] else [(''rpc_request'', wm_rpc m)]) @
      (if wm_disconnect m then [(''disconnect'', JBool True)] else []))"
  have "wf_json ?o" using assms by auto
  then have u: "json_unmarshal (worker_payload m) = Some (canon ?o)"
    unfolding worker_payload_def by (rule json_roundtrip)
  have c: "canon (wm_rpc m) = JNull \<longleftrightarrow> wm_rpc m = JNull" by (cases "wm_rpc m") (simp_all add: jobj_def)
  show ?thesis
    unfolding worker_decode_def u
    by (cases m) (auto simp: jobj_def obj_of_def struct_field_def struct_str_def struct_str_err_def c
        to_lower_def to_lower_char_def)
qed

section \<open>Delivery to the bot\<close>

lemma wf_jobj: "\<forall>kv\<in>set kvs. wf_json (snd kv) \<Longrightarrow> wf_json (jobj kvs)"
proof -
  have "\<forall>kv\<in>set kvs. wf_json (snd kv) \<Longrightarrow> \<forall>kv\<in>set (obj_of kvs). wf_json (snd kv)"
  proof (induction kvs rule: rev_induct)
    case (snoc kv kvs)
    have put: "set (obj_put k v m) \<subseteq> insert (k, v) (set m)" for k :: string and v :: json and m
      by (induction k v m rule: obj_put.induct) auto
    obtain k v where "kv = (k, v)" by (cases kv)
    with snoc put [of k v "obj_of kvs"] show ?case by (auto simp: obj_of_snoc)
  qed (simp add: obj_of_def)
  then show "\<forall>kv\<in>set kvs. wf_json (snd kv) \<Longrightarrow> wf_json (jobj kvs)" by (simp add: jobj_def)
qed

lemma content_items_wf: "j \<in> set (content_items m us) \<Longrightarrow> wf_json j"
  by (auto simp: content_items_def content_item_def intro!: wf_jobj split: if_splits)

lemma prompt_wf: "\<forall>j\<in>set items. wf_json j \<Longrightarrow> wf_json (prompt_request r sid items)"
  by (auto simp: prompt_request_def intro!: wf_jobj)

lemma cancel_wf: "wf_json (cancel_request sid)"
  by (auto simp: cancel_request_def intro!: wf_jobj)

text \<open>These requests are maps already, so the inbox does not change them.\<close>

lemma content_items_canon: "map canon (content_items m us) = content_items m us"
  by (auto simp: content_items_def content_item_def jobj_def obj_of_def)

lemma prompt_canon: "canon (prompt_request r sid (content_items m us)) = prompt_request r sid (content_items m us)"
  using content_items_canon [of m us] by (simp add: prompt_request_def jobj_def obj_of_def)

lemma cancel_canon: "canon (cancel_request sid) = cancel_request sid"
  by (simp add: cancel_request_def jobj_def obj_of_def)

lemma prompt_not_null: "prompt_request r sid items \<noteq> JNull" "cancel_request sid \<noteq> JNull"
  by (simp_all add: prompt_request_def cancel_request_def jobj_def)

context redis_up begin

text \<open>A message published to a worker's inbox, read by that worker.\<close>

lemma publish_worker:
  assumes "queue_good (view s) (workerInboxName w)" "queue_chan (view s) (workerInboxName w) WorkerInboxGroup = Some p"
    "length p + 1 < nat n" "mq_publish (NewRedisStreamQueue R n) (workerInboxName w) m s = (r, s')"
  shows "is_ok r" and "queue_good (view s') (workerInboxName w)"
    and "queue_chan (view s') (workerInboxName w) WorkerInboxGroup = Some (p @ [m])"
    and "k \<noteq> workerInboxName w \<Longrightarrow> kv (view s') k = kv (view s) k"
proof -
  note P = stream_queue.publish [OF assms(1) assms(4)]
  show "is_ok r" "queue_good (view s') (workerInboxName w)" using P by simp_all
  have "case queue_chan (view s) (workerInboxName w) WorkerInboxGroup of
      None \<Rightarrow> queue_chan (view s') (workerInboxName w) WorkerInboxGroup = None
    | Some p \<Rightarrow> \<exists>k. (k = 0 \<or> nat n \<le> length p + 1 - k) \<and>
        queue_chan (view s') (workerInboxName w) WorkerInboxGroup = Some (drop k (p @ [m]))"
    using P by blast
  then obtain j where "j = 0 \<or> nat n \<le> length p + 1 - j"
      "queue_chan (view s') (workerInboxName w) WorkerInboxGroup = Some (drop j (p @ [m]))"
    using assms(2) by auto
  moreover from this(1) assms(3) have "j = 0" by auto
  ultimately show "queue_chan (view s') (workerInboxName w) WorkerInboxGroup = Some (p @ [m])" by simp
  show "k \<noteq> workerInboxName w \<Longrightarrow> kv (view s') k = kv (view s) k"
    using assms(4) Publish_frame [of k "workerInboxName w" n m s] by simp
qed

lemma consume_worker:
  assumes up: "\<not> b_down b" "\<not> b_cancelled b"
    and good: "queue_good (view s) (workerInboxName (b_worker b))"
    and ch: "queue_chan (view s) (workerInboxName (b_worker b)) WorkerInboxGroup = Some (worker_payload m # p)"
    and wf: "wf_json (wm_rpc m)"
  obtains s' where "runWorkerInboxConsumer (NewRedisStreamQueue R n) b s =
      Some (deliver_worker_msg (m\<lparr>wm_rpc := canon (wm_rpc m)\<rparr>) b, s')"
    "queue_good (view s') (workerInboxName (b_worker b))"
    "queue_chan (view s') (workerInboxName (b_worker b)) WorkerInboxGroup = Some p"
proof -
  let ?Q = "NewRedisStreamQueue R n" and ?q = "workerInboxName (b_worker b)"
  obtain r s1 where c: "mq_consume ?Q ?q WorkerInboxGroup s = (r, s1)" by (cases "mq_consume ?Q ?q WorkerInboxGroup s")
  obtain i where r: "r = Inr (Some (i, worker_payload m))" and g1: "queue_good (view s1) ?q"
      and c1: "queue_chan (view s1) ?q WorkerInboxGroup = Some p"
    using stream_queue.consume [OF good c] ch by auto
  obtain r2 s2 where a: "mq_ack ?Q ?q WorkerInboxGroup i s1 = (r2, s2)" by (cases "mq_ack ?Q ?q WorkerInboxGroup i s1")
  have "queue_good (view s2) ?q" "queue_chan (view s2) ?q WorkerInboxGroup = Some p"
    using stream_queue.ack [OF g1 a] c1 by simp_all
  moreover have "runWorkerInboxConsumer ?Q b s = Some (deliver_worker_msg (m\<lparr>wm_rpc := canon (wm_rpc m)\<rparr>) b, s2)"
    using up c r a worker_roundtrip [OF wf] by (simp add: runWorkerInboxConsumer_def Let_def del: mq_fields)
  ultimately show thesis by (rule that [rotated 1])
qed

lemma SendToBot_queues:
  assumes ok: "bots_ok (view s)" and own: "sh_owner (shared_of (view s)) t = Some w"
    and good: "queue_good (view s) (workerInboxName w)"
    and ch: "queue_chan (view s) (workerInboxName w) WorkerInboxGroup = Some p" and room: "length p + 1 < nat n"
    and sid: "sid \<noteq> ''''" and items: "content_items msg urls \<noteq> []"
    and e: "SendToBot R (NewRedisStreamQueue R n) uuid carrier t msg urls sid s = (r, s')"
  shows "r = Inr (''req_'' @ take 12 uuid)"
    and "queue_good (view s') (workerInboxName w)"
    and "queue_chan (view s') (workerInboxName w) WorkerInboxGroup = Some (p @ [worker_payload
      \<lparr>wm_token = t, wm_rpc = prompt_request (''req_'' @ take 12 uuid) sid (content_items msg urls), wm_disconnect = False\<rparr>])"
    and "shared_of (view s') = shared_of (view s)"
    and "k \<noteq> workerInboxName w \<Longrightarrow> k \<noteq> TraceCtxPrefix @ sid \<Longrightarrow> kv (view s') k = kv (view s) k"
proof -
  let ?Q = "NewRedisStreamQueue R n" and ?q = "workerInboxName w"
  let ?req = "prompt_request (''req_'' @ take 12 uuid) sid (content_items msg urls)"
  let ?m = "worker_payload \<lparr>wm_token = t, wm_rpc = ?req, wm_disconnect = False\<rparr>"
  let ?s1 = "snd (ResolveBotRoute R t s)"
  let ?s2 = "snd (rd_set R (TraceCtxPrefix @ sid) (json_marshal (jobj (map (\<lambda>(k, v). (k, JStr v)) carrier))) 600 ?s1)"
  note RR = ResolveBotRoute_reply [OF ok, of t]
  have kv2: "k \<noteq> TraceCtxPrefix @ sid \<Longrightarrow> kv (view ?s2) k = kv (view s) k" for k
    using RR(2) by (simp add: sem_set_def)
  have "kv (view ?s2) ?q = kv (view s) ?q" by (rule kv2) (simp add: workerInboxName_def key_simps)
  from queue_frame [OF this] good ch
  have g2: "queue_good (view ?s2) ?q" and c2: "queue_chan (view ?s2) ?q WorkerInboxGroup = Some p" by simp_all
  obtain r3 s3 where p: "mq_publish ?Q ?q ?m ?s2 = (r3, s3)" by (cases "mq_publish ?Q ?q ?m ?s2")
  note P = publish_worker [OF g2 c2 room p]
  have rs: "r = Inr (''req_'' @ take 12 uuid) \<and> s' = s3"
    using e sid items RR(1) own p P(1)
    by (auto simp: SendToBot_def Let_def case_prod_beta PublishToWorkerInbox_def simp del: mq_fields split: sum.splits)
  then show "r = Inr (''req_'' @ take 12 uuid)" "queue_good (view s') ?q"
    "queue_chan (view s') ?q WorkerInboxGroup = Some (p @ [?m])" using P by simp_all
  have "shared_of (view s3) = shared_of (view ?s2)"
    using P(4) by (intro conjunct1 [OF shared_cong]) (simp_all add: workerInboxName_def key_simps)
  moreover have "shared_of (view ?s2) = shared_of (view s)"
    by (intro conjunct1 [OF shared_cong] kv2) (simp_all add: key_simps)
  ultimately show "shared_of (view s') = shared_of (view s)" using rs by simp
  show "k \<noteq> workerInboxName w \<Longrightarrow> k \<noteq> TraceCtxPrefix @ sid \<Longrightarrow> kv (view s') k = kv (view s) k"
    using P(4) [of k] kv2 [of k] rs by simp
qed

end

context redis_up begin

text \<open>End to end: any worker sends, the owner's consumer writes the request to the bot's socket.\<close>

lemma send_then_deliver:
  assumes ok: "bots_ok (view s)" and own: "sh_owner (shared_of (view s)) t = Some (b_worker b)"
    and up: "\<not> b_down b" "\<not> b_cancelled b" and bot: "map_of (b_bots b) t = Some c" and t: "t \<noteq> ''''"
    and good: "queue_good (view s) (workerInboxName (b_worker b))"
    and ch: "queue_chan (view s) (workerInboxName (b_worker b)) WorkerInboxGroup = Some []" and room: "1 < nat n"
    and sid: "sid \<noteq> ''''" and items: "content_items msg urls \<noteq> []"
  shows "\<exists>s1 s2. SendToBot R (NewRedisStreamQueue R n) uuid carrier t msg urls sid s = (Inr (''req_'' @ take 12 uuid), s1) \<and>
    runWorkerInboxConsumer (NewRedisStreamQueue R n) b s1 =
      Some (WriteJSON c (prompt_request (''req_'' @ take 12 uuid) sid (content_items msg urls)) b, s2) \<and>
    queue_chan (view s2) (workerInboxName (b_worker b)) WorkerInboxGroup = Some []"
proof -
  let ?Q = "NewRedisStreamQueue R n"
  let ?req = "prompt_request (''req_'' @ take 12 uuid) sid (content_items msg urls)"
  obtain r s1 where e: "SendToBot R ?Q uuid carrier t msg urls sid s = (r, s1)"
    by (cases "SendToBot R ?Q uuid carrier t msg urls sid s")
  have room': "length ([] :: string list) + 1 < nat n" using room by simp
  note S = SendToBot_queues [OF ok own good ch room' sid items e]
  let ?m = "\<lparr>wm_token = t, wm_rpc = ?req, wm_disconnect = False\<rparr>"
  have wf: "wf_json (wm_rpc ?m)" by (simp add: prompt_wf content_items_wf)
  have ch1: "queue_chan (view s1) (workerInboxName (b_worker b)) WorkerInboxGroup = Some (worker_payload ?m # [])"
    using S(3) by simp
  obtain s2 where "runWorkerInboxConsumer ?Q b s1 = Some (deliver_worker_msg (?m\<lparr>wm_rpc := canon (wm_rpc ?m)\<rparr>) b, s2)"
      "queue_chan (view s2) (workerInboxName (b_worker b)) WorkerInboxGroup = Some []"
    by (rule consume_worker [OF up S(2) ch1 wf])
  moreover have "deliver_worker_msg (?m\<lparr>wm_rpc := canon (wm_rpc ?m)\<rparr>) b = WriteJSON c ?req b"
    using t bot by (simp add: deliver_worker_msg_def prompt_canon prompt_not_null)
  ultimately show ?thesis using e S(1) by auto
qed

lemma send_unrouted:
  assumes "bots_ok (view s)" "sh_owner (shared_of (view s)) t = None" "sid \<noteq> ''''" "content_items msg urls \<noteq> []"
  shows "fst (SendToBot R Q uuid carrier t msg urls sid s) = Inl ''resolve bot route: get bot owner: redis: nil''"
    and "view (snd (SendToBot R Q uuid carrier t msg urls sid s)) = view s"
  using ResolveBotRoute_reply [OF assms(1), of t] assms(2-4)
  by (auto simp: SendToBot_def case_prod_beta Let_def split: sum.splits)

end

section \<open>Delivery to the chat stream\<close>

context redis_up begin

lemma sendToSession_closed:
  assumes "b_down b \<or> kv (view s) (chat_inbox t sid) = None"
  shows "view (sendToSession R Q t sid ev b s) = view s"
  using assms by (auto simp: sendToSession_def case_prod_beta Let_def sem_exists_def)

text \<open>An event for a live stream is appended to its inbox, and to nothing else.\<close>

lemma sendToSession_appends:
  fixes ev :: gomap and b :: bridge and n :: int
  assumes up: "\<not> b_down b" and good: "queue_good (view s) (chat_inbox t sid)"
    and ch: "queue_chan (view s) (chat_inbox t sid) g = Some p" and room: "length p + 1 < nat n"
  defines "s' \<equiv> sendToSession R (NewRedisStreamQueue R n) t sid ev b s"
  shows "queue_chan (view s') (chat_inbox t sid) g = Some (p @ [json_marshal (JObj ev)])"
    and "queue_good (view s') (chat_inbox t sid)"
    and "k \<noteq> chat_inbox t sid \<Longrightarrow> kv (view s') k = kv (view s) k"
proof -
  let ?Q = "NewRedisStreamQueue R n" and ?q = "chat_inbox t sid" and ?m = "json_marshal (JObj ev)"
  let ?s1 = "snd (rd_exists R ?q s)"
  have ex: "kv (view s) ?q \<noteq> None" using ch by (auto simp: queue_chan_def stream_at_def split: option.splits)
  have v1: "view ?s1 = view s" by (simp add: sem_exists_def)
  obtain r s2 where p: "mq_publish ?Q ?q ?m ?s1 = (r, s2)" by (cases "mq_publish ?Q ?q ?m ?s1")
  have s': "s' = s2"
    using up ex p by (auto simp: s'_def sendToSession_def case_prod_beta Let_def sem_exists_def simp del: mq_fields)
  have good1: "queue_good (view ?s1) ?q" using good v1 by simp
  note P = stream_queue.publish [OF good1 p]
  have "case queue_chan (view ?s1) ?q g of None \<Rightarrow> queue_chan (view s2) ?q g = None
    | Some p \<Rightarrow> \<exists>k. (k = 0 \<or> nat n \<le> length p + 1 - k) \<and> queue_chan (view s2) ?q g = Some (drop k (p @ [?m]))"
    using P by blast
  then obtain j where "j = 0 \<or> nat n \<le> length p + 1 - j" "queue_chan (view s2) ?q g = Some (drop j (p @ [?m]))"
    using ch v1 by auto
  moreover from this(1) room have "j = 0" by auto
  ultimately show "queue_chan (view s') ?q g = Some (p @ [?m])" using s' by simp
  show "queue_good (view s') ?q" using P s' by simp
  show "k \<noteq> ?q \<Longrightarrow> kv (view s') k = kv (view s) k"
    using p Publish_frame [of k ?q n ?m ?s1] v1 s' by simp
qed

text \<open>A bot's notification that names a session and translates reaches that session's stream as its
  translation.\<close>

lemma HandleBotMessage_notification:
  assumes raw: "json_unmarshal raw = Some (JObj msg)" and np: "jfield_str msg ''type'' \<noteq> Some ''ping''"
    and m: "jfield_str msg ''method'' = Some meth" "meth \<noteq> ''''" and noid: "\<not> has_key msg ''id''"
    and tr: "TranslateBotEvent meth (jfield_obj msg ''params'') = Some ev"
    and sid: "getNestedString (jfield_obj msg ''params'') ''sessionId'' = Some sid" "sid \<noteq> ''''"
    and up: "\<not> b_down b" and good: "queue_good (view s) (chat_inbox t sid)"
    and ch: "queue_chan (view s) (chat_inbox t sid) g = Some p" and room: "length p + 1 < nat n"
    and e: "HandleBotMessage R (NewRedisStreamQueue R n) t raw b s = (b', s')"
  shows "b' = b" and "queue_chan (view s') (chat_inbox t sid) g = Some (p @ [json_marshal (JObj ev)])"
    and "k \<noteq> chat_inbox t sid \<Longrightarrow> kv (view s') k = kv (view s) k" and "queue_good (view s') (chat_inbox t sid)"
proof -
  let ?s1 = "snd (rd_get R (TraceCtxPrefix @ sid) s)"
  have v1: "view ?s1 = view s" by simp
  have top: "top_session msg = sid" using m sid by (simp add: top_session_def Let_def)
  have "b' = b \<and> s' = sendToSession R (NewRedisStreamQueue R n) t sid ev b ?s1"
    using e raw np m noid tr sid top
    by (auto simp: HandleBotMessage_def handle_notification_def handle_response_def Let_def)
  with sendToSession_appends [where b = b and s = ?s1 and t = t and sid = sid and g = g and p = p and n = n and ev = ev, OF up] good ch room v1
  show "b' = b" "queue_chan (view s') (chat_inbox t sid) g = Some (p @ [json_marshal (JObj ev)])"
    "k \<noteq> chat_inbox t sid \<Longrightarrow> kv (view s') k = kv (view s) k" "queue_good (view s') (chat_inbox t sid)" by simp_all
qed

text \<open>A JSON-RPC error that names a session reaches it as an \<open>error\<close> event.\<close>

lemma HandleBotMessage_error:
  assumes raw: "json_unmarshal raw = Some (JObj msg)" and np: "jfield_str msg ''type'' \<noteq> Some ''ping''"
    and m: "or_empty (jfield_str msg ''method'') = ''''"
    and id: "has_key msg ''id''" "\<not> has_key msg ''result''" "has_key msg ''error''"
    and em: "jfield_obj msg ''error'' = Some em" "jfield_str em ''message'' = Some text"
    and sid: "error_session msg (Some em) = sid" "sid \<noteq> ''''"
    and up: "\<not> b_down b" and good: "queue_good (view s) (chat_inbox t sid)"
    and ch: "queue_chan (view s) (chat_inbox t sid) g = Some p" and room: "length p + 1 < nat n"
    and e: "HandleBotMessage R (NewRedisStreamQueue R n) t raw b s = (b', s')"
  shows "b' = b" and "queue_chan (view s') (chat_inbox t sid) g = Some (p @ [json_marshal (JObj (error_event text))])"
proof -
  let ?s1 = "snd (rd_get R (TraceCtxPrefix @ sid) s)"
  have v1: "view ?s1 = view s" by simp
  have top: "top_session msg = sid"
    using m id em sid by (simp add: top_session_def error_session_def Let_def split: option.splits)
  have "b' = b \<and> s' = sendToSession R (NewRedisStreamQueue R n) t sid (error_event text) b ?s1"
    using e raw np m id em sid top
    by (auto simp: HandleBotMessage_def handle_notification_def handle_response_def Let_def)
  with sendToSession_appends [where b = b and s = ?s1 and t = t and sid = sid and g = g and p = p and n = n and ev = "error_event text", OF up] good ch room v1
  show "b' = b" "queue_chan (view s') (chat_inbox t sid) g = Some (p @ [json_marshal (JObj (error_event text))])"
    by simp_all
qed

end

text \<open>Whatever a bot sends, the worker's own registry is left alone, and at most a pong is written.\<close>

lemma HandleBotMessage_local:
  "fst (HandleBotMessage R Q t raw b s) = b \<or>
   (\<exists>c. map_of (b_bots b) t = Some c \<and> fst (HandleBotMessage R Q t raw b s) = WriteMessage c ''pong'' b)"
  by (auto simp: HandleBotMessage_def Let_def split: option.splits json.splits)

end
