(* ===== verification/Db.thy ===== *)
theory Db
  imports Prelude "HOL-Library.Multiset"
begin

text \<open>
  MySQL, which the backend reaches through gorm, is not part of the repository: each table is a
  parameter, a record of the query shapes the code builds on it. A \<open>WHERE\<close> clause is the predicate
  it stands for, an \<open>ORDER BY\<close> clause a preorder. The locale \<open>table_up\<close> states the documented effect
  of each query on the rows; \<open>mem_table\<close> is an instance.

  Instants are nanoseconds since 1970. What a column type does to a value it stores is the function
  \<open>cast\<close>: \<open>DATETIME\<close> rounds an instant to a whole second.
\<close>

datatype dberr = RecordNotFound | DbFail string

type_synonym ('d, 'a) dbcall = "'d \<Rightarrow> (dberr + 'a) \<times> 'd"

text \<open>\<open>tb_first\<close> reads the first row by primary key, \<open>tb_find\<close> all rows in no particular order,
  \<open>tb_page\<close> all rows in an order, from an offset, up to a limit; a negative limit or offset is
  no clause.\<close>

record ('r, 'd) dbtable =
  tb_create :: "'r \<Rightarrow> ('d, unit) dbcall"
  tb_first :: "('r \<Rightarrow> bool) \<Rightarrow> ('d, 'r) dbcall"
  tb_find :: "('r \<Rightarrow> bool) \<Rightarrow> ('d, 'r list) dbcall"
  tb_page :: "('r \<Rightarrow> bool) \<Rightarrow> ('r \<Rightarrow> 'r \<Rightarrow> bool) \<Rightarrow> int \<Rightarrow> int \<Rightarrow> ('d, 'r list) dbcall"
  tb_count :: "('r \<Rightarrow> bool) \<Rightarrow> ('d, nat) dbcall"
  tb_delete :: "('r \<Rightarrow> bool) \<Rightarrow> ('d, nat) dbcall"
  tb_update :: "('r \<Rightarrow> bool) \<Rightarrow> ('r \<Rightarrow> 'r) \<Rightarrow> ('d, unit) dbcall"

definition page_of :: "int \<Rightarrow> int \<Rightarrow> 'r list \<Rightarrow> 'r list" where
  "page_of lim off rs =
     (let tail = (if off > 0 then drop (nat off) rs else rs) in if lim \<ge> 0 then take (nat lim) tail else tail)"

text \<open>A result in the order of \<open>le\<close>, ties in any order.\<close>

definition ordered_rows :: "('r \<Rightarrow> bool) \<Rightarrow> ('r \<Rightarrow> 'r \<Rightarrow> bool) \<Rightarrow> 'r list \<Rightarrow> 'r list \<Rightarrow> bool" where
  "ordered_rows P le rows out \<longleftrightarrow> mset out = mset (filter P rows) \<and> sorted_wrt le out"

locale table_up =
  fixes T :: "('r, 'd) dbtable"
    and rows :: "'d \<Rightarrow> 'r list"
    and key :: "'r \<Rightarrow> string"
    and cast :: "'r \<Rightarrow> 'r"
  assumes cast_key: "key (cast r) = key r"
    and create_new: "key r \<notin> key ` set (rows d) \<Longrightarrow>
      fst (tb_create T r d) = Inr () \<and> rows (snd (tb_create T r d)) = rows d @ [cast r]"
    and create_dup: "key r \<in> key ` set (rows d) \<Longrightarrow>
      (\<exists>e. fst (tb_create T r d) = Inl (DbFail e)) \<and> rows (snd (tb_create T r d)) = rows d"
    and first: "fst (tb_first T P d) = (case find P (rows d) of Some r \<Rightarrow> Inr r | None \<Rightarrow> Inl RecordNotFound)"
    and first_rows: "rows (snd (tb_first T P d)) = rows d"
    and find: "\<exists>rs. fst (tb_find T P d) = Inr rs \<and> ordered_rows P (\<lambda>_ _. True) (rows d) rs"
    and find_rows: "rows (snd (tb_find T P d)) = rows d"
    and page: "(\<And>a b. le a b \<or> le b a) \<Longrightarrow> (\<And>a b c. le a b \<Longrightarrow> le b c \<Longrightarrow> le a c) \<Longrightarrow>
      \<exists>rs. ordered_rows P le (rows d) rs \<and> fst (tb_page T P le lim off d) = Inr (page_of lim off rs)"
    and page_rows: "rows (snd (tb_page T P le lim off d)) = rows d"
    and count: "fst (tb_count T P d) = Inr (length (filter P (rows d)))"
    and count_rows: "rows (snd (tb_count T P d)) = rows d"
    and delete: "fst (tb_delete T P d) = Inr (length (filter P (rows d)))"
    and delete_rows: "rows (snd (tb_delete T P d)) = filter (\<lambda>r. \<not> P r) (rows d)"
    and update: "(\<And>r. key (f r) = key r) \<Longrightarrow> fst (tb_update T P f d) = Inr ()"
    and update_rows: "(\<And>r. key (f r) = key r) \<Longrightarrow>
      rows (snd (tb_update T P f d)) = map (\<lambda>r. if P r then cast (f r) else r) (rows d)"
begin

lemmas row_effects [simp] = first_rows find_rows page_rows count_rows delete_rows
lemmas row_replies [simp] = first count delete

end

lemma ordered_rows_set: "ordered_rows P le rows out \<Longrightarrow> set out = {r \<in> set rows. P r}"
  unfolding ordered_rows_def by (metis mset_eq_setD set_filter)

lemma ordered_rows_length: "ordered_rows P le rows out \<Longrightarrow> length out = length (filter P rows)"
  unfolding ordered_rows_def by (metis mset_eq_length)

section \<open>An in-memory table\<close>

fun insert_row :: "('r \<Rightarrow> 'r \<Rightarrow> bool) \<Rightarrow> 'r \<Rightarrow> 'r list \<Rightarrow> 'r list" where
  "insert_row le r [] = [r]"
| "insert_row le r (x # xs) = (if le r x then r # x # xs else x # insert_row le r xs)"

definition sort_rows :: "('r \<Rightarrow> 'r \<Rightarrow> bool) \<Rightarrow> 'r list \<Rightarrow> 'r list" where
  "sort_rows le rs = foldr (insert_row le) rs []"

definition mem_table :: "('r \<Rightarrow> string) \<Rightarrow> ('r \<Rightarrow> 'r) \<Rightarrow> ('r, 'r list) dbtable" where
  "mem_table key cast = \<lparr>
     tb_create = (\<lambda>r d. if key r \<in> key ` set d then (Inl (DbFail ''Error 1062: Duplicate entry''), d)
                        else (Inr (), d @ [cast r])),
     tb_first = (\<lambda>P d. (case find P d of Some r \<Rightarrow> Inr r | None \<Rightarrow> Inl RecordNotFound, d)),
     tb_find = (\<lambda>P d. (Inr (filter P d), d)),
     tb_page = (\<lambda>P le lim off d. (Inr (page_of lim off (sort_rows le (filter P d))), d)),
     tb_count = (\<lambda>P d. (Inr (length (filter P d)), d)),
     tb_delete = (\<lambda>P d. (Inr (length (filter P d)), filter (\<lambda>r. \<not> P r) d)),
     tb_update = (\<lambda>P f d. (Inr (), map (\<lambda>r. if P r then cast (f r) else r) d)) \<rparr>"

lemma mset_insert_row: "mset (insert_row le r xs) = add_mset r (mset xs)"
  by (induction xs) auto

lemma mset_sort_rows: "mset (sort_rows le rs) = mset rs"
  by (induction rs) (simp_all add: sort_rows_def mset_insert_row)

lemma sorted_insert_row:
  assumes "\<And>a b. le a b \<or> le b a" "\<And>a b c. le a b \<Longrightarrow> le b c \<Longrightarrow> le a c"
  shows "sorted_wrt le xs \<Longrightarrow> sorted_wrt le (insert_row le r xs)"
proof (induction xs)
  case (Cons x xs)
  have s: "set (insert_row le r xs) = insert r (set xs)"
    using mset_insert_row [of le r xs] by (metis set_mset_add_mset_insert set_mset_mset)
  show ?case
  proof (cases "le r x")
    case True
    with Cons.prems show ?thesis by (auto intro: assms(2))
  next
    case False
    then have "le x r" using assms(1) by blast
    with False Cons s show ?thesis by auto
  qed
qed simp

lemma sorted_sort_rows:
  assumes "\<And>a b. le a b \<or> le b a" "\<And>a b c. le a b \<Longrightarrow> le b c \<Longrightarrow> le a c"
  shows "sorted_wrt le (sort_rows le rs)"
  by (induction rs) (simp_all add: sort_rows_def sorted_insert_row [OF assms])

lemma mem_table_up: "(\<And>r. key (cast r) = key r) \<Longrightarrow> table_up (mem_table key cast) (\<lambda>d. d) key cast"
  by unfold_locales
    (auto simp: mem_table_def ordered_rows_def mset_sort_rows sorted_sort_rows
      intro!: exI [of _ "sort_rows _ _"])

text \<open>\<open>DATETIME\<close> keeps whole seconds, rounding half up.\<close>

definition to_datetime :: "int \<Rightarrow> int" where
  "to_datetime t = (t + 500000000) div 1000000000 * 1000000000"

lemma to_datetime_near: "\<bar>to_datetime t - t\<bar> \<le> 500000000"
  unfolding to_datetime_def by linarith

lemma to_datetime_seconds: "to_datetime (s * 1000000000) = s * 1000000000"
  unfolding to_datetime_def by simp

end
