(* ===== verification/Sessions.thy ===== *)
theory Sessions
  imports Db Bridge
begin

text \<open>
  The session store of \<open>internal/service/session_store.go\<close>: sessions are rows of a table, and the
  ids of a token's sessions are cached in a Redis list. The table's state is \<open>'d\<close>, Redis's \<open>'s\<close>.

  The lemmas state that the cache is coherent: a cached list holds exactly the ids of the token's
  rows, whatever operations ran.
\<close>

record chat_session =
  cs_token :: string
  cs_id :: string
  cs_number :: int
  cs_created :: int

definition sessionsPrefix :: string where "sessionsPrefix = ''bridge:sessions:''"
definition sessionCacheTTL :: int where "sessionCacheTTL = 3600"

record session_info =
  si_id :: string
  si_number :: int

fun db_text :: "dberr \<Rightarrow> string" where
  "db_text RecordNotFound = ''record not found''"
| "db_text (DbFail e) = e"

definition of_token :: "string \<Rightarrow> chat_session \<Rightarrow> bool" where
  "of_token token r = (cs_token r = token)"

section \<open>Operations\<close>

definition CreateSession ::
    "(chat_session, 'd) dbtable \<Rightarrow> 's redis \<Rightarrow> int \<Rightarrow> string \<Rightarrow> string \<Rightarrow> 'd \<Rightarrow> 's \<Rightarrow> (string + int) \<times> 'd \<times> 's" where
  "CreateSession T R now token sessionID d s =
     (let initialNumber = 1;
          session = \<lparr>cs_token = token, cs_id = sessionID, cs_number = initialNumber, cs_created = now\<rparr>
      in case tb_create T session d of
           (Inl e, d1) \<Rightarrow> (Inl (''create session: '' @ db_text e), d1, s)
         | (Inr _, d1) \<Rightarrow> (Inr initialNumber, d1, snd (rd_del R [sessionsPrefix @ token] s)))"

definition RemoveSessions ::
    "(chat_session, 'd) dbtable \<Rightarrow> 's redis \<Rightarrow> string \<Rightarrow> 'd \<Rightarrow> 's \<Rightarrow> (string + unit) \<times> 'd \<times> 's" where
  "RemoveSessions T R token d s =
     (case tb_delete T (of_token token) d of
        (Inl e, d1) \<Rightarrow> (Inl (''delete sessions: '' @ db_text e), d1, s)
      | (Inr _, d1) \<Rightarrow> (Inr (), d1, snd (rd_del R [sessionsPrefix @ token] s)))"

definition GetSession ::
    "(chat_session, 'd) dbtable \<Rightarrow> string \<Rightarrow> string \<Rightarrow> 'd \<Rightarrow> (string \<times> int) option \<times> 'd" where
  "GetSession T token sessionID d =
     (case tb_first T (\<lambda>r. cs_token r = token \<and> cs_id r = sessionID) d of
        (Inl _, d1) \<Rightarrow> (None, d1)
      | (Inr r, d1) \<Rightarrow> (Some (cs_id r, cs_number r), d1))"

text \<open>The pipeline runs its commands in order, each whatever the reply to the others.\<close>

definition repopulateCache :: "'s redis \<Rightarrow> string \<Rightarrow> chat_session list \<Rightarrow> 's \<Rightarrow> 's" where
  "repopulateCache R token rows s =
     (let sessionsKey = sessionsPrefix @ token;
          s1 = snd (rd_del R [sessionsKey] s)
      in if rows \<noteq> [] then
           snd (rd_expire R sessionsKey sessionCacheTTL (snd (rd_rpush R sessionsKey (map cs_id rows) s1)))
         else s1)"

text \<open>Sessions numbered in the order of the cached list, from 1.\<close>

definition cached_sessions :: "string list \<Rightarrow> session_info list" where
  "cached_sessions cached = map (\<lambda>i. \<lparr>si_id = cached ! i, si_number = int i + 1\<rparr>) [0..<length cached]"

definition GetSessions ::
    "(chat_session, 'd) dbtable \<Rightarrow> 's redis \<Rightarrow> string \<Rightarrow> 'd \<Rightarrow> 's \<Rightarrow>
     (string + session_info list) \<times> 'd \<times> 's" where
  "GetSessions T R token d s =
     (case rd_lrange_all R (sessionsPrefix @ token) s of (c, s1) \<Rightarrow>
        let cached = (case c of Inr xs \<Rightarrow> xs | Inl _ \<Rightarrow> []) in
        if cached \<noteq> [] then (Inr (cached_sessions cached), d, s1)
        else
          (case tb_page T (of_token token) (\<lambda>a b. cs_number a \<le> cs_number b) (-1) (-1) d of
             (Inl e, d1) \<Rightarrow> (Inl (''query sessions: '' @ db_text e), d1, s1)
           | (Inr rows, d1) \<Rightarrow>
               if rows = [] then (Inr [], d1, s1)
               else (Inr (map (\<lambda>r. \<lparr>si_id = cs_id r, si_number = cs_number r\<rparr>) rows), d1,
                     repopulateCache R token rows s1)))"

fun invalidate_tokens :: "'s redis \<Rightarrow> string list \<Rightarrow> 's \<Rightarrow> 's" where
  "invalidate_tokens R [] s = s"
| "invalidate_tokens R (t # ts) s = invalidate_tokens R ts (snd (rd_del R [sessionsPrefix @ t] s))"

text \<open>\<open>maxAgeSeconds\<close> is the whole number of seconds \<open>time.Duration\<close> keeps; the product with a
  second wraps.\<close>

definition CleanupOldSessions ::
    "(chat_session, 'd) dbtable \<Rightarrow> 's redis \<Rightarrow> int \<Rightarrow> int \<Rightarrow> 'd \<Rightarrow> 's \<Rightarrow> (dberr + nat) \<times> 'd \<times> 's" where
  "CleanupOldSessions T R now maxAgeSeconds d s =
     (let cutoff = now + wrap64 (- maxAgeSeconds * 1000000000) in
      case tb_find T (\<lambda>r. cs_created r < cutoff) d of
        (Inl e, d1) \<Rightarrow> (Inl e, d1, s)
      | (Inr old, d1) \<Rightarrow>
          if old = [] then (Inr 0, d1, s)
          else (case tb_delete T (\<lambda>r. cs_created r < cutoff) d1 of
                  (Inl e, d2) \<Rightarrow> (Inl e, d2, s)
                | (Inr _, d2) \<Rightarrow>
                    (Inr (length old), d2, invalidate_tokens R (remdups (map cs_token old)) s)))"

section \<open>Coherence of the cache\<close>

definition cached_ids :: "store \<Rightarrow> string \<Rightarrow> string list" where
  "cached_ids st t = list_at st (sessionsPrefix @ t)"

definition cache_ok :: "chat_session list \<Rightarrow> store \<Rightarrow> bool" where
  "cache_ok rows st \<longleftrightarrow>
     (\<forall>t. list_key st (sessionsPrefix @ t) \<and>
        (cached_ids st t \<noteq> [] \<longrightarrow> mset (cached_ids st t) = mset (map cs_id (filter (of_token t) rows))))"

locale session_backend = redis_up R view + table_up T rows cs_id cast
  for R :: "'s redis" and view :: "'s \<Rightarrow> store"
    and T :: "(chat_session, 'd) dbtable" and rows :: "'d \<Rightarrow> chat_session list"
    and cast :: "chat_session \<Rightarrow> chat_session" +
  assumes cast_fields: "cs_token (cast r) = cs_token r" "cs_number (cast r) = cs_number r"

lemma list_readings:
  "kv st k = None \<Longrightarrow> list_key st k \<and> list_at st k = []"
  "kv st' k = kv st k \<Longrightarrow> list_key st' k = list_key st k \<and> list_at st' k = list_at st k"
  by (simp_all add: list_key_def list_at_def)

lemma del_cache:
  "kv (snd (sem_del [sessionsPrefix @ t] st)) (sessionsPrefix @ u) =
     (if u = t then None else kv st (sessionsPrefix @ u))"
  by (simp add: sem_del_def put_key_def drop_key_def)

text \<open>Dropping the cached lists of the tokens whose rows change keeps the cache coherent.\<close>

lemma cache_ok_drop:
  assumes "cache_ok rows st" "\<And>t. t \<in> A \<Longrightarrow> kv st' (sessionsPrefix @ t) = None"
    "\<And>t. t \<notin> A \<Longrightarrow> kv st' (sessionsPrefix @ t) = kv st (sessionsPrefix @ t)"
    "\<And>t. t \<notin> A \<Longrightarrow> filter (of_token t) rows' = filter (of_token t) rows"
  shows "cache_ok rows' st'"
proof -
  have "list_key st' (sessionsPrefix @ t) \<and> (cached_ids st' t \<noteq> [] \<longrightarrow>
      mset (cached_ids st' t) = mset (map cs_id (filter (of_token t) rows')))" for t
  proof (cases "t \<in> A")
    case True
    with assms(2) list_readings(1) show ?thesis by (simp add: cached_ids_def)
  next
    case False
    have "list_key st' (sessionsPrefix @ t) = list_key st (sessionsPrefix @ t) \<and>
        list_at st' (sessionsPrefix @ t) = list_at st (sessionsPrefix @ t)"
      by (rule list_readings(2)) (rule assms(3) [OF False])
    with False assms(1,4) show ?thesis by (simp add: cache_ok_def cached_ids_def)
  qed
  then show ?thesis by (simp add: cache_ok_def)
qed

context session_backend begin

lemma CreateSession_ok:
  assumes "cache_ok (rows d) (view s)" "CreateSession T R now t sid d s = (r, d', s')"
  shows "cache_ok (rows d') (view s')"
    and "sid \<notin> cs_id ` set (rows d) \<Longrightarrow> r = Inr 1 \<and>
      rows d' = rows d @ [cast \<lparr>cs_token = t, cs_id = sid, cs_number = 1, cs_created = now\<rparr>]"
    and "sid \<in> cs_id ` set (rows d) \<Longrightarrow> \<not> is_ok r \<and> rows d' = rows d \<and> s' = s"
proof -
  let ?row = "\<lparr>cs_token = t, cs_id = sid, cs_number = 1, cs_created = now\<rparr>"
  let ?s = "snd (rd_del R [sessionsPrefix @ t] s)"
  have dup: "\<not> is_ok r \<and> rows d' = rows d \<and> s' = s" if "sid \<in> cs_id ` set (rows d)"
    using that assms(2) create_dup [of ?row d] by (auto simp: CreateSession_def case_prod_beta Let_def)
  have new: "r = Inr 1 \<and> rows d' = rows d @ [cast ?row] \<and> s' = ?s" if "sid \<notin> cs_id ` set (rows d)"
    using that assms(2) create_new [of ?row d] by (auto simp: CreateSession_def case_prod_beta Let_def)
  have "cache_ok (rows d @ [cast ?row]) (view ?s)"
    by (rule cache_ok_drop [OF assms(1), of "{t}"]) (auto simp: del_cache of_token_def cast_fields)
  with dup new assms(1) show "cache_ok (rows d') (view s')" by (cases "sid \<in> cs_id ` set (rows d)") auto
  show "sid \<notin> cs_id ` set (rows d) \<Longrightarrow> r = Inr 1 \<and> rows d' = rows d @ [cast ?row]" using new by blast
  show "sid \<in> cs_id ` set (rows d) \<Longrightarrow> \<not> is_ok r \<and> rows d' = rows d \<and> s' = s" by (rule dup)
qed

lemma RemoveSessions_ok:
  assumes "cache_ok (rows d) (view s)" "RemoveSessions T R t d s = (r, d', s')"
  shows "cache_ok (rows d') (view s')" and "r = Inr ()"
    and "rows d' = filter (\<lambda>x. cs_token x \<noteq> t) (rows d)"
proof -
  have e: "r = Inr () \<and> rows d' = filter (\<lambda>x. cs_token x \<noteq> t) (rows d) \<and> s' = snd (rd_del R [sessionsPrefix @ t] s)"
    using assms(2) delete [of "of_token t" d] delete_rows [of "of_token t" d]
    by (auto simp: RemoveSessions_def case_prod_beta of_token_def)
  have "cache_ok (filter (\<lambda>x. cs_token x \<noteq> t) (rows d)) (view (snd (rd_del R [sessionsPrefix @ t] s)))"
    by (rule cache_ok_drop [OF assms(1), of "{t}"]) (auto simp: del_cache of_token_def intro!: filter_cong)
  with e show "cache_ok (rows d') (view s')" "r = Inr ()" "rows d' = filter (\<lambda>x. cs_token x \<noteq> t) (rows d)" by auto
qed

end

lemma invalidate_tokens_other:
  "redis_up R view \<Longrightarrow> kv (view (invalidate_tokens R ts s)) (sessionsPrefix @ u) =
     (if u \<in> set ts then None else kv (view s) (sessionsPrefix @ u))"
proof (induction ts arbitrary: s)
  case (Cons t ts)
  have "view (snd (rd_del R [sessionsPrefix @ t] s)) = snd (sem_del [sessionsPrefix @ t] (view s))"
    by (rule redis_up.next_view(5) [OF Cons.prems])
  with Cons show ?case by (simp add: del_cache)
qed simp

context session_backend begin

lemma repopulate_kv:
  assumes "xs \<noteq> []"
  shows "kv (view (repopulateCache R t xs s)) k =
    (if k = sessionsPrefix @ t then Some (VList (map cs_id xs)) else kv (view s) k)"
proof -
  let ?k = "sessionsPrefix @ t"
  have "list_key (snd (sem_del [?k] (view s))) ?k" "list_at (snd (sem_del [?k] (view s))) ?k = []"
    by (simp_all add: list_readings del_cache)
  then show ?thesis
    using assms by (simp add: repopulateCache_def Let_def sem_rpush_def sem_expire_def sem_del_def)
qed

lemma GetSessions_ok:
  assumes ok: "cache_ok (rows d) (view s)" and e: "GetSessions T R t d s = (r, d', s')"
  shows "\<exists>xs. r = Inr xs \<and> mset (map si_id xs) = mset (map cs_id (filter (of_token t) (rows d)))"
    and "rows d' = rows d" and "cache_ok (rows d') (view s')"
proof -
  let ?k = "sessionsPrefix @ t"
  let ?s1 = "snd (rd_lrange_all R ?k s)"
  have lk: "list_key (view s) ?k" using ok by (simp add: cache_ok_def)
  have rd: "fst (rd_lrange_all R ?k s) = Inr (cached_ids (view s) t)" "view ?s1 = view s"
    using lk by (simp_all add: sem_lrange_all_def cached_ids_def)
  have "(\<exists>xs. r = Inr xs \<and> mset (map si_id xs) = mset (map cs_id (filter (of_token t) (rows d)))) \<and>
      rows d' = rows d \<and> cache_ok (rows d') (view s')"
  proof (cases "cached_ids (view s) t = []")
    case False
    then have "r = Inr (cached_sessions (cached_ids (view s) t)) \<and> d' = d \<and> s' = ?s1"
      using e rd by (auto simp: GetSessions_def case_prod_beta Let_def)
    moreover have "mset (map si_id (cached_sessions xs)) = mset xs" for xs
      by (simp only: cached_sessions_def map_map comp_def session_info.simps map_nth)
    ultimately show ?thesis using ok rd False by (auto simp: cache_ok_def simp del: mset_map)
  next
    case True
    let ?le = "\<lambda>a b. cs_number a \<le> cs_number b"
    obtain rs where rs: "ordered_rows (of_token t) ?le (rows d) rs"
        and pg: "fst (tb_page T (of_token t) ?le (-1) (-1) d) = Inr (page_of (-1) (-1) rs)"
      using page [of ?le "of_token t" d "-1" "-1"] by force
    have pr: "page_of (-1) (-1) rs = rs" by (simp add: page_of_def)
    have m: "mset rs = mset (filter (of_token t) (rows d))" using rs by (simp add: ordered_rows_def)
    then have ids: "mset (map cs_id rs) = mset (map cs_id (filter (of_token t) (rows d)))" by (metis mset_map)
    let ?out = "map (\<lambda>r. \<lparr>si_id = cs_id r, si_number = cs_number r\<rparr>) rs"
    have r: "r = Inr ?out \<and> rows d' = rows d \<and> s' = (if rs = [] then ?s1 else repopulateCache R t rs ?s1)"
      using e rd True pg pr by (auto simp: GetSessions_def case_prod_beta Let_def)
    have "cache_ok (rows d) (view s')"
    proof (cases "rs = []")
      case True
      with r rd ok show ?thesis by simp
    next
      case False
      then have kv: "kv (view s') k = (if k = ?k then Some (VList (map cs_id rs)) else kv (view s) k)" for k
        using r rd(2) repopulate_kv [of rs t ?s1 k] by simp
      have "list_key (view s') (sessionsPrefix @ u) \<and> (cached_ids (view s') u \<noteq> [] \<longrightarrow>
          mset (cached_ids (view s') u) = mset (map cs_id (filter (of_token u) (rows d))))" for u
      proof (cases "u = t")
        case True
        with kv ids show ?thesis by (simp add: list_key_def cached_ids_def list_at_def)
      next
        case False
        have "kv (view s') (sessionsPrefix @ u) = kv (view s) (sessionsPrefix @ u)" using kv False by simp
        from list_readings(2) [OF this] ok show ?thesis by (simp add: cache_ok_def cached_ids_def)
      qed
      then show ?thesis by (simp add: cache_ok_def)
    qed
    moreover have "mset (map si_id ?out) = mset (map cs_id (filter (of_token t) (rows d)))"
      using ids by (simp add: comp_def del: mset_map)
    ultimately show ?thesis using r by (auto simp del: mset_map)
  qed
  then show "\<exists>xs. r = Inr xs \<and> mset (map si_id xs) = mset (map cs_id (filter (of_token t) (rows d)))"
    and "rows d' = rows d" and "cache_ok (rows d') (view s')" by blast+
qed

lemma CleanupOldSessions_ok:
  assumes ok: "cache_ok (rows d) (view s)" and e: "CleanupOldSessions T R now n d s = (r, d', s')"
  defines "old \<equiv> \<lambda>x. cs_created x < now + wrap64 (- n * 1000000000)"
  shows "r = Inr (length (filter old (rows d)))" and "rows d' = filter (\<lambda>x. \<not> old x) (rows d)"
    and "cache_ok (rows d') (view s')"
proof -
  obtain xs where xs: "fst (tb_find T old d) = Inr xs" "ordered_rows old (\<lambda>_ _. True) (rows d) xs"
    using find [of old d] by blast
  note len = ordered_rows_length [OF xs(2)] and set_xs = ordered_rows_set [OF xs(2)]
  have "r = Inr (length (filter old (rows d))) \<and> rows d' = filter (\<lambda>x. \<not> old x) (rows d) \<and> cache_ok (rows d') (view s')"
  proof (cases "xs = []")
    case True
    then have "filter old (rows d) = []" using len by simp
    then have "filter (\<lambda>x. \<not> old x) (rows d) = rows d" by (auto simp: filter_empty_conv filter_id_conv)
    moreover have "r = Inr 0 \<and> rows d' = rows d \<and> s' = s"
      using e xs(1) True by (auto simp: CleanupOldSessions_def case_prod_beta Let_def old_def)
    ultimately show ?thesis using ok len True by simp
  next
    case False
    have st: "r = Inr (length xs) \<and> rows d' = filter (\<lambda>x. \<not> old x) (rows d) \<and>
        s' = invalidate_tokens R (remdups (map cs_token xs)) s"
      using e xs(1) False by (auto simp: CleanupOldSessions_def case_prod_beta Let_def old_def)
    note inval = invalidate_tokens_other [OF redis_up_axioms, of "remdups (map cs_token xs)" s]
    have "cache_ok (filter (\<lambda>x. \<not> old x) (rows d)) (view (invalidate_tokens R (remdups (map cs_token xs)) s))"
    proof (rule cache_ok_drop [OF ok, of "cs_token ` set xs"])
      fix t assume "t \<notin> cs_token ` set xs"
      then have "\<forall>x\<in>set (rows d). of_token t x \<longrightarrow> \<not> old x" using set_xs by (auto simp: of_token_def)
      then show "filter (of_token t) (filter (\<lambda>x. \<not> old x) (rows d)) = filter (of_token t) (rows d)"
        by (auto intro!: filter_cong)
    qed (simp_all add: inval)
    with st len show ?thesis by simp
  qed
  then show "r = Inr (length (filter old (rows d)))" and "rows d' = filter (\<lambda>x. \<not> old x) (rows d)"
    and "cache_ok (rows d') (view s')" by blast+
qed

end

text \<open>The table's column types round the creation time.\<close>

definition session_cast :: "chat_session \<Rightarrow> chat_session" where
  "session_cast r = r\<lparr>cs_created := to_datetime (cs_created r)\<rparr>"

interpretation mem_sessions: session_backend mem_redis "\<lambda>s. s" "mem_table cs_id session_cast" "\<lambda>d. d" session_cast
proof -
  have k: "cs_id (session_cast r) = cs_id r" for r by (simp add: session_cast_def)
  show "session_backend mem_redis (\<lambda>s. s) (mem_table cs_id session_cast) (\<lambda>d. d) session_cast"
    by (intro session_backend.intro mem.redis_up_axioms mem_table_up [of cs_id session_cast, OF k]
        session_backend_axioms.intro) (simp_all add: session_cast_def)
qed

section \<open>Any sequence of operations\<close>

text \<open>A step is one operation of the store on the table and the server.\<close>

inductive session_step ::
    "(chat_session, 'd) dbtable \<Rightarrow> 's redis \<Rightarrow> 'd \<times> 's \<Rightarrow> 'd \<times> 's \<Rightarrow> bool"
  for T :: "(chat_session, 'd) dbtable" and R :: "'s redis" where
  s_create: "CreateSession T R now t sid d s = (r, d', s') \<Longrightarrow> session_step T R (d, s) (d', s')"
| s_remove: "RemoveSessions T R t d s = (r, d', s') \<Longrightarrow> session_step T R (d, s) (d', s')"
| s_list: "GetSessions T R t d s = (r, d', s') \<Longrightarrow> session_step T R (d, s) (d', s')"
| s_cleanup: "CleanupOldSessions T R now n d s = (r, d', s') \<Longrightarrow> session_step T R (d, s) (d', s')"

context session_backend begin

lemma session_steps_cache:
  assumes "(session_step T R)\<^sup>*\<^sup>* x y" "cache_ok (rows (fst x)) (view (snd x))"
  shows "cache_ok (rows (fst y)) (view (snd y))"
  using assms
proof (induction rule: rtranclp_induct)
  case (step y z)
  then have ok: "cache_ok (rows (fst y)) (view (snd y))" by blast
  from step(2) show ?case
  proof cases
    case (s_create now t sid d s r d' s')
    with ok show ?thesis using CreateSession_ok(1) [of d s now t sid r d' s'] by simp
  next
    case (s_remove t d s r d' s')
    with ok show ?thesis using RemoveSessions_ok(1) [of d s t r d' s'] by simp
  next
    case (s_list t d s r d' s')
    with ok show ?thesis using GetSessions_ok(3) [of d s t r d' s'] by simp
  next
    case (s_cleanup now n d s r d' s')
    with ok show ?thesis using CleanupOldSessions_ok(3) [of d s now n r d' s'] by simp
  qed
qed

end

lemma empty_cache_ok: "(\<And>t. kv st (sessionsPrefix @ t) = None) \<Longrightarrow> cache_ok rows st"
  by (simp add: cache_ok_def cached_ids_def list_readings(1))

end
