(* ===== verification/BridgeApi.thy ===== *)
theory BridgeApi
  imports BotMessage Sessions
begin

text \<open>
  The operations of \<open>internal/service/bridge.go\<close> the HTTP handlers call on chat sessions, and the
  removal of a token's bot. They combine the session store, the registry and the worker inboxes.
\<close>

section \<open>Sessions through the bridge\<close>

text \<open>\<open>uuid\<close> is the fresh session id.\<close>

definition BridgeCreateSession ::
    "(chat_session, 'd) dbtable \<Rightarrow> 's redis \<Rightarrow> int \<Rightarrow> string \<Rightarrow> string \<Rightarrow> 'd \<Rightarrow> 's \<Rightarrow>
     (string + string \<times> int) \<times> 'd \<times> 's" where
  "BridgeCreateSession T R now uuid token d s =
     (let sessionID = uuid in
      case CreateSession T R now token sessionID d s of
        (Inl e, d1, s1) \<Rightarrow> (Inl e, d1, s1)
      | (Inr num, d1, s1) \<Rightarrow> (Inr (sessionID, num), d1, s1))"

definition BridgeGetSession ::
    "(chat_session, 'd) dbtable \<Rightarrow> string \<Rightarrow> string \<Rightarrow> 'd \<Rightarrow> (string \<times> int) option \<times> 'd" where
  "BridgeGetSession T token sessionID d = GetSession T token sessionID d"

definition BridgeGetSessions ::
    "(chat_session, 'd) dbtable \<Rightarrow> 's redis \<Rightarrow> string \<Rightarrow> 'd \<Rightarrow> 's \<Rightarrow> (string + session_info list) \<times> 'd \<times> 's" where
  "BridgeGetSessions T R token d s = GetSessions T R token d s"

definition BridgeCleanupOldSessions ::
    "(chat_session, 'd) dbtable \<Rightarrow> 's redis \<Rightarrow> int \<Rightarrow> int \<Rightarrow> 'd \<Rightarrow> 's \<Rightarrow> (dberr + nat) \<times> 'd \<times> 's" where
  "BridgeCleanupOldSessions T R now maxAgeDays d s = CleanupOldSessions T R now (maxAgeDays * 86400) d s"

section \<open>Removing a token's bot\<close>

definition RemoveBotSessions ::
    "(chat_session, 'd) dbtable \<Rightarrow> 's redis \<Rightarrow> 's mq \<Rightarrow> string \<Rightarrow> bridge \<Rightarrow> 'd \<Rightarrow> 's \<Rightarrow>
     (string + unit) \<times> bridge \<times> 'd \<times> 's" where
  "RemoveBotSessions T R Q token b d s =
     (case RemoveSessions T R token d s of
        (Inl e, d1, s1) \<Rightarrow> (Inl e, b, d1, s1)
      | (Inr _, d1, s1) \<Rightarrow>
          (case map_of (b_bots b) token of
             Some conn \<Rightarrow>
               (case UnregisterBot R token None
                   (Close conn (ae_status ErrWSTokenDeleted) (ae_message ErrWSTokenDeleted) b) s1 of
                  (b2, s2) \<Rightarrow> (Inr (), b2, d1, s2))
           | None \<Rightarrow>
               let s2 = (case ResolveBotRoute R token s1 of
                           (Inr route, sr) \<Rightarrow> snd (PublishDisconnectToWorkerInbox Q (br_worker route) token sr)
                         | (Inl _, sr) \<Rightarrow> sr);
                   s3 = snd (rd_zrem R BotAliveKey token s2);
                   b1 = enqueueArtifactCleanup token b;
                   s4 = snd (rd_del R [BotOwnerPrefix @ token] s3);
                   s5 = snd (rd_del R [BotGenPrefix @ token] s4)
               in (Inr (), b1, d1, s5)))"

section \<open>Laws\<close>

lemma wrap64_month: "wrap64 (- (30 * 86400) * 1000000000) = - (30 * 86400) * 1000000000"
  by (rule wrap64_id) (simp add: fits64_def min_int64_def max_int64_def)

context redis_up begin

lemma session_del_shared:
  "shared_of (snd (sem_del [sessionsPrefix @ t] st)) = shared_of st"
  "bots_ok (snd (sem_del [sessionsPrefix @ t] st)) = bots_ok st"
proof -
  have "shared_of (snd (sem_del [sessionsPrefix @ t] st)) = shared_of st \<and>
      bots_ok (snd (sem_del [sessionsPrefix @ t] st)) = bots_ok st"
    by (rule shared_cong) (simp_all add: sem_del_def drop_key_def sessionsPrefix_def key_defs)
  then show "shared_of (snd (sem_del [sessionsPrefix @ t] st)) = shared_of st"
    "bots_ok (snd (sem_del [sessionsPrefix @ t] st)) = bots_ok st" by blast+
qed

lemma disconnect_shared:
  "shared_of (view (snd (PublishDisconnectToWorkerInbox (NewRedisStreamQueue R n) w t s))) = shared_of (view s)"
  "bots_ok (view (snd (PublishDisconnectToWorkerInbox (NewRedisStreamQueue R n) w t s))) = bots_ok (view s)"
proof -
  let ?s' = "snd (PublishDisconnectToWorkerInbox (NewRedisStreamQueue R n) w t s)"
  have "kv (view ?s') k = kv (view s) k" if "k \<noteq> workerInboxName w" for k
    using that Publish_frame [of k "workerInboxName w"]
    by (simp add: PublishDisconnectToWorkerInbox_def case_prod_beta Let_def split: sum.splits)
  then have "shared_of (view ?s') = shared_of (view s) \<and> bots_ok (view ?s') = bots_ok (view s)"
    by (intro shared_cong) (simp_all add: workerInboxName_def key_simps)
  then show "shared_of (view ?s') = shared_of (view s)" "bots_ok (view ?s') = bots_ok (view s)" by blast+
qed

text \<open>Removing a bot that another worker holds, or none, forgets its registration.\<close>

lemma RemoveBotSessions_remote:
  assumes ok: "bots_ok (view s)" and no: "map_of (b_bots b) t = None"
    and del: "\<exists>n. fst (tb_delete T (of_token t) d) = Inr n"
    and e: "RemoveBotSessions T R (NewRedisStreamQueue R n) t b d s = (r, b', d', s')"
  shows "r = Inr () \<and> shared_of (view s') = sh_forget {t} (shared_of (view s)) \<and> b_bots b' = b_bots b"
proof -
  let ?Q = "NewRedisStreamQueue R n"
  let ?s1 = "snd (snd (RemoveSessions T R t d s))"
  have s1: "?s1 = snd (rd_del R [sessionsPrefix @ t] s)" and r1: "fst (RemoveSessions T R t d s) = Inr ()"
    using del by (auto simp: RemoveSessions_def case_prod_beta)
  have sh1: "shared_of (view ?s1) = shared_of (view s)" "bots_ok (view ?s1)"
    using ok by (simp_all add: s1 session_del_shared)
  define s2 where "s2 = (case ResolveBotRoute R t ?s1 of
     (Inr route, sr) \<Rightarrow> snd (PublishDisconnectToWorkerInbox ?Q (br_worker route) t sr) | (Inl _, sr) \<Rightarrow> sr)"
  note RR = ResolveBotRoute_reply(2) [OF sh1(2), of t]
  have sh2: "shared_of (view s2) = shared_of (view s)" "bots_ok (view s2)"
    using sh1 RR by (auto simp: s2_def case_prod_beta disconnect_shared simp del: mq_fields split: sum.splits)
  define s3 where "s3 = snd (rd_zrem R BotAliveKey t s2)"
  have sh3: "shared_of (view s3) = (shared_of (view s))\<lparr>sh_alive := (sh_alive (shared_of (view s)))(t := None)\<rparr>"
    "bots_ok (view s3)"
    using zrem_shared [OF sh2(2), of t] sh2(1) by (simp_all add: s3_def del: sh_alive_of)
  define s4 where "s4 = snd (rd_del R [BotOwnerPrefix @ t] s3)"
  have sh4: "shared_of (view s4) = (shared_of (view s3))\<lparr>sh_owner := (sh_owner (shared_of (view s3)))(t := None)\<rparr>"
    "bots_ok (view s4)"
    using del_owner_shared [OF sh3(2), of t] by (simp_all add: s4_def)
  have sh5: "shared_of (view (snd (rd_del R [BotGenPrefix @ t] s4))) =
      (shared_of (view s4))\<lparr>sh_gen := (sh_gen (shared_of (view s4)))(t := None)\<rparr>"
    using del_gen_shared(1) [OF sh4(2), of t] by simp
  have "r = Inr () \<and> b' = enqueueArtifactCleanup t b \<and> s' = snd (rd_del R [BotGenPrefix @ t] s4)"
    using e no r1 by (auto simp: RemoveBotSessions_def case_prod_beta Let_def s4_def s3_def s2_def
        simp del: mq_fields split: sum.splits)
  then show ?thesis
    by (auto simp: sh5 sh4(1) sh3(1) bridge_simps fun_eq_iff restrict_map_def intro!: shared_eqI
        simp del: sh_alive_of next_view)
qed

end

end
