(* ===== verification/Monitor.thy ===== *)
theory Monitor
  imports Shared
begin

text \<open>
  The bot status monitor of \<open>internal/service/bot_status_monitor.go\<close>: it polls the heartbeats of
  the bots that open chat streams wait for and signals the streams whose bot is gone.

  The map \<open>sseConnections\<close> is an association list by inbox key. A stream is a number, and its
  channel \<open>DisconnectC\<close>, which buffers one signal, is whether the number is in \<open>m_signalled\<close>.
\<close>

definition monitorBotTTL :: int where "monitorBotTTL = 30"

record sse_conn =
  sc_id :: nat
  sc_token :: string
  sc_session :: string
  sc_inbox :: string

record monitor =
  m_conns :: "(string \<times> sse_conn) list"
  m_signalled :: "nat list"

definition empty_monitor :: monitor where
  "empty_monitor = \<lparr>m_conns = [], m_signalled = []\<rparr>"

section \<open>Operations\<close>

text \<open>\<open>n\<close> is the identity of the new connection.\<close>

definition RegisterSSEConnection :: "nat \<Rightarrow> string \<Rightarrow> string \<Rightarrow> string \<Rightarrow> monitor \<Rightarrow> sse_conn \<times> monitor" where
  "RegisterSSEConnection n token sessionID inboxKey m =
     (let conn = \<lparr>sc_id = n, sc_token = token, sc_session = sessionID, sc_inbox = inboxKey\<rparr>
      in (conn, m\<lparr>m_conns := AList.update inboxKey conn (m_conns m)\<rparr>))"

definition UnregisterSSEConnection :: "string \<Rightarrow> monitor \<Rightarrow> monitor" where
  "UnregisterSSEConnection inboxKey m = m\<lparr>m_conns := AList.delete inboxKey (m_conns m)\<rparr>"

definition GetSSEConnection :: "string \<Rightarrow> monitor \<Rightarrow> sse_conn option" where
  "GetSSEConnection inboxKey m = map_of (m_conns m) inboxKey"

definition signal :: "nat \<Rightarrow> nat list \<Rightarrow> nat list" where
  "signal n sig = (if n \<in> set sig then sig else n # sig)"

definition notifyBotDisconnected :: "string \<Rightarrow> monitor \<Rightarrow> monitor" where
  "notifyBotDisconnected token m =
     m\<lparr>m_signalled := fold (\<lambda>(_, conn) sig. if sc_token conn = token then signal (sc_id conn) sig else sig)
        (m_conns m) (m_signalled m)\<rparr>"

text \<open>The pipelined \<open>ZSCORE\<close> commands: one reply each.\<close>

fun zscores :: "'s redis \<Rightarrow> string list \<Rightarrow> 's \<Rightarrow> (string \<times> (rerr + int)) list \<times> 's" where
  "zscores R [] s = ([], s)"
| "zscores R (t # ts) s =
     (case rd_zscore R BotAliveKey t s of (r, s1) \<Rightarrow>
        case zscores R ts s1 of (rs, s2) \<Rightarrow> ((t, r) # rs, s2))"

definition check_reply :: "int \<Rightarrow> string \<times> (rerr + int) \<Rightarrow> monitor \<Rightarrow> monitor" where
  "check_reply now cmd m =
     (case cmd of
        (token, Inl RNil) \<Rightarrow> notifyBotDisconnected token m
      | (_, Inl (RFail _)) \<Rightarrow> m
      | (token, Inr score) \<Rightarrow> if now - score \<ge> monitorBotTTL then notifyBotDisconnected token m else m)"

definition checkAllBots :: "'s redis \<Rightarrow> int \<Rightarrow> monitor \<Rightarrow> 's \<Rightarrow> monitor \<times> 's" where
  "checkAllBots R now m s =
     (let tokenList = remdups (map (\<lambda>(_, conn). sc_token conn) (m_conns m)) in
      if tokenList = [] then (m, s)
      else (case zscores R tokenList s of (cmds, s1) \<Rightarrow> (fold (check_reply now) cmds m, s1)))"

section \<open>What a check signals\<close>

definition streams_of :: "string \<Rightarrow> monitor \<Rightarrow> nat set" where
  "streams_of t m = {sc_id c | k c. (k, c) \<in> set (m_conns m) \<and> sc_token c = t}"

lemma signal_set [simp]: "set (signal n sig) = insert n (set sig)"
  by (auto simp: signal_def)

lemma notify_signalled:
  "set (m_signalled (notifyBotDisconnected t m)) = set (m_signalled m) \<union> streams_of t m"
proof -
  have "set (fold (\<lambda>(_, conn) sig. if sc_token conn = t then signal (sc_id conn) sig else sig) cs sig) =
      set sig \<union> {sc_id c | k c. (k, c) \<in> set cs \<and> sc_token c = t}" for cs :: "(string \<times> sse_conn) list" and sig
  proof (induction cs arbitrary: sig)
    case (Cons x cs)
    then show ?case by (cases x) auto
  qed simp
  then show ?thesis by (simp add: notifyBotDisconnected_def streams_of_def)
qed

lemma notify_conns [simp]: "m_conns (notifyBotDisconnected t m) = m_conns m"
  by (simp add: notifyBotDisconnected_def)

definition says_gone :: "int \<Rightarrow> rerr + int \<Rightarrow> bool" where
  "says_gone now r = (case r of Inl RNil \<Rightarrow> True | Inl (RFail _) \<Rightarrow> False | Inr sc \<Rightarrow> now - sc \<ge> 30)"

lemma check_reply_effect:
  "m_conns (check_reply now (t, r) m) = m_conns m"
  "set (m_signalled (check_reply now (t, r) m)) = set (m_signalled m) \<union> (if says_gone now r then streams_of t m else {})"
  by (auto simp: check_reply_def says_gone_def monitorBotTTL_def notify_signalled split: sum.splits rerr.splits)

lemma fold_check:
  "m_conns (fold (check_reply now) cmds m) = m_conns m \<and>
   (\<forall>x. x \<in> set (m_signalled (fold (check_reply now) cmds m)) \<longleftrightarrow>
     x \<in> set (m_signalled m) \<or> (\<exists>t r. (t, r) \<in> set cmds \<and> says_gone now r \<and> x \<in> streams_of t m))"
proof (induction cmds arbitrary: m)
  case (Cons c cmds)
  obtain t r where c: "c = (t, r)" by (cases c)
  let ?m = "check_reply now (t, r) m"
  have s: "streams_of u ?m = streams_of u m" for u by (simp add: streams_of_def check_reply_effect)
  show ?case using Cons.IH [of ?m] c s check_reply_effect [of now t r m]
    by (auto split: if_splits)
qed simp

lemma zscores_tokens: "map fst (fst (zscores R ts s)) = ts"
  by (induction ts arbitrary: s) (auto simp: case_prod_beta)

context redis_up begin

lemma zscores_reply:
  assumes "bots_ok (view s)"
  shows "view (snd (zscores R ts s)) = view s \<and>
    (\<forall>(t, r)\<in>set (fst (zscores R ts s)). says_gone now r \<longleftrightarrow> \<not> sh_online now t (shared_of (view s)))"
  using assms
proof (induction ts arbitrary: s)
  case (Cons t ts)
  have z: "zset_key (view s) BotAliveKey" using Cons.prems by (simp add: bots_ok_def)
  let ?s = "snd (rd_zscore R BotAliveKey t s)"
  have v: "view ?s = view s" by (simp add: sem_zscore_def)
  have "says_gone now (fst (rd_zscore R BotAliveKey t s)) \<longleftrightarrow> \<not> sh_online now t (shared_of (view s))"
    using z by (auto simp: sem_zscore_def says_gone_def sh_online_def split: option.splits)
  with Cons.IH [of ?s] v Cons.prems show ?case by (simp add: case_prod_beta)
qed simp

text \<open>On a server that answers, a check signals exactly the streams whose bot is offline.\<close>

lemma checkAllBots_exact:
  assumes "bots_ok (view s)" and e: "checkAllBots R now m s = (m', s')"
  shows "m_conns m' = m_conns m" and "view s' = view s"
    and "set (m_signalled m') = set (m_signalled m) \<union>
      {sc_id c | k c. (k, c) \<in> set (m_conns m) \<and> \<not> sh_online now (sc_token c) (shared_of (view s))}"
proof -
  let ?ts = "remdups (map (\<lambda>(_, conn). sc_token conn) (m_conns m))"
  let ?cmds = "fst (zscores R ?ts s)"
  note Z = zscores_reply [OF assms(1), of ?ts now]
  have toks: "fst ` set ?cmds = sc_token ` snd ` set (m_conns m)"
  proof -
    have "fst ` set ?cmds = set (map fst ?cmds)" by simp
    also have "\<dots> = set ?ts" by (simp only: zscores_tokens)
    also have "\<dots> = sc_token ` snd ` set (m_conns m)" by (force simp: image_iff)
    finally show ?thesis .
  qed
  have "m_conns m' = m_conns m \<and> view s' = view s \<and> set (m_signalled m') = set (m_signalled m) \<union>
      {sc_id c | k c. (k, c) \<in> set (m_conns m) \<and> \<not> sh_online now (sc_token c) (shared_of (view s))}"
  proof (cases "m_conns m = []")
    case True
    then show ?thesis using e by (auto simp: checkAllBots_def)
  next
    case False
    then have "m' = fold (check_reply now) ?cmds m \<and> s' = snd (zscores R ?ts s)"
      using e by (auto simp: checkAllBots_def Let_def case_prod_beta)
    moreover have "(\<exists>t r. (t, r) \<in> set ?cmds \<and> says_gone now r \<and> x \<in> streams_of t m) \<longleftrightarrow>
        x \<in> {sc_id c | k c. (k, c) \<in> set (m_conns m) \<and> \<not> sh_online now (sc_token c) (shared_of (view s))}" for x
    proof -
      have Z2: "says_gone now r \<longleftrightarrow> \<not> sh_online now t (shared_of (view s))" if "(t, r) \<in> set ?cmds" for t r
        using Z that by blast
      have "(\<exists>r. (t, r) \<in> set ?cmds \<and> says_gone now r) \<longleftrightarrow>
          t \<in> fst ` set ?cmds \<and> \<not> sh_online now t (shared_of (view s))" for t
      proof
        assume "\<exists>r. (t, r) \<in> set ?cmds \<and> says_gone now r"
        then obtain r where "(t, r) \<in> set ?cmds" "says_gone now r" by blast
        with Z2 show "t \<in> fst ` set ?cmds \<and> \<not> sh_online now t (shared_of (view s))" by force
      next
        assume a: "t \<in> fst ` set ?cmds \<and> \<not> sh_online now t (shared_of (view s))"
        then obtain r where "(t, r) \<in> set ?cmds" by auto
        with a Z2 show "\<exists>r. (t, r) \<in> set ?cmds \<and> says_gone now r" by blast
      qed
      then have "\<And>t. (\<exists>r. (t, r) \<in> set ?cmds \<and> says_gone now r) \<longleftrightarrow>
          t \<in> sc_token ` snd ` set (m_conns m) \<and> \<not> sh_online now t (shared_of (view s))" unfolding toks .
      then have "(\<exists>t r. (t, r) \<in> set ?cmds \<and> says_gone now r \<and> x \<in> streams_of t m) \<longleftrightarrow>
          (\<exists>t. t \<in> sc_token ` snd ` set (m_conns m) \<and> \<not> sh_online now t (shared_of (view s)) \<and> x \<in> streams_of t m)"
        by blast
      also have "\<dots> \<longleftrightarrow>
        x \<in> {sc_id c | k c. (k, c) \<in> set (m_conns m) \<and> \<not> sh_online now (sc_token c) (shared_of (view s))}"
      proof
        assume "\<exists>t. t \<in> sc_token ` snd ` set (m_conns m) \<and> \<not> sh_online now t (shared_of (view s)) \<and> x \<in> streams_of t m"
        then show "x \<in> {sc_id c | k c. (k, c) \<in> set (m_conns m) \<and> \<not> sh_online now (sc_token c) (shared_of (view s))}"
          unfolding streams_of_def by fastforce
      next
        assume "x \<in> {sc_id c | k c. (k, c) \<in> set (m_conns m) \<and> \<not> sh_online now (sc_token c) (shared_of (view s))}"
        then obtain k c where c: "x = sc_id c" "(k, c) \<in> set (m_conns m)" "\<not> sh_online now (sc_token c) (shared_of (view s))"
          by blast
        then have "sc_token c \<in> sc_token ` snd ` set (m_conns m)" by force
        moreover have "x \<in> streams_of (sc_token c) m" using c by (auto simp: streams_of_def)
        ultimately show "\<exists>t. t \<in> sc_token ` snd ` set (m_conns m) \<and> \<not> sh_online now t (shared_of (view s)) \<and> x \<in> streams_of t m"
          using c(3) by blast
      qed
      finally show ?thesis .
    qed
    ultimately show ?thesis using fold_check [of now ?cmds m] Z by (auto simp: set_eq_iff)
  qed
  then show "m_conns m' = m_conns m" and "view s' = view s"
    and "set (m_signalled m') = set (m_signalled m) \<union>
      {sc_id c | k c. (k, c) \<in> set (m_conns m) \<and> \<not> sh_online now (sc_token c) (shared_of (view s))}" by blast+
qed

end

context redis_service begin

text \<open>On a server whose calls may fail, a check signals no stream whose bot is online.\<close>

lemma zscores_safe:
  assumes "bots_ok (view s)" "(t, r) \<in> set (fst (zscores R ts s))" "says_gone now r"
  shows "\<not> sh_online now t (shared_of (view s))"
  using assms
proof (induction ts arbitrary: s)
  case (Cons u ts)
  let ?r = "fst (rd_zscore R BotAliveKey u s)" and ?s = "snd (rd_zscore R BotAliveKey u s)"
  have z: "zset_key (view s) BotAliveKey" using Cons.prems by (simp add: bots_ok_def)
  have "view ?s = view s" and
    "(?r = fst (sem_zscore BotAliveKey u (view s))) \<or> (\<exists>e. ?r = Inl (RFail e))"
    using may_zscore [of BotAliveKey u] by (auto simp: may_fail_def det_def sem_zscore_def dest!: spec [of _ s] split: if_splits)
  moreover have "(t, r) = (u, ?r) \<or> (t, r) \<in> set (fst (zscores R ts ?s))"
    using Cons.prems by (auto simp: case_prod_beta)
  ultimately show ?case
    using Cons.IH [of ?s] Cons.prems z
    by (auto simp: sem_zscore_def says_gone_def sh_online_def split: option.splits)
qed simp

lemma checkAllBots_safe:
  assumes "bots_ok (view s)" "(k, c) \<in> set (m_conns m)" "inj_on (\<lambda>(_, c). sc_id c) (set (m_conns m))"
    "sh_online now (sc_token c) (shared_of (view s))" "sc_id c \<notin> set (m_signalled m)"
  shows "sc_id c \<notin> set (m_signalled (fst (checkAllBots R now m s)))"
proof -
  let ?ts = "remdups (map (\<lambda>(_, conn). sc_token conn) (m_conns m))"
  have "sc_id c \<notin> streams_of t m" if "(t, r) \<in> set (fst (zscores R ?ts s))" "says_gone now r" for t r
  proof
    assume "sc_id c \<in> streams_of t m"
    then obtain k' c' where c': "(k', c') \<in> set (m_conns m)" "sc_token c' = t" "sc_id c' = sc_id c"
      by (auto simp: streams_of_def)
    with assms(2) inj_onD [OF assms(3), of "(k', c')" "(k, c)"] have "c' = c" by simp
    with c' zscores_safe [OF assms(1) that] assms(4) show False by simp
  qed
  then show ?thesis
    using assms(5) fold_check [of now "fst (zscores R ?ts s)" m]
    by (auto simp: checkAllBots_def Let_def case_prod_beta)
qed

end

end
