(* ===== verification/SseWire.thy ===== *)
theory SseWire
  imports Json
begin

text \<open>
  The server-sent-event wire format: the writer of the backend (\<open>internal/pkg/sse.go\<close>) and the
  reader of the probe (\<open>src/probe/client/sse.go\<close>), with the theorem that the reader recovers from
  a well-formed stream the outcome of its events.
\<close>

abbreviation LF :: char where "LF \<equiv> CHR 0x0A"
abbreviation CR :: char where "CR \<equiv> CHR 0x0D"

section \<open>The writer\<close>

text \<open>The dynamic type of the data: a string (or bytes), or a value that is marshalled.\<close>

datatype sse_data = Raw string | Val json

definition FormatSSEEvent :: "string \<Rightarrow> sse_data \<Rightarrow> string" where
  "FormatSSEEvent eventType data =
     (let dataStr = (case data of Raw v \<Rightarrow> v | Val j \<Rightarrow> json_marshal j)
      in ''event: '' @ eventType @ [LF] @ ''data: '' @ dataStr @ [LF, LF])"

definition FormatSSEComment :: string where
  "FormatSSEComment = '': heartbeat'' @ [LF, LF]"

section \<open>The reader\<close>

record chat_result =
  cr_session :: string
  cr_content :: string
  cr_has_error :: bool
  cr_error :: string

text \<open>\<open>*CodeError\<close>: the code and the message without its formatted arguments.\<close>

type_synonym code_error = "int \<times> string"

text \<open>\<open>bufio.Scanner\<close> with \<open>ScanLines\<close>: lines end at a newline, a trailing return is dropped, the
  last line needs no newline, and a line that does not fit the 64 KB buffer stops the scan with
  \<open>ErrTooLong\<close>.\<close>

definition raw_lines :: "string \<Rightarrow> string list" where
  "raw_lines s = (let ls = split_on LF s in if last ls = [] then butlast ls else ls)"

definition strip_cr :: "string \<Rightarrow> string" where
  "strip_cr l = (if l \<noteq> [] \<and> last l = CR then butlast l else l)"

definition line_fits :: "string \<Rightarrow> bool" where
  "line_fits l = (length l < 65536)"

definition trim_prefix :: "string \<Rightarrow> string \<Rightarrow> string" where
  "trim_prefix s p = (if has_prefix s p then drop (length p) s else s)"

text \<open>The scan loop of \<open>Chat\<close>: the current event type and the result so far are its variables.\<close>

fun chat_scan :: "string list \<Rightarrow> string \<Rightarrow> chat_result \<Rightarrow> code_error + chat_result" where
  "chat_scan [] eventType result =
     (if cr_session result = [] then Inl (-1, ''stream ended without session event'')
      else Inl (-1, ''stream ended without done or error event''))"
| "chat_scan (raw # rest) eventType result =
     (if \<not> line_fits raw then Inl (-1, ''read stream'')
      else
        let line = strip_cr raw in
        if has_prefix line ''event: '' then chat_scan rest (trim_prefix line ''event: '') result
        else if has_prefix line ''data: '' then
          let j = json_unmarshal (trim_prefix line ''data: '') in
          if eventType = ''session'' then
            chat_scan rest '''' (result\<lparr>cr_session := struct_str j ''sessionId''\<rparr>)
          else if eventType = ''done'' then
            Inr (result\<lparr>cr_content := struct_str j ''content''\<rparr>)
          else if eventType = ''error'' then
            Inr (result\<lparr>cr_has_error := True, cr_error := struct_str j ''content''\<rparr>)
          else chat_scan rest '''' result
        else chat_scan rest eventType result)"

definition empty_chat_result :: chat_result where
  "empty_chat_result = \<lparr>cr_session = [], cr_content = [], cr_has_error = False, cr_error = []\<rparr>"

definition read_chat_stream :: "string \<Rightarrow> code_error + chat_result" where
  "read_chat_stream body = chat_scan (raw_lines body) '''' empty_chat_result"

section \<open>Agreement of writer and reader\<close>

text \<open>A stream as the backend writes it: events carrying a JSON object, and heartbeats.\<close>

datatype sse_frame = Event string json | Heartbeat

definition frame_text :: "sse_frame \<Rightarrow> string" where
  "frame_text f = (case f of Event t j \<Rightarrow> FormatSSEEvent t (Val j) | Heartbeat \<Rightarrow> FormatSSEComment)"

text \<open>What the stream means: the first \<open>done\<close> or \<open>error\<close> event decides, the last \<open>session\<close> event
  before it names the session.\<close>

fun stream_outcome :: "sse_frame list \<Rightarrow> chat_result \<Rightarrow> code_error + chat_result" where
  "stream_outcome [] result =
     (if cr_session result = [] then Inl (-1, ''stream ended without session event'')
      else Inl (-1, ''stream ended without done or error event''))"
| "stream_outcome (Heartbeat # fs) result = stream_outcome fs result"
| "stream_outcome (Event t j # fs) result =
     (let j' = Some (canon j) in
      if t = ''session'' then stream_outcome fs (result\<lparr>cr_session := struct_str j' ''sessionId''\<rparr>)
      else if t = ''done'' then Inr (result\<lparr>cr_content := struct_str j' ''content''\<rparr>)
      else if t = ''error'' then
        Inr (result\<lparr>cr_has_error := True, cr_error := struct_str j' ''content''\<rparr>)
      else stream_outcome fs result)"

text \<open>Frames the wire can carry: a one-line type, a printable value, and lines the reader's buffer
  holds.\<close>

definition frame_ok :: "sse_frame \<Rightarrow> bool" where
  "frame_ok f = (case f of
     Event t j \<Rightarrow> LF \<notin> set t \<and> CR \<notin> set t \<and> wf_json j \<and> length t < 65000 \<and>
                  length (json_marshal j) < 65530
   | Heartbeat \<Rightarrow> True)"

text \<open>How the reader sees one frame: its lines, then the blank line that ends it.\<close>

definition frame_lines :: "sse_frame \<Rightarrow> string list" where
  "frame_lines f =
     (case f of Event t j \<Rightarrow> [''event: '' @ t, ''data: '' @ json_marshal j, []]
      | Heartbeat \<Rightarrow> ['': heartbeat'', []])"

lemma split_lines_append:
  "\<forall>l\<in>set ls. LF \<notin> set l \<Longrightarrow> split_on LF (concat (map (\<lambda>l. l @ [LF]) ls) @ rest) = ls @ split_on LF rest"
  by (induction ls) (auto simp: split_on_append)

lemma frame_text_lines: "frame_text f = concat (map (\<lambda>l. l @ [LF]) (frame_lines f))"
  by (cases f) (simp_all add: frame_text_def frame_lines_def FormatSSEEvent_def FormatSSEComment_def)

lemma frame_lines_no_LF: "frame_ok f \<Longrightarrow> \<forall>l\<in>set (frame_lines f). LF \<notin> set l"
  by (cases f) (auto simp: frame_ok_def frame_lines_def marshal_one_line)

lemma raw_lines_frames:
  assumes "\<forall>f\<in>set fs. frame_ok f"
  shows "raw_lines (concat (map frame_text fs)) = concat (map frame_lines fs)"
proof -
  let ?ls = "concat (map frame_lines fs)"
  have "concat (map frame_text fs) = concat (map (\<lambda>l. l @ [LF]) ?ls)"
    by (induction fs) (simp_all add: frame_text_lines)
  moreover have "\<forall>l\<in>set ?ls. LF \<notin> set l"
    using assms frame_lines_no_LF by fastforce
  ultimately have "split_on LF (concat (map frame_text fs)) = ?ls @ [[]]"
    using split_lines_append [of ?ls "[]"] by simp
  then show ?thesis by (simp add: raw_lines_def)
qed

lemma strip_cr_id: "CR \<notin> set l \<Longrightarrow> strip_cr l = l"
  by (auto simp: strip_cr_def dest: last_in_set)

lemma chat_scan_frame:
  assumes "frame_ok (Event t j)"
  shows "chat_scan (frame_lines (Event t j) @ rest) e r =
    (let j' = Some (canon j) in
     if t = ''session'' then chat_scan rest [] (r\<lparr>cr_session := struct_str j' ''sessionId''\<rparr>)
     else if t = ''done'' then Inr (r\<lparr>cr_content := struct_str j' ''content''\<rparr>)
     else if t = ''error'' then Inr (r\<lparr>cr_has_error := True, cr_error := struct_str j' ''content''\<rparr>)
     else chat_scan rest [] r)"
proof -
  have w: "wf_json j" using assms by (simp add: frame_ok_def)
  have "line_fits (''event: '' @ t)" "line_fits (''data: '' @ json_marshal j)" "line_fits []"
    using assms by (simp_all add: frame_ok_def line_fits_def)
  moreover have "strip_cr (''event: '' @ t) = ''event: '' @ t"
    "strip_cr (''data: '' @ json_marshal j) = ''data: '' @ json_marshal j"
    using assms marshal_one_line [OF w] by (auto simp: frame_ok_def intro!: strip_cr_id)
  moreover have "strip_cr [] = []" by (simp add: strip_cr_def)
  ultimately show ?thesis
    using json_roundtrip [OF w]
    by (simp add: frame_lines_def has_prefix_def trim_prefix_def Let_def)
qed

lemma chat_scan_heartbeat: "chat_scan (frame_lines Heartbeat @ rest) e r = chat_scan rest e r"
  by (simp add: frame_lines_def line_fits_def strip_cr_def has_prefix_def Let_def)

lemma chat_scan_frames:
  "\<forall>f\<in>set fs. frame_ok f \<Longrightarrow>
   chat_scan (concat (map frame_lines fs)) [] r = stream_outcome fs r"
proof (induction fs arbitrary: r)
  case (Cons f fs)
  then show ?case
    by (cases f) (simp_all add: chat_scan_frame chat_scan_heartbeat Let_def)
qed simp

lemma read_stream_outcome:
  "\<forall>f\<in>set fs. frame_ok f \<Longrightarrow>
   read_chat_stream (concat (map frame_text fs)) = stream_outcome fs empty_chat_result"
  by (simp add: read_chat_stream_def raw_lines_frames chat_scan_frames)

end
