(* ===== verification/Tokens.thy ===== *)
theory Tokens
  imports Db Strconv Shared
begin

text \<open>
  API tokens of \<open>internal/service/token_manager.go\<close>: rows with an expiry, validation, listing with
  a page window, and the counts the admin pages show.

  Instants are nanoseconds. The order of a page is by a column, ties in any order; the column
  \<open>name\<close> is ordered by an argument (its collation).
\<close>

record token =
  tk_token :: string
  tk_name :: string
  tk_created :: int
  tk_expires :: int

text \<open>9999-12-31 23:59:59 UTC.\<close>

definition NeverExpires :: int where "NeverExpires = 253402300799 * 1000000000"

definition second_ns :: int where "second_ns = 1000000000"

text \<open>\<open>time.Duration(n) * time.Second\<close>, in 64 bits.\<close>

definition duration_seconds :: "int \<Rightarrow> int" where
  "duration_seconds n = wrap64 (n * second_ns)"

definition hex_byte :: "nat \<Rightarrow> string" where
  "hex_byte n = [hex_digit (n div 16), hex_digit (n mod 16)]"

definition hex_encode :: "nat list \<Rightarrow> string" where
  "hex_encode bs = concat (map hex_byte bs)"

record token_item =
  ti_token :: string
  ti_created :: int
  ti_name :: string
  ti_expires :: int

record token_list_result =
  tl_items :: "token_item list"
  tl_total :: int
  tl_page :: int
  tl_page_size :: int

section \<open>Operations\<close>

definition live_at :: "int \<Rightarrow> token \<Rightarrow> bool" where
  "live_at now r = (tk_expires r \<ge> now)"

text \<open>\<open>bytes\<close> are the 24 random bytes, \<open>None\<close> when the source fails.\<close>

definition Generate ::
    "(token, 'd) dbtable \<Rightarrow> nat list option \<Rightarrow> int \<Rightarrow> string \<Rightarrow> int \<Rightarrow> 'd \<Rightarrow> (string + string) \<times> 'd" where
  "Generate T bytes now name expiresIn d =
     (case bytes of
        None \<Rightarrow> (Inl ''generate random'', d)
      | Some bs \<Rightarrow>
          let tokenValue = ''sk-'' @ hex_encode bs;
              expiresAt = (if expiresIn > 0 then now + duration_seconds expiresIn else NeverExpires)
          in (case tb_create T \<lparr>tk_token = tokenValue, tk_name = name, tk_created = now, tk_expires = expiresAt\<rparr> d of
                (Inl _, d1) \<Rightarrow> (Inl ''create token'', d1)
              | (Inr _, d1) \<Rightarrow> (Inr tokenValue, d1)))"

definition Validate :: "(token, 'd) dbtable \<Rightarrow> int \<Rightarrow> string \<Rightarrow> 'd \<Rightarrow> bool \<times> 'd" where
  "Validate T now token d =
     (if token = '''' then (False, d)
      else (case tb_count T (\<lambda>r. tk_token r = token \<and> live_at now r) d of
              (Inl _, d1) \<Rightarrow> (False, d1)
            | (Inr n, d1) \<Rightarrow> (n > 0, d1)))"

definition Update ::
    "(token, 'd) dbtable \<Rightarrow> int \<Rightarrow> string \<Rightarrow> string option \<Rightarrow> int option \<Rightarrow> 'd \<Rightarrow> (dberr + bool) \<times> 'd" where
  "Update T now tokenValue name expiresIn d =
     (case tb_first T (\<lambda>r. tk_token r = tokenValue) d of
        (Inl RecordNotFound, d1) \<Rightarrow> (Inr False, d1)
      | (Inl (DbFail e), d1) \<Rightarrow> (Inl (DbFail e), d1)
      | (Inr _, d1) \<Rightarrow>
          let set_name = (case name of Some n \<Rightarrow> (\<lambda>r. r\<lparr>tk_name := n\<rparr>) | None \<Rightarrow> (\<lambda>r. r));
              set_expiry = (case expiresIn of
                 Some e \<Rightarrow> (\<lambda>r. r\<lparr>tk_expires := (if e = 0 then NeverExpires else now + duration_seconds e)\<rparr>)
               | None \<Rightarrow> (\<lambda>r. r))
          in if name = None \<and> expiresIn = None then (Inr True, d1)
             else (case tb_update T (\<lambda>r. tk_token r = tokenValue) (\<lambda>r. set_expiry (set_name r)) d1 of
                     (Inl e, d2) \<Rightarrow> (Inl e, d2)
                   | (Inr _, d2) \<Rightarrow> (Inr True, d2)))"

definition Remove :: "(token, 'd) dbtable \<Rightarrow> 's redis \<Rightarrow> string \<Rightarrow> 'd \<Rightarrow> 's \<Rightarrow> (string + unit) \<times> 'd \<times> 's" where
  "Remove T R tokenValue d s =
     (case tb_delete T (\<lambda>r. tk_token r = tokenValue) d of
        (Inl _, d1) \<Rightarrow> (Inl ''delete token'', d1, s)
      | (Inr _, d1) \<Rightarrow> (Inr (), d1, snd (rd_del R [''token_auth:'' @ tokenValue] s)))"

text \<open>The pattern match of \<open>token LIKE '%\<dots>%'\<close>: the search text with its wildcards escaped. A
  backslash in it is left as it is, and escapes what follows.\<close>

definition like_escape :: "string \<Rightarrow> string" where
  "like_escape s = concat (map (\<lambda>c. if c = CHR ''%'' \<or> c = CHR ''_'' then [CHR 0x5C, c] else [c]) s)"

text \<open>\<open>like pat s\<close>: MySQL's \<open>LIKE\<close> with the default escape character, on byte strings.\<close>

fun like :: "string \<Rightarrow> string \<Rightarrow> bool" where
  "like [] s = (s = [])"
| "like (p # ps) s =
     (if p = CHR ''%'' then like ps s \<or> (case s of [] \<Rightarrow> False | _ # cs \<Rightarrow> like (p # ps) cs)
      else if p = CHR 0x5C then
        (case ps of
           [] \<Rightarrow> s = [p]
         | q # qs \<Rightarrow> (case s of [] \<Rightarrow> False | c # cs \<Rightarrow> c = q \<and> like qs cs))
      else (case s of [] \<Rightarrow> False | c # cs \<Rightarrow> (p = CHR ''_'' \<or> c = p) \<and> like ps cs))"

definition list_filter :: "int \<Rightarrow> string \<Rightarrow> token \<Rightarrow> bool" where
  "list_filter now search r =
     (live_at now r \<and> (search = '''' \<or> like (''%'' @ like_escape search @ ''%'') (tk_token r)))"

text \<open>Unix seconds. The instants read from a \<open>DATETIME\<close> column are whole seconds, so the fraction
  the code adds is zero.\<close>

definition zero_time :: int where "zero_time = - 62135596800 * 1000000000"

definition toTimestamp :: "int \<Rightarrow> int" where
  "toTimestamp t = (if t = zero_time then 0 else t div second_ns)"

definition token_item_of :: "token \<Rightarrow> token_item" where
  "token_item_of r = \<lparr>ti_token = tk_token r, ti_created = toTimestamp (tk_created r), ti_name = tk_name r,
     ti_expires = toTimestamp (tk_expires r)\<rparr>"

definition list_page ::
    "(token, 'd) dbtable \<Rightarrow> int \<Rightarrow> (token \<Rightarrow> token \<Rightarrow> bool) \<Rightarrow> int \<Rightarrow> int \<Rightarrow> string \<Rightarrow> 'd \<Rightarrow>
     (dberr + token_list_result) \<times> 'd" where
  "list_page T now le page pageSize search d =
     (case tb_count T (list_filter now search) d of
        (Inl e, d1) \<Rightarrow> (Inl e, d1)
      | (Inr n, d1) \<Rightarrow>
          let offset = wrap64 (wrap64 (page - 1) * pageSize) in
          (case tb_page T (list_filter now search) le pageSize offset d1 of
             (Inl e, d2) \<Rightarrow> (Inl e, d2)
           | (Inr rows, d2) \<Rightarrow>
               (Inr \<lparr>tl_items = map token_item_of rows, tl_total = int n, tl_page = page,
                     tl_page_size = pageSize\<rparr>, d2)))"

definition by_created_desc :: "token \<Rightarrow> token \<Rightarrow> bool" where
  "by_created_desc a b = (tk_created b \<le> tk_created a)"

definition ListAll ::
    "(token, 'd) dbtable \<Rightarrow> int \<Rightarrow> int \<Rightarrow> int \<Rightarrow> string \<Rightarrow> 'd \<Rightarrow> (dberr + token_list_result) \<times> 'd" where
  "ListAll T now page pageSize search d = list_page T now by_created_desc page pageSize search d"

text \<open>\<open>collate a b\<close>: name \<open>a\<close> is not after name \<open>b\<close>.\<close>

definition order_of :: "(string \<Rightarrow> string \<Rightarrow> bool) \<Rightarrow> string \<Rightarrow> string \<Rightarrow> token \<Rightarrow> token \<Rightarrow> bool" where
  "order_of collate sortBy sortOrder a b =
     (let le = (if sortBy = ''name'' then (\<lambda>a b. collate (tk_name a) (tk_name b))
                else (\<lambda>a b. tk_created a \<le> tk_created b))
      in if sortOrder = ''asc'' then le a b else le b a)"

definition ListPaged ::
    "(token, 'd) dbtable \<Rightarrow> (string \<Rightarrow> string \<Rightarrow> bool) \<Rightarrow> int \<Rightarrow> int \<Rightarrow> int \<Rightarrow> string \<Rightarrow> string \<Rightarrow> string \<Rightarrow>
     'd \<Rightarrow> (dberr + token_list_result) \<times> 'd" where
  "ListPaged T collate now page pageSize search sortBy sortOrder d =
     list_page T now (order_of collate sortBy sortOrder) page pageSize search d"

text \<open>The tokens of the returned map, all of which hold \<open>true\<close>.\<close>

fun bulk_scores :: "'s redis \<Rightarrow> int \<Rightarrow> string list \<Rightarrow> 's \<Rightarrow> string list \<times> 's" where
  "bulk_scores R cutoff [] s = ([], s)"
| "bulk_scores R cutoff (t # ts) s =
     (case rd_zscore R BotAliveKey t s of (r, s1) \<Rightarrow>
      case bulk_scores R cutoff ts s1 of (on, s2) \<Rightarrow>
        ((case r of Inr score \<Rightarrow> if score > cutoff then t # on else on | Inl _ \<Rightarrow> on), s2))"

definition BulkCheckBotOnline :: "'s redis \<Rightarrow> int \<Rightarrow> string list \<Rightarrow> 's \<Rightarrow> string list \<times> 's" where
  "BulkCheckBotOnline R now tokens s = (if tokens = [] then ([], s) else bulk_scores R (now - 30) tokens s)"

definition CountOnlineBots :: "'s redis \<Rightarrow> int \<Rightarrow> 's \<Rightarrow> nat \<times> 's" where
  "CountOnlineBots R now s =
     (case rd_zcount R BotAliveKey (Excl (now - 30)) PosInf s of
        (Inl _, s1) \<Rightarrow> (0, s1)
      | (Inr n, s1) \<Rightarrow> (n, s1))"

definition CountAllActive :: "(token, 'd) dbtable \<Rightarrow> int \<Rightarrow> 'd \<Rightarrow> nat \<times> 'd" where
  "CountAllActive T now d =
     (case tb_count T (live_at now) d of (Inl _, d1) \<Rightarrow> (0, d1) | (Inr n, d1) \<Rightarrow> (n, d1))"

definition CleanupExpired :: "(token, 'd) dbtable \<Rightarrow> int \<Rightarrow> 'd \<Rightarrow> (dberr + nat) \<times> 'd" where
  "CleanupExpired T now d =
     (case tb_delete T (\<lambda>r. tk_expires r < now) d of (Inl e, d1) \<Rightarrow> (Inl e, d1) | (Inr n, d1) \<Rightarrow> (Inr n, d1))"

section \<open>Correctness\<close>

locale token_backend = table_up T rows tk_token cast
  for T :: "(token, 'd) dbtable" and rows :: "'d \<Rightarrow> token list" and cast :: "token \<Rightarrow> token" +
  assumes cast_name: "tk_name (cast r) = tk_name r"
    and cast_times: "tk_created (cast r) = to_datetime (tk_created r)"
      "tk_expires (cast r) = to_datetime (tk_expires r)"

definition valid_token :: "token list \<Rightarrow> int \<Rightarrow> string \<Rightarrow> bool" where
  "valid_token rs now t \<longleftrightarrow> t \<noteq> '''' \<and> (\<exists>r\<in>set rs. tk_token r = t \<and> now \<le> tk_expires r)"

context token_backend begin

lemma Validate_reply:
  "fst (Validate T now t d) = valid_token (rows d) now t" "rows (snd (Validate T now t d)) = rows d"
  by (auto simp: Validate_def valid_token_def live_at_def case_prod_beta filter_empty_conv count split: sum.splits)

lemma Generate_new:
  fixes e now :: int and name :: string
  assumes "''sk-'' @ hex_encode bs \<notin> tk_token ` set (rows d)"
  defines "row \<equiv> \<lparr>tk_token = ''sk-'' @ hex_encode bs, tk_name = name, tk_created = now,
    tk_expires = (if e > 0 then now + duration_seconds e else NeverExpires)\<rparr>"
  shows "fst (Generate T (Some bs) now name e d) = Inr (''sk-'' @ hex_encode bs)"
    and "rows (snd (Generate T (Some bs) now name e d)) = rows d @ [cast row]"
  using create_new [of row d] assms(1)
  by (auto simp: Generate_def Let_def case_prod_beta row_def split: sum.splits)

text \<open>A token is accepted from its creation until its expiry, to the second.\<close>

lemma generated_valid:
  assumes fresh: "''sk-'' @ hex_encode bs \<notin> tk_token ` set (rows d)"
    and e: "0 < e" "fits64 (e * second_ns)"
  shows "fst (Validate T t (''sk-'' @ hex_encode bs) (snd (Generate T (Some bs) now name e d))) \<longleftrightarrow>
    t \<le> to_datetime (now + e * second_ns)"
  using Generate_new(2) [OF fresh] fresh e cast_key
  by (auto simp: Validate_reply valid_token_def cast_times duration_seconds_def wrap64_id image_iff)

lemma generated_forever:
  assumes fresh: "''sk-'' @ hex_encode bs \<notin> tk_token ` set (rows d)" and e: "e \<le> 0"
  shows "fst (Validate T t (''sk-'' @ hex_encode bs) (snd (Generate T (Some bs) now name e d))) \<longleftrightarrow> t \<le> NeverExpires"
  using Generate_new(2) [OF fresh] fresh e cast_key to_datetime_seconds [of 253402300799]
  by (auto simp: Validate_reply valid_token_def cast_times NeverExpires_def image_iff)

lemma removed_invalid:
  assumes "Remove T R t d s = (r, d', s')"
  shows "r = Inr ()" and "rows d' = filter (\<lambda>x. tk_token x \<noteq> t) (rows d)"
    and "valid_token (rows d') now u \<longleftrightarrow> u \<noteq> t \<and> valid_token (rows d) now u"
proof -
  show *: "r = Inr ()" "rows d' = filter (\<lambda>x. tk_token x \<noteq> t) (rows d)"
    using assms by (auto simp: Remove_def case_prod_beta delete)
  show "valid_token (rows d') now u \<longleftrightarrow> u \<noteq> t \<and> valid_token (rows d) now u"
    using *(2) by (auto simp: valid_token_def)
qed

lemma CleanupExpired_ok:
  "fst (CleanupExpired T now d) = Inr (length (filter (\<lambda>r. tk_expires r < now) (rows d)))"
  "rows (snd (CleanupExpired T now d)) = filter (live_at now) (rows d)"
  by (auto simp: CleanupExpired_def case_prod_beta delete live_at_def not_less intro!: filter_cong split: sum.splits)

text \<open>Cleaning up changes no answer, now or later.\<close>

lemma cleanup_keeps_valid:
  assumes "now \<le> t"
  shows "valid_token (rows (snd (CleanupExpired T now d))) t u = valid_token (rows d) t u"
  using assms by (auto simp: valid_token_def CleanupExpired_ok live_at_def)

lemma Update_ok:
  assumes "distinct (map tk_token (rows d))" and "r0 \<in> set (rows d)" "tk_token r0 = t"
    and e: "fits64 (now + n * second_ns)" "fits64 (n * second_ns)" "n \<noteq> 0"
  shows "fst (Update T now t None (Some n) d) = Inr True"
    and "valid_token (rows (snd (Update T now t None (Some n) d))) u t \<longleftrightarrow> t \<noteq> '''' \<and> u \<le> to_datetime (now + n * second_ns)"
proof -
  let ?f = "\<lambda>r. r\<lparr>tk_expires := now + duration_seconds n\<rparr>"
  obtain r1 where f: "find (\<lambda>r. tk_token r = t) (rows d) = Some r1"
    using assms(2,3) by (cases "find (\<lambda>r. tk_token r = t) (rows d)") (auto simp: find_None_iff)
  have key: "tk_token (?f r) = tk_token r" for r by simp
  have e': "Update T now t None (Some n) d =
      (case tb_update T (\<lambda>r. tk_token r = t) ?f (snd (tb_first T (\<lambda>r. tk_token r = t) d)) of
        (Inl e, d2) \<Rightarrow> (Inl e, d2) | (Inr _, d2) \<Rightarrow> (Inr True, d2))"
    using f e(3) first [of "\<lambda>r. tk_token r = t" d] by (simp add: Update_def case_prod_beta Let_def)
  show "fst (Update T now t None (Some n) d) = Inr True"
    unfolding e' using update [of ?f, OF key] by (simp add: case_prod_beta split: sum.splits)
  have rw: "rows (snd (Update T now t None (Some n) d)) = map (\<lambda>r. if tk_token r = t then cast (?f r) else r) (rows d)"
    unfolding e' using update_rows [of ?f, OF key] by (simp add: case_prod_beta split: sum.splits)
  show "valid_token (rows (snd (Update T now t None (Some n) d))) u t \<longleftrightarrow> t \<noteq> '''' \<and> u \<le> to_datetime (now + n * second_ns)"
    using rw assms(2,3) cast_key e(2)
    by (auto simp: valid_token_def cast_times duration_seconds_def wrap64_id split: if_splits
        intro!: bexI [of _ "cast (r0\<lparr>tk_expires := now + n * second_ns\<rparr>)"])
qed

end

section \<open>Search\<close>

lemma like_percent: "like (CHR ''%'' # ps) s \<longleftrightarrow> (\<exists>a b. s = a @ b \<and> like ps b)"
proof (induction s)
  case (Cons c cs)
  have "(\<exists>a b. c # cs = a @ b \<and> like ps b) \<longleftrightarrow> like ps (c # cs) \<or> (\<exists>a b. cs = a @ b \<and> like ps b)"
    by (auto simp: Cons_eq_append_conv)
  with Cons show ?case by simp
qed simp

lemma like_escaped:
  "CHR 0x5C \<notin> set p \<Longrightarrow> like (like_escape p @ q) s \<longleftrightarrow> (\<exists>r. s = p @ r \<and> like q r)"
proof (induction p arbitrary: s)
  case Nil
  then show ?case by (simp add: like_escape_def)
next
  case (Cons c p)
  have "like_escape (c # p) = (if c = CHR ''%'' \<or> c = CHR ''_'' then [CHR 0x5C, c] else [c]) @ like_escape p"
    by (simp add: like_escape_def)
  with Cons show ?case by (cases s) auto
qed

text \<open>A search without a backslash finds the tokens that contain it.\<close>

lemma search_contains:
  assumes "CHR 0x5C \<notin> set search"
  shows "like (''%'' @ like_escape search @ ''%'') s \<longleftrightarrow> str_contains s search"
proof -
  have "like ''%'' r" for r by (subst like_percent) (auto intro: exI [of _ r])
  then show ?thesis
    using assms by (simp add: like_percent like_escaped str_contains_iff del: like.simps) metis
qed

text \<open>Searching finds the tokens that contain the text, percent signs and underscores included.\<close>

lemma token_search_contains:
  assumes "CHR 0x5C \<notin> set search" and "search \<noteq> []"
  shows "list_filter now search r \<longleftrightarrow> now \<le> tk_expires r \<and> str_contains (tk_token r) search"
  using assms search_contains [OF assms(1), of "tk_token r"] by (simp add: list_filter_def live_at_def)

section \<open>Pages\<close>

lemma order_of_total:
  assumes "\<And>a b. collate a b \<or> collate b a"
  shows "order_of collate sb so a b \<or> order_of collate sb so b a"
  using assms by (auto simp: order_of_def Let_def)

lemma order_of_trans:
  assumes "\<And>a b c. collate a b \<Longrightarrow> collate b c \<Longrightarrow> collate a c"
  shows "order_of collate sb so a b \<Longrightarrow> order_of collate sb so b c \<Longrightarrow> order_of collate sb so a c"
  using assms by (auto simp: order_of_def Let_def split: if_splits)

context token_backend begin

text \<open>A page is the window of the ordered list of matching tokens, with their total.\<close>

lemma ListPaged_window:
  assumes c: "\<And>a b. collate a b \<or> collate b a" "\<And>a b c. collate a b \<Longrightarrow> collate b c \<Longrightarrow> collate a c"
    and p: "1 \<le> p" "0 \<le> n" "fits64 p" "fits64 ((p - 1) * n)"
  shows "\<exists>rs res. ordered_rows (list_filter now search) (order_of collate sb so) (rows d) rs \<and>
    fst (ListPaged T collate now p n search sb so d) = Inr res \<and>
    tl_items res = map token_item_of (take (nat n) (drop (nat ((p - 1) * n)) rs)) \<and>
    tl_total res = int (length rs)"
proof -
  let ?P = "list_filter now search" and ?le = "order_of collate sb so"
  let ?d1 = "snd (tb_count T ?P d)"
  have "\<exists>rs. ordered_rows ?P ?le (rows ?d1) rs \<and>
      fst (tb_page T ?P ?le n ((p - 1) * n) ?d1) = Inr (page_of n ((p - 1) * n) rs)"
    by (rule page) (rule order_of_total [OF c(1)], rule order_of_trans [OF c(2)])
  then obtain rs where rs: "ordered_rows ?P ?le (rows d) rs"
      "fst (tb_page T ?P ?le n ((p - 1) * n) ?d1) = Inr (page_of n ((p - 1) * n) rs)"
    unfolding count_rows by blast
  have "fits64 (p - 1)" using p by (auto simp: fits64_def min_int64_def)
  then have off: "wrap64 (wrap64 (p - 1) * n) = (p - 1) * n"
    using p(4) by (simp only: wrap64_id)
  have "0 \<le> (p - 1) * n" using p by simp
  then have w: "page_of n ((p - 1) * n) rs = take (nat n) (drop (nat ((p - 1) * n)) rs)"
    using p(2) by (auto simp: page_of_def Let_def)
  let ?res = "\<lparr>tl_items = map token_item_of (page_of n ((p - 1) * n) rs),
    tl_total = int (length (filter ?P (rows d))), tl_page = p, tl_page_size = n\<rparr>"
  have "fst (ListPaged T collate now p n search sb so d) = Inr ?res"
    using rs(2) count [of ?P d] by (simp add: ListPaged_def list_page_def case_prod_beta Let_def off)
  with rs(1) w ordered_rows_length [OF rs(1)] show ?thesis by (intro exI [of _ rs] exI [of _ ?res]) simp
qed

end

section \<open>Online counts\<close>

context redis_up begin

lemma bulk_scores_reply:
  assumes "bots_ok (view s)"
  shows "fst (bulk_scores R (now - 30) ts s) = filter (\<lambda>t. sh_online now t (shared_of (view s))) ts \<and>
    view (snd (bulk_scores R (now - 30) ts s)) = view s"
  using assms
proof (induction ts arbitrary: s)
  case (Cons t ts)
  have z: "zset_key (view s) BotAliveKey" using Cons.prems by (simp add: bots_ok_def)
  have v: "view (snd (rd_zscore R BotAliveKey t s)) = view s" by (simp add: sem_zscore_def)
  with Cons.IH [of "snd (rd_zscore R BotAliveKey t s)"] Cons.prems z show ?case
    by (auto simp: case_prod_beta sem_zscore_def sh_online_def split: option.splits)
qed simp

lemma BulkCheckBotOnline_reply:
  assumes "bots_ok (view s)"
  shows "fst (BulkCheckBotOnline R now ts s) = filter (\<lambda>t. sh_online now t (shared_of (view s))) ts"
  using bulk_scores_reply [OF assms, of now ts] by (simp add: BulkCheckBotOnline_def)

lemma CountOnlineBots_reply:
  assumes "bots_ok (view s)"
  shows "fst (CountOnlineBots R now s) = card {t. sh_online now t (shared_of (view s))}"
proof -
  have "zset_key (view s) BotAliveKey" using assms by (simp add: bots_ok_def)
  moreover have "in_range (Excl (now - 30)) PosInf sc \<longleftrightarrow> now - sc < 30" for sc by (auto simp: in_range_def)
  ultimately have "fst (rd_zcount R BotAliveKey (Excl (now - 30)) PosInf s) = Inr (card {t. sh_online now t (shared_of (view s))})"
    by (simp add: sem_zcount_def sh_online_def)
  then show ?thesis by (simp add: CountOnlineBots_def case_prod_beta)
qed

end

definition token_cast :: "token \<Rightarrow> token" where
  "token_cast r = r\<lparr>tk_created := to_datetime (tk_created r), tk_expires := to_datetime (tk_expires r)\<rparr>"

interpretation mem_tokens: token_backend "mem_table tk_token token_cast" "\<lambda>d. d" token_cast
proof -
  have k: "tk_token (token_cast r) = tk_token r" for r by (simp add: token_cast_def)
  show "token_backend (mem_table tk_token token_cast) (\<lambda>d. d) token_cast"
    by (intro token_backend.intro mem_table_up [of tk_token token_cast, OF k] token_backend_axioms.intro)
      (simp_all add: token_cast_def)
qed

end
