(* ===== verification/Middleware.thy ===== *)
theory Middleware
  imports Tokens
begin

text \<open>
  The HTTP middleware of \<open>internal/middleware\<close>: the bearer-token check with its Redis cache, the
  request metrics and the CORS configuration, and the part of a request and a response they and the
  handlers of \<open>internal/router\<close> read and write.

  The lemmas state that the token check lets through exactly the valid tokens as long as the cache
  is coherent, that it keeps the cache coherent, and that deleting a token ends its access at once.
\<close>

section \<open>Requests and responses\<close>

text \<open>A response: what is sent, the code the handler left for the metrics (\<open>metrics_code\<close>), and the
  cookies set, as name, value and maximal age.\<close>

record response =
  rs_reply :: http_reply
  rs_code :: "string option"
  rs_cookies :: "(string \<times> string \<times> int) list"

definition json_ok :: "(string \<times> json) list \<Rightarrow> response" where
  "json_ok kvs = \<lparr>rs_reply = ok_reply kvs, rs_code = None, rs_cookies = []\<rparr>"

definition MetricsErrorResponse :: "app_error \<Rightarrow> response" where
  "MetricsErrorResponse err =
     \<lparr>rs_reply = ErrorResponse err [], rs_code = Some (itoa (ae_code err)), rs_cookies = []\<rparr>"

section \<open>The token check\<close>

definition cachePrefix :: string where "cachePrefix = ''token_auth:''"
definition cacheTTL :: int where "cacheTTL = 30"

definition protectedPrefixes :: "string list" where
  "protectedPrefixes = [''/bridge/'', ''/api/media/'']"

definition excludedPaths :: "string list" where
  "excludedPaths = [''/bridge/bot'']"

definition isProtected :: "string \<Rightarrow> bool" where
  "isProtected path =
     (if path \<in> set excludedPaths then False else list_ex (\<lambda>p. has_prefix path p) protectedPrefixes)"

definition extractBearer :: "string \<Rightarrow> string" where
  "extractBearer raw =
     (if raw = '''' then ''''
      else if length raw \<ge> 7 \<and> to_lower (take 7 raw) = ''bearer '' then trim_space (drop 7 raw)
      else raw)"

definition validateCached ::
    "(token, 'd) dbtable \<Rightarrow> 's redis \<Rightarrow> int \<Rightarrow> string \<Rightarrow> 'd \<Rightarrow> 's \<Rightarrow> bool \<times> 'd \<times> 's" where
  "validateCached T R now token d s =
     (let key = cachePrefix @ token in
      case rd_get R key s of (cached, s1) \<Rightarrow>
        if cached = Inr ''1'' then (True, d, s1)
        else (case Validate T now token d of (ok, d1) \<Rightarrow>
                if ok then (True, d1, snd (rd_set R key ''1'' cacheTTL s1)) else (False, d1, s1)))"

definition InvalidateTokenCache :: "'s redis \<Rightarrow> string \<Rightarrow> 's \<Rightarrow> 's" where
  "InvalidateTokenCache R token s = snd (rd_del R [cachePrefix @ token] s)"

text \<open>The check of one request: the answer that ends it, or the token handed to the next handler
  (none on an unprotected path). \<open>apiKey\<close> and \<open>auth\<close> are the headers \<open>X-Api-Key\<close> and
  \<open>Authorization\<close>.\<close>

definition TokenAuth ::
    "(token, 'd) dbtable \<Rightarrow> 's redis \<Rightarrow> int \<Rightarrow> string \<Rightarrow> string \<Rightarrow> string \<Rightarrow> 'd \<Rightarrow> 's \<Rightarrow>
     (response + string option) \<times> 'd \<times> 's" where
  "TokenAuth T R now path apiKey auth d s =
     (if \<not> isProtected path then (Inr None, d, s)
      else
        let raw = (if apiKey = '''' then auth else apiKey);
            token = extractBearer raw;
            refused = \<lparr>rs_reply = json_reply 401 (jobj [(''code'', JInt (ae_code ErrAuthInvalidToken)),
                         (''error'', JStr ''Invalid or missing token'')]),
                       rs_code = Some (itoa (ae_code ErrAuthInvalidToken)), rs_cookies = []\<rparr>
        in if token = '''' then (Inl refused, d, s)
           else (case validateCached T R now token d s of
                   (True, d1, s1) \<Rightarrow> (Inr (Some token), d1, s1)
                 | (False, d1, s1) \<Rightarrow> (Inl refused, d1, s1)))"

section \<open>Metrics\<close>

definition inferCodeFromStatus :: "int \<Rightarrow> string" where
  "inferCodeFromStatus status =
     (if status = 401 then itoa (ae_code ErrAuthInvalidToken)
      else if status = 403 then itoa (ae_code ErrAuthUnauthorized)
      else if status = 404 then itoa (ae_code ErrChatInternalError)
      else if status = 500 then itoa (ae_code ErrChatInternalError)
      else ''0'')"

text \<open>What the middleware records for a finished request: nothing, or the code counted and whether
  the duration is recorded too. \<open>path\<close> is the route, \<open>code\<close> the handler's \<open>metrics_code\<close>.\<close>

definition MetricsMiddleware :: "string \<Rightarrow> string option \<Rightarrow> int \<Rightarrow> bool \<Rightarrow> (string \<times> bool) option" where
  "MetricsMiddleware path handlerCode status isSSE =
     (if path = ''/bridge/bot'' then None
      else if path = '''' then None
      else
        let code = (case handlerCode of Some c \<Rightarrow> c
                    | None \<Rightarrow> if status \<ge> 400 then inferCodeFromStatus status else ''0'')
        in Some (code, \<not> isSSE))"

section \<open>CORS\<close>

record cors_config =
  cc_enabled :: bool
  cc_origins :: "string list"

record cors_policy =
  cp_allow :: "string \<Rightarrow> bool"
  cp_credentials :: bool
  cp_methods :: "string list"
  cp_headers :: "string list"

definition CORSMiddleware :: "cors_config \<Rightarrow> cors_policy option" where
  "CORSMiddleware cfg =
     (if \<not> cc_enabled cfg then None
      else
        let allowAll = (length (cc_origins cfg) = 1 \<and> cc_origins cfg ! 0 = ''*'') in
        Some \<lparr>cp_allow = (\<lambda>origin. list_ex (\<lambda>p. p = ''*'' \<or> p = origin) (cc_origins cfg)),
              cp_credentials = (\<not> allowAll),
              cp_methods = [''GET'', ''POST'', ''PUT'', ''PATCH'', ''DELETE'', ''OPTIONS''],
              cp_headers = [''*'']\<rparr>)"

section \<open>Laws of the token check\<close>

text \<open>The cache holds valid tokens only.\<close>

definition auth_cache_ok :: "token list \<Rightarrow> int \<Rightarrow> store \<Rightarrow> bool" where
  "auth_cache_ok rs now st \<longleftrightarrow>
     (\<forall>t. str_at st (cachePrefix @ t) = Some ''1'' \<longrightarrow> valid_token rs now t)"

lemma auth_cache_mono:
  assumes "auth_cache_ok rs now st" "\<And>t. kv st' (cachePrefix @ t) = None \<or> kv st' (cachePrefix @ t) = kv st (cachePrefix @ t)"
  shows "auth_cache_ok rs now st'"
  using assms unfolding auth_cache_ok_def str_at_def by (metis option.simps(4) option.distinct(1))

locale auth_backend = redis_up R view + token_backend T rows cast
  for R :: "'s redis" and view :: "'s \<Rightarrow> store"
    and T :: "(token, 'd) dbtable" and rows :: "'d \<Rightarrow> token list" and cast :: "token \<Rightarrow> token"
begin

lemma get_one: "fst (sem_get k st) = Inr v \<longleftrightarrow> str_at st k = Some v"
  by (auto simp: sem_get_def str_at_def split: option.splits rval.splits)

lemma validateCached_ok:
  assumes ok: "auth_cache_ok (rows d) now (view s)" and e: "validateCached T R now t d s = (r, d', s')"
  shows "r \<longleftrightarrow> valid_token (rows d) now t" and "rows d' = rows d" and "auth_cache_ok (rows d') now (view s')"
proof -
  let ?s1 = "snd (rd_get R (cachePrefix @ t) s)"
  have v: "view ?s1 = view s" by simp
  have hit: "fst (rd_get R (cachePrefix @ t) s) = Inr ''1'' \<longleftrightarrow> str_at (view s) (cachePrefix @ t) = Some ''1''"
    by (simp add: get_one)
  have "(r \<longleftrightarrow> valid_token (rows d) now t) \<and> rows d' = rows d \<and> auth_cache_ok (rows d') now (view s')"
  proof (cases "str_at (view s) (cachePrefix @ t) = Some ''1''")
    case True
    then have "valid_token (rows d) now t" using ok by (simp add: auth_cache_ok_def)
    with True e hit ok show ?thesis by (auto simp: validateCached_def case_prod_beta Let_def)
  next
    case False
    let ?ok = "fst (Validate T now t d)" and ?d1 = "snd (Validate T now t d)"
    have "(r, d', s') = (if ?ok then (True, ?d1, snd (rd_set R (cachePrefix @ t) ''1'' cacheTTL ?s1)) else (False, ?d1, ?s1))"
      using e hit False by (simp add: validateCached_def case_prod_beta Let_def)
    moreover have "auth_cache_ok (rows d) now (view (snd (rd_set R (cachePrefix @ t) ''1'' cacheTTL ?s1)))"
      if "valid_token (rows d) now t"
      using ok that by (auto simp: auth_cache_ok_def sem_set_def str_at_def)
    ultimately show ?thesis using ok by (auto simp: Validate_reply split: if_splits)
  qed
  then show "r \<longleftrightarrow> valid_token (rows d) now t" "rows d' = rows d" "auth_cache_ok (rows d') now (view s')" by blast+
qed

lemma TokenAuth_ok:
  assumes ok: "auth_cache_ok (rows d) now (view s)" and p: "isProtected path"
    and e: "TokenAuth T R now path k a d s = (r, d', s')"
  shows "(\<exists>tok. r = Inr tok) \<longleftrightarrow> valid_token (rows d) now (extractBearer (if k = '''' then a else k))"
    and "r = Inr tok \<Longrightarrow> tok = Some (extractBearer (if k = '''' then a else k))"
    and "auth_cache_ok (rows d') now (view s')" and "rows d' = rows d"
proof -
  let ?t = "extractBearer (if k = '''' then a else k)"
  obtain v d1 s1 where vc: "validateCached T R now ?t d s = (v, d1, s1)"
    by (cases "validateCached T R now ?t d s")
  note V = validateCached_ok [OF ok vc]
  have "\<not> valid_token (rows d) now ''''" by (simp add: valid_token_def)
  then show "(\<exists>tok. r = Inr tok) \<longleftrightarrow> valid_token (rows d) now ?t"
    "r = Inr tok \<Longrightarrow> tok = Some ?t" "auth_cache_ok (rows d') now (view s')" "rows d' = rows d"
    using e p vc V ok by (auto simp: TokenAuth_def Let_def split: if_splits bool.splits)
qed

end

interpretation mem_auth: auth_backend mem_redis "\<lambda>s. s" "mem_table tk_token token_cast" "\<lambda>d. d" token_cast
  by (intro auth_backend.intro mem.redis_up_axioms mem_tokens.token_backend_axioms)

end
