(* ===== verification/ChatSse.thy ===== *)
theory ChatSse
  imports BridgeApi Monitor SseWire Middleware
begin

text \<open>
  The chat endpoint of \<open>internal/router/sse.go\<close>: one request is checked, its session resolved, its
  inbox prepared and its message sent to the bot; then the events of the inbox are streamed until a
  terminal event, a disconnect or a timeout. Spans and logging are left out.

  The stream is a state machine: \<open>chat_iter\<close> is one round of the handler's loop on a \<open>chat_stream\<close>,
  \<open>tick\<close> what the round reads of the world (the clock, and which channels are ready). Instants are
  nanoseconds.
\<close>

section \<open>Requests\<close>

definition sseTimeout :: int where "sseTimeout = 600 * second_ns"
definition heartbeatInterval :: int where "heartbeatInterval = 15 * second_ns"

record media_item =
  mi_type :: string
  mi_content :: string
  mi_mime :: string

record chat_request =
  cq_content :: string
  cq_session :: "string option"
  cq_media :: "media_item list"

text \<open>gin's \<open>ShouldBindJSON\<close> decodes the first value of the body. What follows an object or an array
  is not read; any other value must be followed by white space or the end.\<close>

definition first_json :: "string \<Rightarrow> json option" where
  "first_json body =
     (case parse_val (Suc (length body)) body of
        None \<Rightarrow> None
      | Some (JObj m, _) \<Rightarrow> Some (JObj m)
      | Some (JArr a, _) \<Rightarrow> Some (JArr a)
      | Some (j, rest) \<Rightarrow> if rest = [] \<or> is_ws (hd rest) then Some j else None)"

text \<open>A struct accepts an object or \<open>null\<close>.\<close>

definition struct_body :: "string \<Rightarrow> json option" where
  "struct_body body =
     (case first_json body of Some (JObj m) \<Rightarrow> Some (JObj m) | Some JNull \<Rightarrow> Some JNull | _ \<Rightarrow> None)"

definition bind_media_item :: "json \<Rightarrow> media_item option" where
  "bind_media_item j =
     (case j of
        JObj m \<Rightarrow>
          let o1 = Some (JObj m) in
          if struct_str_err o1 ''type'' \<or> struct_str_err o1 ''content'' \<or> struct_str_err o1 ''mimeType'' then None
          else Some \<lparr>mi_type = struct_str o1 ''type'', mi_content = struct_str o1 ''content'',
                     mi_mime = struct_str o1 ''mimeType''\<rparr>
      | JNull \<Rightarrow> Some \<lparr>mi_type = [], mi_content = [], mi_mime = []\<rparr>
      | _ \<Rightarrow> None)"

definition bind_chat :: "string \<Rightarrow> chat_request option" where
  "bind_chat body =
     (case struct_body body of
        None \<Rightarrow> None
      | Some j \<Rightarrow>
          let o1 = Some j in
          if struct_str_err o1 ''content'' \<or> struct_str_err o1 ''sessionId'' then None
          else
            (case (case struct_field o1 ''media'' of
                     None \<Rightarrow> Some [] | Some JNull \<Rightarrow> Some [] | Some (JArr js) \<Rightarrow> those (map bind_media_item js)
                   | _ \<Rightarrow> None) of
               None \<Rightarrow> None
             | Some items \<Rightarrow>
                 Some \<lparr>cq_content = struct_str o1 ''content'',
                   cq_session = (case struct_field o1 ''sessionId'' of Some (JStr x) \<Rightarrow> Some x | _ \<Rightarrow> None),
                   cq_media = items\<rparr>))"

fun media_urls :: "media_item list \<Rightarrow> app_error + string list" where
  "media_urls [] = Inr []"
| "media_urls (item # rest) =
     (if mi_type item = ''url'' then
        if \<not> has_prefix (mi_content item) ''http://'' \<and> \<not> has_prefix (mi_content item) ''https://''
        then Inl ErrMediaBadURLScheme
        else (case media_urls rest of Inl e \<Rightarrow> Inl e | Inr us \<Rightarrow> Inr (mi_content item # us))
      else Inl ErrMediaUnsupportedType)"

definition check_request :: "string \<Rightarrow> app_error + chat_request \<times> string list" where
  "check_request body =
     (case bind_chat body of
        None \<Rightarrow> Inl ErrChatInvalidReq
      | Some rq \<Rightarrow>
          if length (cq_media rq) > 10 then Inl ErrMediaTooMany
          else (case media_urls (cq_media rq) of
                  Inl e \<Rightarrow> Inl e
                | Inr urls \<Rightarrow>
                    if cq_content rq = '''' \<and> urls = [] then Inl ErrChatEmptyMessage else Inr (rq, urls)))"

section \<open>From the request to the bot\<close>

record chat_turn =
  ct_session :: string
  ct_number :: int
  ct_new :: bool
  ct_req :: string
  ct_inbox :: string

text \<open>\<open>uuid\<close> is the id a new session gets, \<open>created\<close> the instant it is created.\<close>

definition resolve_session ::
    "(chat_session, 'd) dbtable \<Rightarrow> 's redis \<Rightarrow> int \<Rightarrow> string \<Rightarrow> string \<Rightarrow> string option \<Rightarrow> 'd \<Rightarrow> 's \<Rightarrow>
     (app_error + string \<times> int \<times> bool) \<times> 'd \<times> 's" where
  "resolve_session T R created uuid token sid d s =
     (case (if sid = Some [] then None else sid) of
        Some x \<Rightarrow>
          (case BridgeGetSession T token x d of
             (None, d1) \<Rightarrow> (Inl ErrSessionNotFound, d1, s)
           | (Some (i, n), d1) \<Rightarrow> (Inr (i, n, False), d1, s))
      | None \<Rightarrow>
          (case BridgeCreateSession T R created uuid token d s of
             (Inl _, d1, s1) \<Rightarrow> (Inl ErrSessionCreateFailed, d1, s1)
           | (Inr (i, n), d1, s1) \<Rightarrow> (Inr (i, n, True), d1, s1)))"

text \<open>Stale events are cleared, the group is created, the inbox enters the token's index.\<close>

definition prepare_inbox :: "'s redis \<Rightarrow> 's mq \<Rightarrow> string \<Rightarrow> string \<Rightarrow> 's \<Rightarrow> 's" where
  "prepare_inbox R Q token inbox s =
     (let s1 = snd (mq_purge Q inbox s);
          s2 = snd (mq_ensure_group Q inbox ''sse'' s1)
      in TrackChatInbox R token inbox s2)"

definition chat_prepare ::
    "(chat_session, 'd) dbtable \<Rightarrow> 's redis \<Rightarrow> 's mq \<Rightarrow> int \<Rightarrow> int \<Rightarrow> string \<Rightarrow> string \<Rightarrow> (string \<times> string) list \<Rightarrow>
     string \<Rightarrow> string \<Rightarrow> 'd \<Rightarrow> 's \<Rightarrow> (app_error + chat_turn) \<times> 'd \<times> 's" where
  "chat_prepare T R Q now created uuid requuid carrier token body d s =
     (case check_request body of
        Inl e \<Rightarrow> (Inl e, d, s)
      | Inr (rq, urls) \<Rightarrow>
          (case IsBotConnected R now token s of
             (False, s1) \<Rightarrow> (Inl ErrChatNoBot, d, s1)
           | (True, s1) \<Rightarrow>
               (case resolve_session T R created uuid token (cq_session rq) d s1 of
                  (Inl e, d2, s2) \<Rightarrow> (Inl e, d2, s2)
                | (Inr (sid, num, new), d2, s2) \<Rightarrow>
                    let inbox = chat_inbox token sid;
                        s3 = prepare_inbox R Q token inbox s2
                    in (case SendToBot R Q requuid carrier token (cq_content rq) urls sid s3 of
                          (Inl _, s4) \<Rightarrow> (Inl ErrChatSendFailed, d2, s4)
                        | (Inr req, s4) \<Rightarrow>
                            (Inr \<lparr>ct_session = sid, ct_number = num, ct_new = new, ct_req = req,
                                  ct_inbox = inbox\<rparr>, d2, s4)))))"

section \<open>The stream\<close>

text \<open>\<open>ss_out\<close> are the writes to the response, in order: a \<open>frame\<close> is the text \<open>FormatSSEEvent\<close> or
  \<open>FormatSSEComment\<close> makes of it (\<open>frame_text\<close>). \<open>ss_cancel\<close> is whether the goroutine that
  cancels the bot's turn was started; \<open>ss_code\<close> and \<open>ss_reason\<close> are what is recorded at the end.\<close>

record chat_stream =
  ss_out :: "sse_frame list"
  ss_deadline :: int
  ss_heartbeat :: int
  ss_chunks :: bool
  ss_first :: bool
  ss_reply :: string
  ss_code :: string
  ss_reason :: string
  ss_cancel :: bool

text \<open>One round of the loop sees: whether the client is gone and whether the bot's disconnect was
  signalled, at the first and at the second look; which of the two \<open>select\<close> takes when both are
  ready; and the clock at the timeout check and after the read.\<close>

record tick =
  ev_gone1 :: bool
  ev_bot1 :: bool
  ev_pick1 :: bool
  ev_now1 :: int
  ev_gone2 :: bool
  ev_bot2 :: bool
  ev_pick2 :: bool
  ev_now2 :: int

datatype ready = ClientGone | BotGone | Neither

definition select_ready :: "bool \<Rightarrow> bool \<Rightarrow> bool \<Rightarrow> ready" where
  "select_ready gone lost pick =
     (if gone \<and> lost then (if pick then ClientGone else BotGone)
      else if gone then ClientGone else if lost then BotGone else Neither)"

definition write_frame :: "sse_frame \<Rightarrow> chat_stream \<Rightarrow> chat_stream" where
  "write_frame f st = st\<lparr>ss_out := ss_out st @ [f]\<rparr>"

definition content_frame :: "string \<Rightarrow> string \<Rightarrow> sse_frame" where
  "content_frame ty c = Event ty (jobj [(''content'', JStr c)])"

definition session_frame :: "chat_turn \<Rightarrow> sse_frame" where
  "session_frame turn = Event ''session''
     (jobj [(''sessionId'', JStr (ct_session turn)), (''sessionNumber'', JInt (ct_number turn))])"

text \<open>The stream ends with an error event of its own.\<close>

definition end_with :: "string \<Rightarrow> app_error \<Rightarrow> chat_stream \<Rightarrow> chat_stream" where
  "end_with reason err st =
     write_frame (content_frame ''error'' (ae_message err)) (st\<lparr>ss_reason := reason, ss_code := itoa (ae_code err)\<rparr>)"

definition end_client :: "chat_stream \<Rightarrow> chat_stream" where
  "end_client st = st\<lparr>ss_reason := ''client_disconnect'', ss_cancel := True\<rparr>"

text \<open>The first event. A failed write ends the stream.\<close>

definition start_stream :: "chat_turn \<Rightarrow> int \<Rightarrow> bool \<Rightarrow> chat_stream \<times> bool" where
  "start_stream turn now writes =
     (let st = \<lparr>ss_out = [], ss_deadline = now + sseTimeout, ss_heartbeat = now, ss_chunks = False,
                ss_first = True, ss_reply = [], ss_code = ''0'', ss_reason = ''done'', ss_cancel = False\<rparr>
      in if \<not> writes then
           (st\<lparr>ss_reason := ''write_error'', ss_code := itoa (ae_code ErrChatInternalError)\<rparr>, False)
         else (write_frame (session_frame turn) st, True))"

text \<open>An entry of the inbox: its event's name and data, none when the entry is skipped.\<close>

definition decode_event :: "string \<Rightarrow> (string \<times> json) option" where
  "decode_event payload =
     (case (case json_unmarshal payload of
              Some (JObj m) \<Rightarrow> Some (m, False) | Some JNull \<Rightarrow> Some ([], True) | _ \<Rightarrow> None) of
        None \<Rightarrow> None
      | Some (event, isnil) \<Rightarrow>
          let ty = or_empty (jfield_str event ''type'');
              eventType = (if ty = '''' then ''message'' else ty);
              event1 = obj_del ''type'' event
          in if eventType = ''media''
             then map_option (\<lambda>d. (eventType, JObj d)) (jfield_obj event1 ''data'')
             else Some (eventType, if isnil then JNull else JObj event1))"

definition event_content :: "json \<Rightarrow> string" where
  "event_content dat = (case dat of JObj m \<Rightarrow> or_empty (jfield_str m ''content'') | _ \<Rightarrow> '''')"

text \<open>The text of the reply so far, with the chunk that precedes a \<open>done\<close> without chunks.\<close>

definition collect_reply :: "string \<Rightarrow> json \<Rightarrow> chat_stream \<Rightarrow> chat_stream" where
  "collect_reply eventType dat st =
     (let content = event_content dat;
          st1 = (if eventType = ''chunk''
            then st\<lparr>ss_chunks := True, ss_reply := ss_reply st @ content\<rparr> else st)
      in if eventType = ''done'' \<and> \<not> ss_chunks st1 \<and> content \<noteq> ''''
         then write_frame (content_frame ''chunk'' content) (st1\<lparr>ss_reply := ss_reply st1 @ content\<rparr>)
         else st1)"

text \<open>The result is the new stream and whether it goes on.\<close>

definition chat_deliver :: "string \<Rightarrow> int \<Rightarrow> chat_stream \<Rightarrow> chat_stream \<times> bool" where
  "chat_deliver payload now st0 =
     (let st = st0\<lparr>ss_first := False, ss_deadline := now + sseTimeout\<rparr> in
      case decode_event payload of
        None \<Rightarrow> (st, True)
      | Some (eventType, dat) \<Rightarrow>
          let st1 = write_frame (Event eventType dat) (collect_reply eventType dat st)
          in if eventType = ''done'' then (st1, False)
             else if eventType = ''error'' then
               (st1\<lparr>ss_reason := ''error'', ss_code := itoa (ae_code ErrBotUnknownError)\<rparr>, False)
             else (st1, True))"

text \<open>An empty read.\<close>

definition chat_idle :: "tick \<Rightarrow> chat_stream \<Rightarrow> chat_stream \<times> bool" where
  "chat_idle ev st =
     (case select_ready (ev_gone2 ev) (ev_bot2 ev) (ev_pick2 ev) of
        ClientGone \<Rightarrow> (end_client st, False)
      | BotGone \<Rightarrow> (end_with ''bot_disconnect'' ErrChatNoBot st, False)
      | Neither \<Rightarrow>
          if ev_now2 ev - ss_heartbeat st \<ge> heartbeatInterval
          then ((write_frame Heartbeat st)\<lparr>ss_heartbeat := ev_now2 ev\<rparr>, True)
          else (st, True))"

definition chat_iter ::
    "'s mq \<Rightarrow> string \<Rightarrow> tick \<Rightarrow> chat_stream \<Rightarrow> 's \<Rightarrow> (chat_stream \<times> bool) \<times> 's" where
  "chat_iter Q inbox ev st s =
     (case select_ready (ev_gone1 ev) (ev_bot1 ev) (ev_pick1 ev) of
        ClientGone \<Rightarrow> ((end_client st, False), s)
      | BotGone \<Rightarrow> ((end_with ''bot_disconnect'' ErrChatNoBot st, False), s)
      | Neither \<Rightarrow>
          if ev_now1 ev > ss_deadline st then ((end_with ''timeout'' ErrChatStreamTimeout st, False), s)
          else
            (case mq_consume Q inbox ''sse'' s of
               (Inl _, s1) \<Rightarrow> ((end_with ''error'' ErrChatInternalError st, False), s1)
             | (Inr None, s1) \<Rightarrow> (chat_idle ev st, s1)
             | (Inr (Some (i, payload)), s1) \<Rightarrow>
                 (chat_deliver payload (ev_now2 ev) st, snd (mq_ack Q inbox ''sse'' i s1))))"

text \<open>The loop, on the rounds that happen.\<close>

fun chat_loop ::
    "'s mq \<Rightarrow> string \<Rightarrow> tick list \<Rightarrow> chat_stream \<Rightarrow> 's \<Rightarrow> (chat_stream \<times> bool) \<times> 's" where
  "chat_loop Q inbox [] st s = ((st, True), s)"
| "chat_loop Q inbox (ev # evs) st s =
     (case chat_iter Q inbox ev st s of
        ((st1, False), s1) \<Rightarrow> ((st1, False), s1)
      | ((st1, True), s1) \<Rightarrow> chat_loop Q inbox evs st1 s1)"

text \<open>The goroutine started when the client is gone.\<close>

definition run_cancel :: "'s redis \<Rightarrow> 's mq \<Rightarrow> string \<Rightarrow> chat_turn \<Rightarrow> chat_stream \<Rightarrow> 's \<Rightarrow> 's" where
  "run_cancel R Q token turn st s =
     (if ss_cancel st then snd (SendCancelToBot R Q token (ct_session turn) s) else s)"

text \<open>What a span records of a text: short texts as they are, long ones by an uploaded copy.\<close>

definition storeSpanContent :: "(string \<Rightarrow> string \<Rightarrow> string + string) \<Rightarrow> string \<Rightarrow> string \<Rightarrow> string" where
  "storeSpanContent put uuid content =
     (if length content \<le> 1024 then content
      else (case put (''otel/'' @ uuid @ ''.txt'') content of
              Inl _ \<Rightarrow> take 1024 content @ ''...(truncated)''
            | Inr url \<Rightarrow> url))"

section \<open>The handler\<close>

datatype chat_outcome = Refused response | Streamed chat_turn chat_stream bool

text \<open>\<open>flush\<close> is whether the writer can flush, \<open>writes\<close> whether the first write succeeds, \<open>start\<close>
  the instant the stream starts, \<open>n\<close> the identity of its registration with the monitor.\<close>

definition chatSSE ::
    "(chat_session, 'd) dbtable \<Rightarrow> 's redis \<Rightarrow> 's mq \<Rightarrow> int \<Rightarrow> int \<Rightarrow> string \<Rightarrow> string \<Rightarrow> (string \<times> string) list \<Rightarrow>
     bool \<Rightarrow> bool \<Rightarrow> int \<Rightarrow> nat \<Rightarrow> string \<Rightarrow> string \<Rightarrow> tick list \<Rightarrow> monitor \<Rightarrow> 'd \<Rightarrow> 's \<Rightarrow>
     chat_outcome \<times> monitor \<times> 'd \<times> 's" where
  "chatSSE T R Q now created uuid requuid carrier flush writes start n token body evs m d s =
     (case chat_prepare T R Q now created uuid requuid carrier token body d s of
        (Inl err, d1, s1) \<Rightarrow> (Refused (MetricsErrorResponse err), m, d1, s1)
      | (Inr turn, d1, s1) \<Rightarrow>
          if \<not> flush then (Refused (MetricsErrorResponse ErrChatStreamUnsupported), m, d1, s1)
          else
            (case RegisterSSEConnection n token (ct_session turn) (ct_inbox turn) m of
               (_, m1) \<Rightarrow>
                 (case start_stream turn start writes of
                    (st, False) \<Rightarrow> (Streamed turn st False, UnregisterSSEConnection (ct_inbox turn) m1, d1, s1)
                  | (st, True) \<Rightarrow>
                      (case chat_loop Q (ct_inbox turn) evs st s1 of
                         ((st1, running), s2) \<Rightarrow>
                           (Streamed turn st1 running,
                            if running then m1 else UnregisterSSEConnection (ct_inbox turn) m1, d1, s2)))))"

section \<open>The shape of a stream\<close>

definition terminal :: "sse_frame \<Rightarrow> bool" where
  "terminal f = (case f of Event t _ \<Rightarrow> t = ''done'' \<or> t = ''error'' | Heartbeat \<Rightarrow> False)"

lemma terminal_simps [simp]:
  "terminal (Event t j) \<longleftrightarrow> t = ''done'' \<or> t = ''error''" "\<not> terminal Heartbeat"
  "\<not> terminal (session_frame turn)" "terminal (content_frame t c) \<longleftrightarrow> t = ''done'' \<or> t = ''error''"
  by (simp_all add: terminal_def session_frame_def content_frame_def)

text \<open>What a running stream has written: the session, then events that do not end it. What a closed
  stream has written: the same, and one terminal event last unless the client left.\<close>

definition stream_open :: "chat_turn \<Rightarrow> chat_stream \<Rightarrow> bool" where
  "stream_open turn st \<longleftrightarrow>
     (\<exists>fs. ss_out st = session_frame turn # fs \<and> (\<forall>f\<in>set fs. \<not> terminal f)) \<and>
     ss_reason st = ''done'' \<and> ss_code st = ''0'' \<and> \<not> ss_cancel st"

definition own_errors :: "(string \<times> app_error) list" where
  "own_errors = [(''timeout'', ErrChatStreamTimeout), (''bot_disconnect'', ErrChatNoBot), (''error'', ErrChatInternalError)]"

definition stream_closed :: "chat_turn \<Rightarrow> chat_stream \<Rightarrow> bool" where
  "stream_closed turn st \<longleftrightarrow>
     (\<exists>fs. (\<forall>f\<in>set fs. \<not> terminal f) \<and>
       (ss_out st = session_frame turn # fs \<and> ss_reason st = ''client_disconnect'' \<and> ss_cancel st \<or>
        \<not> ss_cancel st \<and> (\<exists>err. (ss_reason st, err) \<in> set own_errors \<and> ss_code st = itoa (ae_code err) \<and>
           ss_out st = session_frame turn # fs @ [content_frame ''error'' (ae_message err)]) \<or>
        \<not> ss_cancel st \<and> ss_reason st = ''error'' \<and> ss_code st = itoa (ae_code ErrBotUnknownError) \<and>
           (\<exists>j. ss_out st = session_frame turn # fs @ [Event ''error'' j]) \<or>
        \<not> ss_cancel st \<and> ss_reason st = ''done'' \<and> ss_code st = ''0'' \<and>
           (\<exists>j. ss_out st = session_frame turn # fs @ [Event ''done'' j])))"

definition stream_shape :: "chat_turn \<Rightarrow> chat_stream \<times> bool \<Rightarrow> bool" where
  "stream_shape turn r \<longleftrightarrow> (if snd r then stream_open turn (fst r) else stream_closed turn (fst r))"

lemma open_own_error:
  assumes "stream_open turn st" "(reason, err) \<in> set own_errors"
  shows "stream_shape turn (end_with reason err st, False)"
  using assms unfolding stream_shape_def stream_closed_def stream_open_def end_with_def write_frame_def
  by (auto split: if_splits)

lemma open_client:
  assumes "stream_open turn st"
  shows "stream_shape turn (end_client st, False)"
  using assms unfolding stream_shape_def stream_closed_def stream_open_def end_client_def by auto

lemma chat_idle_shape:
  assumes "stream_open turn st"
  shows "stream_shape turn (chat_idle ev st)"
proof -
  have "stream_shape turn ((write_frame Heartbeat st)\<lparr>ss_heartbeat := t\<rparr>, True)" "stream_shape turn (st, True)" for t
    using assms by (auto simp: stream_shape_def stream_open_def write_frame_def)
  then show ?thesis
    using open_client [OF assms] open_own_error [OF assms, of "''bot_disconnect''" ErrChatNoBot]
    by (auto simp: chat_idle_def own_errors_def split: ready.splits)
qed

text \<open>What one entry adds: at most the injected chunk and the event itself.\<close>

lemma collect_reply_out:
  "ss_out (collect_reply ty j st) = ss_out st \<or> ty = ''done'' \<and> ss_out (collect_reply ty j st) = ss_out st @ [content_frame ''chunk'' (event_content j)]"
  "ss_reason (collect_reply ty j st) = ss_reason st" "ss_code (collect_reply ty j st) = ss_code st"
  "ss_cancel (collect_reply ty j st) = ss_cancel st"
  by (simp_all add: collect_reply_def Let_def write_frame_def)

lemma chat_deliver_shape:
  assumes "stream_open turn st"
  shows "stream_shape turn (chat_deliver payload now st)"
proof (cases "decode_event payload")
  case None
  with assms show ?thesis by (simp add: chat_deliver_def stream_shape_def stream_open_def)
next
  case (Some e)
  obtain ty j where e: "e = (ty, j)" by (cases e)
  let ?st = "st\<lparr>ss_first := False, ss_deadline := now + sseTimeout\<rparr>"
  from assms obtain fs where fs: "ss_out st = session_frame turn # fs" "\<forall>f\<in>set fs. \<not> terminal f"
    and st: "ss_reason st = ''done''" "ss_code st = ''0''" "\<not> ss_cancel st" by (auto simp: stream_open_def)
  obtain gs where gs: "ss_out (collect_reply ty j ?st) = session_frame turn # gs" "\<forall>f\<in>set gs. \<not> terminal f"
    using collect_reply_out(1) [of ty j ?st] fs by auto
  note facts = Some e st gs collect_reply_out(2-4) [of ty j ?st]
  consider "ty = ''done''" | "ty = ''error''" | "ty \<noteq> ''done''" "ty \<noteq> ''error''" by blast
  then show ?thesis
  proof cases
    case 1
    with facts show ?thesis
      by (auto simp: chat_deliver_def write_frame_def Let_def stream_shape_def stream_closed_def)
  next
    case 2
    with facts show ?thesis
      by (auto simp: chat_deliver_def write_frame_def Let_def stream_shape_def stream_closed_def)
  next
    case 3
    with facts show ?thesis
      by (auto simp: chat_deliver_def write_frame_def Let_def stream_shape_def stream_open_def)
  qed
qed

lemma chat_iter_shape:
  assumes "stream_open turn st"
  shows "stream_shape turn (fst (chat_iter Q inbox ev st s))"
  using open_client [OF assms] open_own_error [OF assms] chat_idle_shape [OF assms] chat_deliver_shape [OF assms]
  by (auto simp: chat_iter_def own_errors_def case_prod_beta split: ready.splits sum.splits option.splits)

lemma chat_loop_shape:
  "stream_open turn st \<Longrightarrow> stream_shape turn (fst (chat_loop Q inbox evs st s))"
proof (induction evs arbitrary: st s)
  case Nil
  then show ?case by (simp add: stream_shape_def)
next
  case (Cons ev evs)
  obtain st1 go s1 where e: "chat_iter Q inbox ev st s = ((st1, go), s1)" by (metis prod.collapse)
  have "stream_shape turn (st1, go)" using chat_iter_shape [OF Cons.prems, of Q inbox ev s] by (simp add: e)
  then show ?case using Cons.IH [of st1 s1] by (cases go) (auto simp: e stream_shape_def)
qed

lemma start_open: "start_stream turn now True = (st, go) \<Longrightarrow> stream_open turn st \<and> go"
  by (auto simp: start_stream_def Let_def stream_open_def write_frame_def)

section \<open>What the client reads\<close>

lemma outcome_running:
  "\<forall>f\<in>set fs. \<not> terminal f \<Longrightarrow> \<exists>sid. stream_outcome (fs @ gs) r = stream_outcome gs (r\<lparr>cr_session := sid\<rparr>)"
proof (induction fs arbitrary: r)
  case Nil
  have "r\<lparr>cr_session := cr_session r\<rparr> = r" by simp
  then show ?case by (metis append_Nil)
next
  case (Cons f fs)
  then have f: "\<not> terminal f" and fs: "\<forall>f\<in>set fs. \<not> terminal f" by simp_all
  have "\<exists>sid. stream_outcome ((f # fs) @ gs) r = stream_outcome (fs @ gs) (r\<lparr>cr_session := sid\<rparr>)"
  proof (cases f)
    case (Event t j)
    show ?thesis
    proof (cases "t = ''session''")
      case True
      with Event show ?thesis by (auto simp: Let_def)
    next
      case False
      with Event f show ?thesis by (intro exI [of _ "cr_session r"]) (simp add: Let_def)
    qed
  next
    case Heartbeat
    then show ?thesis by (intro exI [of _ "cr_session r"]) simp
  qed
  then obtain s1 where s1: "stream_outcome ((f # fs) @ gs) r = stream_outcome (fs @ gs) (r\<lparr>cr_session := s1\<rparr>)"
    by blast
  obtain s2 where "stream_outcome (fs @ gs) (r\<lparr>cr_session := s1\<rparr>) = stream_outcome gs (r\<lparr>cr_session := s1, cr_session := s2\<rparr>)"
    using Cons.IH [OF fs] by blast
  with s1 have "stream_outcome ((f # fs) @ gs) r = stream_outcome gs (r\<lparr>cr_session := s2\<rparr>)" by simp
  then show ?case by blast
qed

lemma content_read: "struct_str (Some (canon (jobj [(''content'', JStr c)]))) ''content'' = c"
  by (simp add: jobj_def obj_of_def struct_str_def struct_field_def)

lemma closed_outcome:
  assumes "stream_closed turn st" "ss_reason st \<noteq> ''client_disconnect''"
  obtains r where "stream_outcome (ss_out st) empty_chat_result = Inr r" "cr_has_error r \<longleftrightarrow> ss_reason st \<noteq> ''done''"
    "ss_reason st = ''timeout'' \<Longrightarrow> cr_error r = ae_message ErrChatStreamTimeout"
    "ss_reason st = ''bot_disconnect'' \<Longrightarrow> cr_error r = ae_message ErrChatNoBot"
proof -
  from assms obtain fs f where fs: "\<forall>f\<in>set fs. \<not> terminal f" and out: "ss_out st = session_frame turn # fs @ [f]"
    and f: "(\<exists>err. (ss_reason st, err) \<in> set own_errors \<and> f = content_frame ''error'' (ae_message err)) \<or>
      ss_reason st = ''error'' \<and> (\<exists>j. f = Event ''error'' j) \<or> ss_reason st = ''done'' \<and> (\<exists>j. f = Event ''done'' j)"
    unfolding stream_closed_def by blast
  have "\<forall>f\<in>set (session_frame turn # fs). \<not> terminal f" using fs by simp
  then obtain sid where o: "stream_outcome (ss_out st) empty_chat_result =
      stream_outcome [f] (empty_chat_result\<lparr>cr_session := sid\<rparr>)"
    using outcome_running [of "session_frame turn # fs" "[f]" empty_chat_result] out by auto
  show thesis
    using f that o by (auto simp: own_errors_def content_frame_def content_read empty_chat_result_def Let_def)
qed

section \<open>The text of the reply\<close>

fun chunk_text :: "sse_frame list \<Rightarrow> string" where
  "chunk_text [] = []"
| "chunk_text (Event t j # fs) = (if t = ''chunk'' then event_content j else []) @ chunk_text fs"
| "chunk_text (Heartbeat # fs) = chunk_text fs"

definition has_chunk :: "sse_frame list \<Rightarrow> bool" where
  "has_chunk fs \<longleftrightarrow> (\<exists>j. Event ''chunk'' j \<in> set fs)"

lemma chunk_text_append [simp]: "chunk_text (xs @ ys) = chunk_text xs @ chunk_text ys"
  by (induction xs rule: chunk_text.induct) simp_all

lemma has_chunk_append [simp]: "has_chunk (xs @ ys) \<longleftrightarrow> has_chunk xs \<or> has_chunk ys"
  by (auto simp: has_chunk_def)

lemma content_frame_text [simp]:
  "chunk_text [content_frame t c] = (if t = ''chunk'' then c else [])"
  "has_chunk [content_frame t c] \<longleftrightarrow> t = ''chunk''"
  by (auto simp: content_frame_def event_content_def jobj_def obj_of_def jfield_str_def has_chunk_def)

lemma event_text [simp]:
  "chunk_text [Event t j] = (if t = ''chunk'' then event_content j else [])"
  "has_chunk [Event t j] \<longleftrightarrow> t = ''chunk''" "\<not> has_chunk [Heartbeat]"
  by (auto simp: has_chunk_def)

text \<open>The reply kept for the trace is the text of the chunks sent, and a \<open>done\<close> with text never comes
  without a chunk.\<close>

definition reply_inv :: "chat_stream \<times> bool \<Rightarrow> bool" where
  "reply_inv r \<longleftrightarrow> ss_reply (fst r) = chunk_text (ss_out (fst r)) \<and>
     (snd r \<longrightarrow> (ss_chunks (fst r) \<longleftrightarrow> has_chunk (ss_out (fst r)))) \<and>
     (\<forall>j. Event ''done'' j \<in> set (ss_out (fst r)) \<longrightarrow> \<not> snd r \<and> (event_content j \<noteq> [] \<longrightarrow> has_chunk (ss_out (fst r))))"

lemma event_content_frame [simp]:
  "Event u j = content_frame t c \<longleftrightarrow> u = t \<and> j = jobj [(''content'', JStr c)]"
  by (auto simp: content_frame_def)

lemma deliver_reply_inv:
  assumes "reply_inv (st, True)"
  shows "reply_inv (chat_deliver payload now st)"
proof (cases "decode_event payload")
  case None
  with assms show ?thesis by (simp add: chat_deliver_def reply_inv_def)
next
  case (Some e)
  obtain ty j where e: "e = (ty, j)" by (cases e)
  with Some assms show ?thesis
    by (auto simp: chat_deliver_def reply_inv_def Let_def collect_reply_def write_frame_def content_frame_def
        has_chunk_def event_content_def jobj_def obj_of_def jfield_str_def split: if_splits)
qed

lemma iter_reply_inv:
  assumes "reply_inv (st, True)"
  shows "reply_inv (fst (chat_iter Q inbox ev st s))"
proof -
  have own: "reply_inv (end_with reason err st, False)" "reply_inv (end_client st, False)"
    "reply_inv ((write_frame Heartbeat st)\<lparr>ss_heartbeat := t\<rparr>, True)" for reason err t
    using assms by (auto simp: reply_inv_def end_with_def end_client_def write_frame_def)
  then have "reply_inv (chat_idle ev st)" using assms by (simp add: chat_idle_def split: ready.splits)
  then show ?thesis using own assms
    by (auto simp: chat_iter_def case_prod_beta deliver_reply_inv split: ready.splits sum.splits option.splits)
qed

lemma loop_reply_inv: "reply_inv (st, True) \<Longrightarrow> reply_inv (fst (chat_loop Q inbox evs st s))"
proof (induction evs arbitrary: st s)
  case (Cons ev evs)
  obtain st1 go s1 where e: "chat_iter Q inbox ev st s = ((st1, go), s1)" by (metis prod.collapse)
  have "reply_inv (st1, go)" using iter_reply_inv [OF Cons.prems, of Q inbox ev s] by (simp add: e)
  then show ?case using Cons.IH [of st1 s1] by (cases go) (auto simp: e)
qed simp

lemma start_reply: "start_stream turn now True = (st, go) \<Longrightarrow> reply_inv (st, True)"
  by (auto simp: start_stream_def Let_def reply_inv_def write_frame_def session_frame_def has_chunk_def)

section \<open>Order, timeout and cancellation\<close>

text \<open>Delivering entries one after the other, each at its instant, until one ends the stream.\<close>

fun relay :: "(string \<times> int) list \<Rightarrow> chat_stream \<Rightarrow> chat_stream \<times> bool" where
  "relay [] st = (st, True)"
| "relay ((p, t) # ps) st =
     (case chat_deliver p t st of (st1, True) \<Rightarrow> relay ps st1 | (st1, False) \<Rightarrow> (st1, False))"

text \<open>Rounds in which nobody leaves and the clock stays within the timeout of the round before.\<close>

fun timely :: "int \<Rightarrow> tick list \<Rightarrow> bool" where
  "timely deadline [] = True"
| "timely deadline (ev # evs) \<longleftrightarrow>
     \<not> ev_gone1 ev \<and> \<not> ev_bot1 ev \<and> ev_now1 ev \<le> deadline \<and> timely (ev_now2 ev + sseTimeout) evs"

lemma deliver_deadline: "ss_deadline (fst (chat_deliver p t st)) = t + sseTimeout"
  by (auto simp: chat_deliver_def Let_def collect_reply_def write_frame_def split: option.splits)

context redis_up begin

lemma consume_ack:
  assumes good: "queue_good (view s) q" and ch: "queue_chan (view s) q g = Some (m # p)"
  obtains i s1 where "Consume R q g s = (Inr (Some (i, m)), s1)" "queue_good (view (snd (Ack R q g i s1))) q"
    "queue_chan (view (snd (Ack R q g i s1))) q g = Some p"
proof -
  obtain r s1 where c: "Consume R q g s = (r, s1)" by (cases "Consume R q g s")
  note C = Consume_queue [OF good c]
  then obtain i where r: "r = Inr (Some (i, m))" and g1: "queue_good (view s1) q" "queue_chan (view s1) q g = Some p"
    using ch by auto
  obtain ra s2 where a: "Ack R q g i s1 = (ra, s2)" by (cases "Ack R q g i s1")
  from Ack_queue [OF g1(1) a] g1(2) show thesis using that c r a by simp
qed

lemma consume_empty:
  assumes good: "queue_good (view s) q" and ch: "queue_chan (view s) q g = Some []"
  obtains s1 where "Consume R q g s = (Inr None, s1)" "queue_good (view s1) q" "queue_chan (view s1) q g = Some []"
proof -
  obtain r s1 where c: "Consume R q g s = (r, s1)" by (cases "Consume R q g s")
  from Consume_queue [OF good c] ch c that show thesis by simp
qed

text \<open>The stream relays its inbox in order.\<close>

lemma chat_loop_relays:
  assumes "queue_good (view s) q" "queue_chan (view s) q ''sse'' = Some ps" "length evs \<le> length ps"
    "timely (ss_deadline st) evs"
  shows "fst (chat_loop (NewRedisStreamQueue R n) q evs st s) = relay (zip ps (map ev_now2 evs)) st"
  using assms
proof (induction evs arbitrary: ps st s)
  case (Cons ev evs)
  then obtain p ps' where ps: "ps = p # ps'" by (cases ps) auto
  obtain i s1 where c: "Consume R q ''sse'' s = (Inr (Some (i, p)), s1)"
    "queue_good (view (snd (Ack R q ''sse'' i s1))) q" "queue_chan (view (snd (Ack R q ''sse'' i s1))) q ''sse'' = Some ps'"
    using consume_ack [OF Cons.prems(1) Cons.prems(2) [unfolded ps]] by blast
  have it: "chat_iter (NewRedisStreamQueue R n) q ev st s = (chat_deliver p (ev_now2 ev) st, snd (Ack R q ''sse'' i s1))"
    using Cons.prems(4) by (simp add: chat_iter_def select_ready_def c(1))
  obtain st1 go where d: "chat_deliver p (ev_now2 ev) st = (st1, go)" by (cases "chat_deliver p (ev_now2 ev) st")
  have "ss_deadline st1 = ev_now2 ev + sseTimeout" using deliver_deadline [of p "ev_now2 ev" st] d by simp
  then have "timely (ss_deadline st1) evs" using Cons.prems(4) by simp
  from Cons.IH [OF c(2,3) _ this] Cons.prems(3) show ?case by (cases go) (simp_all add: it d ps)
qed simp

text \<open>A stream whose inbox stays empty ends at the first round after its deadline, if not before.\<close>

lemma idle_deadline: "snd (chat_idle ev st) \<Longrightarrow> ss_deadline (fst (chat_idle ev st)) = ss_deadline st"
  by (auto simp: chat_idle_def write_frame_def split: ready.splits)

lemma chat_loop_times_out:
  assumes "queue_good (view s) q" "queue_chan (view s) q ''sse'' = Some []"
    "\<exists>ev\<in>set evs. ss_deadline st < ev_now1 ev"
  shows "\<not> snd (fst (chat_loop (NewRedisStreamQueue R n) q evs st s))"
  using assms
proof (induction evs arbitrary: st s)
  case (Cons ev evs)
  let ?Q = "NewRedisStreamQueue R n"
  obtain st1 go s1 where e: "chat_iter ?Q q ev st s = ((st1, go), s1)" by (metis prod.collapse)
  show ?case
  proof (cases go)
    case True
    obtain s2 where c: "Consume R q ''sse'' s = (Inr None, s2)" "queue_good (view s2) q"
      "queue_chan (view s2) q ''sse'' = Some []"
      using consume_empty [OF Cons.prems(1,2)] by blast
    from e True have now: "ev_now1 ev \<le> ss_deadline st" and idle: "(st1, go) = chat_idle ev st" and s1: "s1 = s2"
      by (auto simp: chat_iter_def c(1) split: ready.splits if_splits)
    have d: "ss_deadline st1 = ss_deadline st"
      using idle_deadline [of ev st] True idle by (metis fst_conv snd_conv)
    have "\<exists>ev\<in>set evs. ss_deadline st1 < ev_now1 ev" using Cons.prems(3) now d by auto
    then have "\<not> snd (fst (chat_loop ?Q q evs st1 s2))" by (rule Cons.IH [OF c(2,3)])
    then show ?thesis using e True s1 by simp
  qed (simp add: e)
qed simp

end

end
