(* ===== verification/ChatFlow.thy ===== *)
theory ChatFlow
  imports ChatSse
begin

text \<open>
  How the chat endpoint and the bot meet: a notification the bot sends becomes the frame the client
  reads, a request that is refused leaves Redis as it was, and a client that leaves has the bot's
  turn cancelled. The operations are those of \<open>ChatSse\<close> and \<open>BotMessage\<close>.
\<close>

section \<open>A translated event survives the inbox\<close>

lemma set_obj_put: "set (obj_put k v m) \<subseteq> insert (k, v) (set m)"
  by (induction k v m rule: obj_put.induct) auto

lemma set_obj_of: "set (obj_of kvs) \<subseteq> set kvs"
proof (induction kvs rule: rev_induct)
  case (snoc kv kvs)
  obtain k v where kv: "kv = (k, v)" by (cases kv)
  with snoc set_obj_put [of k v "obj_of kvs"] show ?case by (auto simp: obj_of_snoc)
qed (simp add: obj_of_def)

definition plain :: "json \<Rightarrow> bool" where
  "plain j \<longleftrightarrow> wf_json j \<and> canonical j"

lemma plain_obj: "\<forall>kv\<in>set kvs. plain (snd kv) \<Longrightarrow> plain (JObj (gomap_of kvs))"
  using set_obj_of [of kvs] by (auto simp: plain_def gomap_of_def keys_sorted_obj_of)

lemma plain_jobj: "\<forall>kv\<in>set kvs. plain (snd kv) \<Longrightarrow> plain (jobj kvs)"
  using plain_obj [of kvs] by (simp add: jobj_def gomap_of_def)

lemma plain_str [simp]: "plain (JStr x)"
  by (simp add: plain_def)

lemma plain_media:
  assumes "translate_media content = Some ev"
  shows "plain (JObj ev)"
  using assms by (auto simp: translate_media_def Let_def intro!: plain_obj plain_jobj split: option.splits if_splits)

lemma plain_translated: "TranslateBotEvent meth params = Some ev \<Longrightarrow> plain (JObj ev)"
  unfolding TranslateBotEvent_def
  by (auto simp: Let_def intro!: plain_obj dest: plain_media split: option.splits if_splits)

text \<open>The frame an event is shown as: the type becomes its name, a media event shows its data.\<close>

definition event_frame :: "gomap \<Rightarrow> sse_frame" where
  "event_frame ev = Event (event_type ev)
     (if event_type ev = ''media'' then jget ev ''data'' else JObj (obj_del ''type'' ev))"

lemma decode_translated:
  assumes "TranslateBotEvent meth params = Some ev"
  shows "\<exists>j. event_frame ev = Event (event_type ev) j \<and>
    decode_event (json_marshal (JObj ev)) = Some (event_type ev, j) \<and> event_type ev \<noteq> '''' \<and>
    event_type ev \<in> {''chunk'', ''done'', ''thinking'', ''tool_result'', ''tool_call'', ''media''}"
proof -
  have ev: "chat_event ev" using assms by (rule translate_chat_event)
  then have ty: "event_type ev \<in> {''chunk'', ''done'', ''thinking'', ''tool_result'', ''tool_call'', ''media''}"
    by (auto simp: chat_event_def split: if_splits)
  have read: "json_unmarshal (json_marshal (JObj ev)) = Some (JObj ev)"
    using plain_translated [OF assms] json_roundtrip [of "JObj ev"] canon_canonical [of "JObj ev"]
    by (simp add: plain_def del: canon.simps)
  have "decode_event (json_marshal (JObj ev)) = Some (event_type ev, j)" if "event_frame ev = Event (event_type ev) j" for j
  proof (cases "event_type ev = ''media''")
    case True
    with ev obtain d where "map_of ev ''data'' = Some (JObj d)"
      by (auto simp: chat_event_def jfield_obj_def split: option.splits json.splits)
    with True that read show ?thesis
      by (auto simp: decode_event_def event_frame_def event_type_def jget_def jfield_obj_def map_of_obj_del)
  next
    case False
    with ty that read show ?thesis by (auto simp: decode_event_def event_frame_def event_type_def)
  qed
  with ty show ?thesis by (auto simp: event_frame_def)
qed

section \<open>From the bot's message to the client's frame\<close>

text \<open>The frames one event adds: before a \<open>done\<close> with text and no chunk yet, that text as a chunk.\<close>

definition event_frames :: "gomap \<Rightarrow> chat_stream \<Rightarrow> sse_frame list" where
  "event_frames ev st =
     (let c = or_empty (jfield_str ev ''content'') in
      (if event_type ev = ''done'' \<and> \<not> ss_chunks st \<and> c \<noteq> '''' then [content_frame ''chunk'' c] else []) @
      [event_frame ev])"

lemma deliver_translated:
  assumes "TranslateBotEvent meth params = Some ev"
  shows "ss_out (fst (chat_deliver (json_marshal (JObj ev)) now st)) = ss_out st @ event_frames ev st"
    and "snd (chat_deliver (json_marshal (JObj ev)) now st) \<longleftrightarrow> event_type ev \<noteq> ''done''"
proof -
  obtain j where j: "event_frame ev = Event (event_type ev) j"
    "decode_event (json_marshal (JObj ev)) = Some (event_type ev, j)"
    and ty: "event_type ev \<in> {''chunk'', ''done'', ''thinking'', ''tool_result'', ''tool_call'', ''media''}"
    using decode_translated [OF assms] by blast
  have c: "event_type ev = ''done'' \<Longrightarrow> event_content j = or_empty (jfield_str ev ''content'')"
    using j(1) by (auto simp: event_frame_def event_content_def jfield_str_def map_of_obj_del)
  show "ss_out (fst (chat_deliver (json_marshal (JObj ev)) now st)) = ss_out st @ event_frames ev st"
    using j c by (auto simp: chat_deliver_def event_frames_def Let_def write_frame_def collect_reply_def)
  show "snd (chat_deliver (json_marshal (JObj ev)) now st) \<longleftrightarrow> event_type ev \<noteq> ''done''"
    using j ty by (auto simp: chat_deliver_def Let_def)
qed

context redis_up begin

lemma iter_delivers:
  assumes "queue_good (view s) q" "queue_chan (view s) q ''sse'' = Some (m # p)"
    "\<not> ev_gone1 tk" "\<not> ev_bot1 tk" "ev_now1 tk \<le> ss_deadline st"
  obtains s' where "chat_iter (NewRedisStreamQueue R n) q tk st s = (chat_deliver m (ev_now2 tk) st, s')"
    "queue_good (view s') q" "queue_chan (view s') q ''sse'' = Some p"
proof -
  obtain i s1 where c: "Consume R q ''sse'' s = (Inr (Some (i, m)), s1)" "queue_good (view (snd (Ack R q ''sse'' i s1))) q"
    "queue_chan (view (snd (Ack R q ''sse'' i s1))) q ''sse'' = Some p"
    using consume_ack [OF assms(1,2)] by blast
  show thesis
    by (rule that [OF _ c(2,3)]) (use assms(3-5) in \<open>simp add: chat_iter_def select_ready_def c(1)\<close>)
qed

lemma notification_streamed:
  assumes raw: "json_unmarshal raw = Some (JObj msg)" and np: "jfield_str msg ''type'' \<noteq> Some ''ping''"
    and m: "jfield_str msg ''method'' = Some meth" "meth \<noteq> ''''" and noid: "\<not> has_key msg ''id''"
    and tr: "TranslateBotEvent meth (jfield_obj msg ''params'') = Some ev"
    and sid: "getNestedString (jfield_obj msg ''params'') ''sessionId'' = Some sid" "sid \<noteq> ''''"
    and up: "\<not> b_down b" and good: "queue_good (view s) (chat_inbox t sid)"
    and ch: "queue_chan (view s) (chat_inbox t sid) ''sse'' = Some []" and room: "1 < nat n"
    and e: "HandleBotMessage R (NewRedisStreamQueue R n) t raw b s = (b', s1)"
    and tk: "\<not> ev_gone1 tk" "\<not> ev_bot1 tk" "ev_now1 tk \<le> ss_deadline st"
    and it: "chat_iter (NewRedisStreamQueue R n) (chat_inbox t sid) tk st s1 = ((st', running), s2)"
  shows "ss_out st' = ss_out st @ event_frames ev st" and "running \<longleftrightarrow> event_type ev \<noteq> ''done''"
    and "queue_chan (view s2) (chat_inbox t sid) ''sse'' = Some []"
proof -
  have room': "length ([] :: string list) + 1 < nat n" using room by simp
  note H = HandleBotMessage_notification [OF raw np m noid tr sid up good ch room' e]
  obtain s3 where i: "chat_iter (NewRedisStreamQueue R n) (chat_inbox t sid) tk st s1 =
      (chat_deliver (json_marshal (JObj ev)) (ev_now2 tk) st, s3)"
    "queue_chan (view s3) (chat_inbox t sid) ''sse'' = Some []"
    using iter_delivers [OF H(4) _ tk, of "json_marshal (JObj ev)" "[]"] H(2) by auto
  have d: "chat_deliver (json_marshal (JObj ev)) (ev_now2 tk) st = (st', running)" and s2: "s2 = s3"
    using i(1) it by (simp_all del: json_marshal.simps)
  note D = deliver_translated [OF tr, of "ev_now2 tk" st, unfolded d]
  show "ss_out st' = ss_out st @ event_frames ev st" "running \<longleftrightarrow> event_type ev \<noteq> ''done''"
    "queue_chan (view s2) (chat_inbox t sid) ''sse'' = Some []"
    using D i(2) s2 by simp_all
qed

end

section \<open>Requests that are refused\<close>

lemma invalid_request_refused:
  assumes "check_request body = Inl e"
  shows "chatSSE T R Q now created uuid requuid carrier flush writes start n token body evs m d s =
    (Refused (MetricsErrorResponse e), m, d, s)"
  using assms by (simp add: chatSSE_def chat_prepare_def)

text \<open>What can be refused at the request itself.\<close>

lemma media_urls_error: "media_urls items = Inl e \<Longrightarrow> e \<in> {ErrMediaBadURLScheme, ErrMediaUnsupportedType}"
  by (induction items) (auto split: if_splits sum.splits)

lemma media_urls_ok:
  "media_urls items = Inr urls \<Longrightarrow> length urls = length items \<and>
   (\<forall>u\<in>set urls. has_prefix u ''http://'' \<or> has_prefix u ''https://'')"
  by (induction items arbitrary: urls) (auto split: if_splits sum.splits)

lemma check_request_ok:
  assumes "check_request body = Inr (rq, urls)"
  shows "length urls \<le> 10" and "cq_content rq \<noteq> '''' \<or> urls \<noteq> []"
    and "u \<in> set urls \<Longrightarrow> has_prefix u ''http://'' \<or> has_prefix u ''https://''"
    and "content_items (cq_content rq) urls \<noteq> []"
  using assms media_urls_ok [of "cq_media rq" urls]
  by (auto simp: check_request_def content_items_def split: option.splits if_splits sum.splits)

context redis_up begin

lemma offline_refused:
  assumes "check_request body = Inr v" "bots_ok (view s)" "\<not> sh_online now t (shared_of (view s))"
    and e: "chatSSE T R Q now created uuid requuid carrier flush writes start n t body evs m d s = (r, m', d', s')"
  shows "r = Refused (MetricsErrorResponse ErrChatNoBot)" "m' = m" "d' = d" "view s' = view s"
proof -
  obtain rq urls where v: "v = (rq, urls)" by (cases v)
  obtain c s1 where i: "IsBotConnected R now t s = (c, s1)" by (cases "IsBotConnected R now t s")
  have "c = False" "view s1 = view s" using IsBotConnected_reply [OF assms(2), of now t] assms(3) i by simp_all
  then show "r = Refused (MetricsErrorResponse ErrChatNoBot)" "m' = m" "d' = d" "view s' = view s"
    using e assms(1) v i by (simp_all add: chatSSE_def chat_prepare_def)
qed

end

text \<open>The session a request names.\<close>

context session_backend begin

lemma BridgeGetSession_reply:
  "fst (BridgeGetSession T t sid d) =
     map_option (\<lambda>r. (cs_id r, cs_number r)) (find (\<lambda>r. cs_token r = t \<and> cs_id r = sid) (rows d))"
  "rows (snd (BridgeGetSession T t sid d)) = rows d"
  by (auto simp: BridgeGetSession_def GetSession_def case_prod_beta split: sum.splits option.splits)

lemma foreign_session_refused:
  assumes "check_request body = Inr (rq, urls)" "bots_ok (view s)" "sh_online now t (shared_of (view s))"
    and "cq_session rq = Some sid" "sid \<noteq> ''''" "\<forall>r\<in>set (rows d). \<not> (cs_token r = t \<and> cs_id r = sid)"
    and e: "chatSSE T R Q now created uuid requuid carrier flush writes start n t body evs m d s = (r, m', d', s')"
  shows "r = Refused (MetricsErrorResponse ErrSessionNotFound)" "m' = m" "rows d' = rows d" "view s' = view s"
proof -
  obtain c s1 where i: "IsBotConnected R now t s = (c, s1)" by (cases "IsBotConnected R now t s")
  have c: "c = True" "view s1 = view s" using IsBotConnected_reply [OF assms(2), of now t] assms(3) i by simp_all
  obtain g d1 where g: "BridgeGetSession T t sid d = (g, d1)" by (cases "BridgeGetSession T t sid d")
  have "find (\<lambda>r. cs_token r = t \<and> cs_id r = sid) (rows d) = None" using assms(6) by (simp add: find_None_iff)
  then have "g = None" "rows d1 = rows d" using BridgeGetSession_reply [of t sid d] g by simp_all
  then show "r = Refused (MetricsErrorResponse ErrSessionNotFound)" "m' = m" "rows d' = rows d" "view s' = view s"
    using e assms(1,4,5) i c g by (simp_all add: chatSSE_def chat_prepare_def resolve_session_def)
qed

end

section \<open>A request that goes through\<close>

context redis_up begin

lemma prepare_inbox_clears:
  fixes n :: int
  assumes "queue_good (view s) q" "q \<noteq> ChatInboxIdxPrefix @ t"
  defines "s' \<equiv> prepare_inbox R (NewRedisStreamQueue R n) t q s"
  shows "queue_good (view s') q" "queue_chan (view s') q ''sse'' = Some []"
    and "k \<noteq> q \<Longrightarrow> k \<noteq> ChatInboxIdxPrefix @ t \<Longrightarrow> kv (view s') k = kv (view s) k"
proof -
  obtain r1 s1 where p: "Purge R q s = (r1, s1)" by (cases "Purge R q s")
  note P = Purge_queue [OF assms(1) p]
  obtain r2 s2 where g: "EnsureGroup R q ''sse'' s1 = (r2, s2)" by (cases "EnsureGroup R q ''sse'' s1")
  have G: "queue_good (view s2) q" "queue_chan (view s2) q ''sse'' = Some []"
    using EnsureGroup_queue [OF _ g] P by (auto split: option.splits)
  have s': "s' = TrackChatInbox R t q s2" using p g by (simp add: s'_def prepare_inbox_def)
  have kv': "kv (view s') k = kv (view s2) k" if "k \<noteq> ChatInboxIdxPrefix @ t" for k
    using that by (simp add: s' TrackChatInbox_def sem_sadd_def)
  show "queue_good (view s') q" "queue_chan (view s') q ''sse'' = Some []"
    using G queue_frame [OF kv' [OF assms(2)]] by simp_all
  show "k \<noteq> q \<Longrightarrow> k \<noteq> ChatInboxIdxPrefix @ t \<Longrightarrow> kv (view s') k = kv (view s) k"
    using kv' Purge_frame [of k q s] EnsureGroup_frame [of k q "''sse''" s1] p g by simp
qed

end

lemma chat_keys [key_simps]:
  "chat_inbox t sid \<noteq> ChatInboxIdxPrefix @ u" "workerInboxName w \<noteq> chat_inbox t sid"
  "chat_inbox t sid \<noteq> workerInboxName w" "chat_inbox t sid \<noteq> TraceCtxPrefix @ u"
  "workerInboxName w \<noteq> ChatInboxIdxPrefix @ u"
  by (simp_all add: chat_inbox_def workerInboxName_def key_defs)

context session_backend begin

text \<open>The bot is online and owned, the session is the token's: the inbox is emptied, the prompt is
  queued for the owner, and the stream starts with the session's frame.\<close>

lemma prepare_dispatches:
  assumes rq: "check_request body = Inr (rq, urls)" and ok: "bots_ok (view s)"
    and on: "sh_online now t (shared_of (view s))" and own: "sh_owner (shared_of (view s)) t = Some w"
    and sid: "cq_session rq = Some sid" "sid \<noteq> ''''" and row: "\<exists>r\<in>set (rows d). cs_token r = t \<and> cs_id r = sid"
    and gq: "queue_good (view s) (chat_inbox t sid)" and gw: "queue_good (view s) (workerInboxName w)"
    and ch: "queue_chan (view s) (workerInboxName w) WorkerInboxGroup = Some p" and room: "length p + 1 < nat n"
    and e: "chat_prepare T R (NewRedisStreamQueue R n) now created uuid requuid carrier t body d s = (r, d', s')"
  shows "\<exists>num. r = Inr \<lparr>ct_session = sid, ct_number = num, ct_new = False, ct_req = ''req_'' @ take 12 requuid,
      ct_inbox = chat_inbox t sid\<rparr>"
    and "queue_good (view s') (chat_inbox t sid)" and "queue_chan (view s') (chat_inbox t sid) ''sse'' = Some []"
    and "queue_chan (view s') (workerInboxName w) WorkerInboxGroup = Some (p @ [worker_payload \<lparr>wm_token = t,
      wm_rpc = prompt_request (''req_'' @ take 12 requuid) sid (content_items (cq_content rq) urls), wm_disconnect = False\<rparr>])"
    and "rows d' = rows d"
proof -
  let ?Q = "NewRedisStreamQueue R n" and ?q = "chat_inbox t sid"
  obtain c s1 where i: "IsBotConnected R now t s = (c, s1)" by (cases "IsBotConnected R now t s")
  have c: "c = True" "view s1 = view s" using IsBotConnected_reply [OF ok, of now t] on i by simp_all
  obtain g d1 where g: "BridgeGetSession T t sid d = (g, d1)" by (cases "BridgeGetSession T t sid d")
  from row obtain x where x: "find (\<lambda>r. cs_token r = t \<and> cs_id r = sid) (rows d) = Some x"
    by (metis (mono_tags, lifting) find_None_iff not_None_eq)
  then have "cs_id x = sid" by (auto simp: find_Some_iff)
  with x have gr: "g = Some (sid, cs_number x)" "rows d1 = rows d"
    using BridgeGetSession_reply [of t sid d] g by simp_all
  define s2 where "s2 = prepare_inbox R ?Q t ?q s1"
  have gq1: "queue_good (view s1) ?q" using gq c(2) by simp
  note I = prepare_inbox_clears [where n = n, OF gq1, of t, folded s2_def]
  have I1: "queue_good (view s2) ?q" "queue_chan (view s2) ?q ''sse'' = Some []" using I(1,2) by (simp_all add: key_simps)
  have I3: "kv (view s2) k = kv (view s) k" if "k \<noteq> ?q" "k \<noteq> ChatInboxIdxPrefix @ t" for k
    using I(3) that c(2) by (simp add: key_simps)
  have sh: "shared_of (view s2) = shared_of (view s) \<and> bots_ok (view s2) = bots_ok (view s)"
    by (intro shared_cong I3) (simp_all add: key_simps chat_inbox_def)
  have w2: "queue_good (view s2) (workerInboxName w)" "queue_chan (view s2) (workerInboxName w) WorkerInboxGroup = Some p"
    using queue_frame [of "view s2" "workerInboxName w" "view s"] I3 gw ch by (simp_all add: key_simps)
  obtain r3 s3 where sb: "SendToBot R ?Q requuid carrier t (cq_content rq) urls sid s2 = (r3, s3)"
    by (cases "SendToBot R ?Q requuid carrier t (cq_content rq) urls sid s2")
  have ok2: "bots_ok (view s2)" and own2: "sh_owner (shared_of (view s2)) t = Some w" using sh ok own by simp_all
  note S = SendToBot_queues [OF ok2 own2 w2 room sid(2) check_request_ok(4) [OF rq] sb]
  have res: "r = Inr \<lparr>ct_session = sid, ct_number = cs_number x, ct_new = False, ct_req = ''req_'' @ take 12 requuid,
      ct_inbox = ?q\<rparr> \<and> d' = d1 \<and> s' = s3"
    using e rq i c g gr sid sb S(1) by (simp add: chat_prepare_def resolve_session_def Let_def s2_def [symmetric])
  then show "\<exists>num. r = Inr \<lparr>ct_session = sid, ct_number = num, ct_new = False, ct_req = ''req_'' @ take 12 requuid,
      ct_inbox = ?q\<rparr>" by blast
  have "kv (view s3) ?q = kv (view s2) ?q" by (rule S(5)) (simp_all add: key_simps)
  from queue_frame [OF this] I1 res show "queue_good (view s') ?q" "queue_chan (view s') ?q ''sse'' = Some []" by simp_all
  show "queue_chan (view s') (workerInboxName w) WorkerInboxGroup = Some (p @ [worker_payload \<lparr>wm_token = t,
      wm_rpc = prompt_request (''req_'' @ take 12 requuid) sid (content_items (cq_content rq) urls), wm_disconnect = False\<rparr>])"
    "rows d' = rows d" using S(3) res gr by simp_all
qed

end

section \<open>The whole handler\<close>

lemma chatSSE_stream:
  assumes "chatSSE T R Q now created uuid requuid carrier flush True start n token body evs m d s =
      (Streamed turn st running, m', d', s')"
  shows "stream_shape turn (st, running)" and "reply_inv (st, running)"
    and "\<not> running \<Longrightarrow> GetSSEConnection (ct_inbox turn) m' = None"
proof -
  obtain pr d1 s1 where p0: "chat_prepare T R Q now created uuid requuid carrier token body d s = (pr, d1, s1)"
    by (metis prod_cases3)
  have "pr = Inr turn \<and> flush"
    using assms p0 by (auto simp: chatSSE_def split: sum.splits if_splits prod.splits bool.splits)
  with p0 have p: "chat_prepare T R Q now created uuid requuid carrier token body d s = (Inr turn, d1, s1)" and fl: flush
    by simp_all
  obtain c m1 where reg: "RegisterSSEConnection n token (ct_session turn) (ct_inbox turn) m = (c, m1)"
    by (cases "RegisterSSEConnection n token (ct_session turn) (ct_inbox turn) m")
  obtain st0 go where st0: "start_stream turn start True = (st0, go)" by (cases "start_stream turn start True")
  have o: "stream_open turn st0" "go" using start_open [OF st0] by blast+
  obtain st1 r s2 where l: "chat_loop Q (ct_inbox turn) evs st0 s1 = ((st1, r), s2)" by (metis prod.collapse)
  have eq: "st = st1 \<and> running = r \<and> m' = (if r then m1 else UnregisterSSEConnection (ct_inbox turn) m1)"
    using assms p fl reg st0 o(2) l by (auto simp: chatSSE_def)
  show "stream_shape turn (st, running)" using chat_loop_shape [OF o(1), of Q "ct_inbox turn" evs s1] eq l by simp
  show "reply_inv (st, running)"
    using loop_reply_inv [OF start_reply [OF st0], of Q "ct_inbox turn" evs s1] eq l by simp
  show "\<not> running \<Longrightarrow> GetSSEConnection (ct_inbox turn) m' = None"
    using eq by (simp add: GetSSEConnection_def UnregisterSSEConnection_def delete_conv)
qed

end
