(* ===== verification/Reconcile.thy ===== *)
theory Reconcile
  imports Shared
begin

text \<open>
  The reconcile loop of \<open>internal/service/bridge_reconcile.go\<close> and the tickers of \<open>bridge.go\<close>: a
  worker evicts a local connection when Redis names another owner or a newer generation. The main
  lemma is convergence: as long as the shared registry stands still, the rounds evict every stale
  connection and no other, whatever the batch size.
\<close>

definition reconcile_token :: "'s redis \<Rightarrow> string \<Rightarrow> bridge \<Rightarrow> 's \<Rightarrow> bridge \<times> 's" where
  "reconcile_token R token b s =
     (case GetBotOwner R token s of (r, s1) \<Rightarrow>
        let foreign = (case r of Inr owner \<Rightarrow> owner \<noteq> '''' \<and> owner \<noteq> b_worker b | Inl _ \<Rightarrow> False) in
        if foreign then (evictLocal token b, s1)
        else
          (case map_of (b_gens b) token of
             None \<Rightarrow> (b, s1)
           | Some localGen \<Rightarrow>
               (case rd_get R (BotGenPrefix @ token) s1 of
                  (Inl _, s2) \<Rightarrow> (b, s2)
                | (Inr raw, s2) \<Rightarrow>
                    (case parse_int raw of
                       (_, Some _) \<Rightarrow> (b, s2)
                     | (remoteGen, None) \<Rightarrow>
                         if remoteGen > localGen then (evictLocal token b, s2) else (b, s2)))))"

fun reconcile_tokens :: "'s redis \<Rightarrow> string list \<Rightarrow> bridge \<Rightarrow> 's \<Rightarrow> bridge \<times> 's" where
  "reconcile_tokens R [] b s = (b, s)"
| "reconcile_tokens R (t # ts) b s =
     (case reconcile_token R t b s of (b1, s1) \<Rightarrow> reconcile_tokens R ts b1 s1)"

definition doReconcile :: "'s redis \<Rightarrow> bridge \<Rightarrow> 's \<Rightarrow> bridge \<times> 's" where
  "doReconcile R b s =
     (case nextReconcileBatch (b_batch b) (b_ring b) of (tokens, ring) \<Rightarrow>
        reconcile_tokens R tokens (b\<lparr>b_ring := ring\<rparr>) s)"

text \<open>One tick of the three tickers: \<open>None\<close> when the goroutine returns.\<close>

definition runHeartbeat :: "'s redis \<Rightarrow> int \<Rightarrow> bridge \<Rightarrow> 's \<Rightarrow> (bridge \<times> 's) option" where
  "runHeartbeat R now b s =
     (if b_cancelled b then None else if b_down b then None else Some (b, doHeartbeat R now b s))"

definition runCleanup :: "'s redis \<Rightarrow> int \<Rightarrow> nat \<Rightarrow> bridge \<Rightarrow> 's \<Rightarrow> (bridge \<times> 's) option" where
  "runCleanup R now renewals b s =
     (if b_cancelled b then None else if b_down b then None else Some (doCleanup R now renewals b s))"

definition runReconcile :: "'s redis \<Rightarrow> bridge \<Rightarrow> 's \<Rightarrow> (bridge \<times> 's) option" where
  "runReconcile R b s =
     (if b_cancelled b then None else if b_down b then None else Some (doReconcile R b s))"

definition localBotCount :: "bridge \<Rightarrow> nat" where
  "localBotCount b = length (b_bots b)"

section \<open>Staleness\<close>

definition stale :: "bridge \<Rightarrow> shared \<Rightarrow> string \<Rightarrow> bool" where
  "stale b sh t \<longleftrightarrow>
     (\<exists>w. sh_owner sh t = Some w \<and> w \<noteq> '''' \<and> w \<noteq> b_worker b) \<or>
     (\<exists>g. map_of (b_gens b) t = Some g \<and> newer_gen t g sh)"

definition stale_local :: "bridge \<Rightarrow> shared \<Rightarrow> string set" where
  "stale_local b sh = {t \<in> fst ` set (b_bots b). stale b sh t}"

lemma stale_evict [simp]: "u \<noteq> t \<Longrightarrow> stale (evictLocal t b) sh u = stale b sh u"
  by (simp add: stale_def bridge_simps)

lemma stale_ring [simp]: "stale (b\<lparr>b_ring := r\<rparr>) sh = stale b sh"
  by (simp add: stale_def fun_eq_iff)

context redis_up begin

lemma reconcile_token_step:
  assumes "bots_ok (view s)"
  shows "fst (reconcile_token R t b s) = (if stale b (shared_of (view s)) t then evictLocal t b else b)"
    and "view (snd (reconcile_token R t b s)) = view s"
proof -
  let ?s1 = "snd (GetBotOwner R t s)"
  note O = GetBotOwner_reply [OF assms, of t]
  have ok: "bots_ok (view ?s1)" using O(2) assms by simp
  have G: "fst (rd_get R (BotGenPrefix @ t) ?s1) = fst (sem_get (BotGenPrefix @ t) (view s))"
    "view (snd (rd_get R (BotGenPrefix @ t) ?s1)) = view s" using O(2) by simp_all
  let ?foreign = "\<exists>w. sh_owner (shared_of (view s)) t = Some w \<and> w \<noteq> '''' \<and> w \<noteq> b_worker b"
  have f: "(case fst (GetBotOwner R t s) of Inr owner \<Rightarrow> owner \<noteq> '''' \<and> owner \<noteq> b_worker b | Inl _ \<Rightarrow> False) \<longleftrightarrow> ?foreign"
    using O(1) by (auto split: option.splits)
  have "fst (reconcile_token R t b s) = (if stale b (shared_of (view s)) t then evictLocal t b else b) \<and>
      view (snd (reconcile_token R t b s)) = view s"
  proof (cases ?foreign)
    case True
    then have "reconcile_token R t b s = (evictLocal t b, ?s1)"
      using f by (simp add: reconcile_token_def case_prod_beta Let_def)
    with True O(2) show ?thesis by (simp add: stale_def)
  next
    case False
    then have e: "reconcile_token R t b s = (case map_of (b_gens b) t of
             None \<Rightarrow> (b, ?s1)
           | Some localGen \<Rightarrow>
               (case rd_get R (BotGenPrefix @ t) ?s1 of
                  (Inl _, s2) \<Rightarrow> (b, s2)
                | (Inr raw, s2) \<Rightarrow>
                    (case parse_int raw of
                       (_, Some _) \<Rightarrow> (b, s2)
                     | (remoteGen, None) \<Rightarrow>
                         if remoteGen > localGen then (evictLocal t b, s2) else (b, s2))))"
      using f by (simp only: reconcile_token_def case_prod_beta Let_def if_False)
    from get_gen [OF assms, of t] show ?thesis
      unfolding e using False G O(2)
      by (auto simp: stale_def newer_gen_def case_prod_beta parse_int_itoa split: option.splits)
  qed
  then show "fst (reconcile_token R t b s) = (if stale b (shared_of (view s)) t then evictLocal t b else b)"
    and "view (snd (reconcile_token R t b s)) = view s" by blast+
qed

lemma reconcile_tokens_step:
  "bots_ok (view s) \<Longrightarrow> distinct ts \<Longrightarrow>
   fst (reconcile_tokens R ts b s) = fold evictLocal (filter (stale b (shared_of (view s))) ts) b \<and>
   view (snd (reconcile_tokens R ts b s)) = view s"
proof (induction ts arbitrary: b s)
  case (Cons t ts)
  let ?s1 = "snd (reconcile_token R t b s)" and ?b1 = "fst (reconcile_token R t b s)"
  note T = reconcile_token_step [OF Cons.prems(1), of t b]
  have ok: "bots_ok (view ?s1)" using T(2) Cons.prems(1) by simp
  have "filter (stale ?b1 (shared_of (view s))) ts = filter (stale b (shared_of (view s))) ts"
  proof (rule filter_cong [OF refl])
    fix x assume "x \<in> set ts"
    then have "x \<noteq> t" using Cons.prems(2) by auto
    then show "stale ?b1 (shared_of (view s)) x = stale b (shared_of (view s)) x" by (simp add: T(1))
  qed
  with Cons.IH [OF ok, of ?b1] Cons.prems(2) T show ?case
    by (auto simp: case_prod_beta)
qed simp

end

lemma fold_evict_fields:
  "map_of (b_bots (fold evictLocal ts b)) = map_of (b_bots b) |` (- set ts)"
  "map_of (b_gens (fold evictLocal ts b)) = map_of (b_gens b) |` (- set ts)"
  "b_worker (fold evictLocal ts b) = b_worker b" "b_batch (fold evictLocal ts b) = b_batch b"
  by (induction ts arbitrary: b)
    (auto simp: bridge_simps AList.delete_conv' restrict_map_def fun_eq_iff)

lemma fold_evict_inv: "bridge_inv b \<Longrightarrow> bridge_inv (fold evictLocal ts b)"
  by (induction ts arbitrary: b) (simp_all add: evictLocal_inv)

section \<open>Convergence\<close>

lemma map_of_dom: "t \<in> fst ` set al \<longleftrightarrow> map_of al t \<noteq> None"
  by (auto simp: map_of_eq_None_iff)

text \<open>A round keeps the invariant and the keyspace, and evicts stale connections only: all those
  of its batch.\<close>

definition round_batch :: "bridge \<Rightarrow> string list" where
  "round_batch b = fst (nextReconcileBatch (b_batch b) (b_ring b))"

context redis_up begin

lemma doReconcile_step:
  assumes ok: "bots_ok (view s)" and inv: "bridge_inv b" and e: "doReconcile R b s = (b', s')"
  defines "T \<equiv> {t \<in> set (round_batch b). stale b (shared_of (view s)) t}"
  shows "view s' = view s" and "bridge_inv b'"
    and "map_of (b_bots b') = map_of (b_bots b) |` (- T)"
    and "map_of (b_gens b') = map_of (b_gens b) |` (- T)"
    and "b_worker b' = b_worker b" and "b_batch b' = b_batch b"
    and "T = {} \<Longrightarrow> b' = b\<lparr>b_ring := snd (nextReconcileBatch (b_batch b) (b_ring b))\<rparr>"
proof -
  have r: "ring_inv (b_ring b)" using inv by (simp add: bridge_inv_def)
  obtain ts ring where nb: "nextReconcileBatch (b_batch b) (b_ring b) = (ts, ring)"
    by (cases "nextReconcileBatch (b_batch b) (b_ring b)")
  note B = rq.batch [OF r nb]
  let ?b = "b\<lparr>b_ring := ring\<rparr>"
  have inv1: "bridge_inv ?b" using inv B by (simp add: bridge_inv_def)
  have e': "reconcile_tokens R ts ?b s = (b', s')" using e nb by (simp add: doReconcile_def)
  note S = reconcile_tokens_step [OF ok B [THEN conjunct2, THEN conjunct2, THEN conjunct2], of ?b, unfolded e' fst_conv snd_conv stale_ring]
  let ?st = "filter (stale b (shared_of (view s))) ts"
  have T: "set ?st = T" using nb by (auto simp: T_def round_batch_def)
  show "view s' = view s" using S by simp
  show "bridge_inv b'" using S fold_evict_inv [OF inv1] by simp
  show "map_of (b_bots b') = map_of (b_bots b) |` (- T)" "map_of (b_gens b') = map_of (b_gens b) |` (- T)"
    "b_worker b' = b_worker b" "b_batch b' = b_batch b"
    using S T by (simp_all add: fold_evict_fields)
  show "b' = b\<lparr>b_ring := snd (nextReconcileBatch (b_batch b) (b_ring b))\<rparr>" if "T = {}"
  proof -
    have "?st = []" using T that by (simp only: set_empty)
    with S nb show ?thesis by simp
  qed
qed

end

fun reconcile_rounds :: "'s redis \<Rightarrow> nat \<Rightarrow> bridge \<Rightarrow> 's \<Rightarrow> bridge \<times> 's" where
  "reconcile_rounds R 0 b s = (b, s)"
| "reconcile_rounds R (Suc n) b s = (case doReconcile R b s of (b1, s1) \<Rightarrow> reconcile_rounds R n b1 s1)"

lemma reconcile_rounds_add:
  "reconcile_rounds R (m + n) b s = (case reconcile_rounds R m b s of (b1, s1) \<Rightarrow> reconcile_rounds R n b1 s1)"
  by (induction m arbitrary: b s) (auto split: prod.splits)

text \<open>A token's staleness depends on the worker's name and its own generation only.\<close>

lemma stale_restrict:
  assumes "map_of (b_gens b') = map_of (b_gens b) |` A" "b_worker b' = b_worker b" "t \<in> A"
  shows "stale b' sh t = stale b sh t"
  using assms by (simp add: stale_def)

definition survivors :: "bridge \<Rightarrow> shared \<Rightarrow> string set" where
  "survivors b sh = {t. \<not> stale b sh t}"

context redis_up begin

text \<open>What any number of rounds keeps.\<close>

lemma rounds_keep:
  assumes "bots_ok (view s)" "bridge_inv b" "reconcile_rounds R n b s = (b', s')"
  shows "view s' = view s \<and> bridge_inv b' \<and> b_worker b' = b_worker b \<and> b_batch b' = b_batch b \<and>
    (\<exists>A. survivors b (shared_of (view s)) \<subseteq> A \<and> map_of (b_bots b') = map_of (b_bots b) |` A \<and>
         map_of (b_gens b') = map_of (b_gens b) |` A)"
  using assms
proof (induction n arbitrary: b s)
  case 0
  then show ?case by (auto simp: restrict_map_def intro!: exI [of _ UNIV])
next
  case (Suc n)
  obtain b1 s1 where d: "doReconcile R b s = (b1, s1)" by (cases "doReconcile R b s")
  note D = doReconcile_step [OF Suc.prems(1,2) d]
  let ?sh = "shared_of (view s)"
  let ?B = "- {t \<in> set (round_batch b). stale b ?sh t}"
  have ok1: "bots_ok (view s1)" using D(1) Suc.prems(1) by simp
  have e1: "reconcile_rounds R n b1 s1 = (b', s')" using Suc.prems(3) d by simp
  from Suc.IH [OF ok1 D(2) e1] obtain A where A: "view s' = view s1" "bridge_inv b'" "b_worker b' = b_worker b1"
      "b_batch b' = b_batch b1" "survivors b1 ?sh \<subseteq> A" "map_of (b_bots b') = map_of (b_bots b1) |` A"
      "map_of (b_gens b') = map_of (b_gens b1) |` A" unfolding D(1) by blast
  have "stale b1 ?sh t = stale b ?sh t" if "t \<in> ?B" for t
    by (rule stale_restrict [OF D(4) D(5) that])
  then have "survivors b ?sh \<subseteq> ?B \<inter> A" using A(5) by (auto simp: survivors_def)
  with A D show ?case by (auto simp: Int_commute intro!: exI [of _ "?B \<inter> A"])
qed

text \<open>Rounds that meet no stale token only turn the ring.\<close>

lemma quiet_rounds:
  assumes "bots_ok (view s)" "bridge_inv b"
    "\<forall>t\<in>set (batches (b_batch b) n (b_ring b)). \<not> stale b (shared_of (view s)) t"
  shows "\<exists>ring. reconcile_rounds R n b s = (b\<lparr>b_ring := ring\<rparr>, snd (reconcile_rounds R n b s))"
  using assms
proof (induction n arbitrary: b s)
  case 0
  then show ?case by (intro exI [of _ "b_ring b"]) simp
next
  case (Suc n)
  obtain b1 s1 where d: "doReconcile R b s = (b1, s1)" by (cases "doReconcile R b s")
  obtain ts ring where nb: "nextReconcileBatch (b_batch b) (b_ring b) = (ts, ring)"
    by (cases "nextReconcileBatch (b_batch b) (b_ring b)")
  note D = doReconcile_step [OF Suc.prems(1,2) d]
  have quiet: "{t \<in> set (round_batch b). stale b (shared_of (view s)) t} = {}"
    using Suc.prems(3) nb by (auto simp: round_batch_def)
  then have b1: "b1 = b\<lparr>b_ring := ring\<rparr>" using D(7) nb by simp
  have ok1: "bots_ok (view s1)" using D(1) Suc.prems(1) by simp
  have "\<forall>t\<in>set (batches (b_batch b1) n (b_ring b1)). \<not> stale b1 (shared_of (view s1)) t"
    using Suc.prems(3) nb b1 D(1) by simp
  from Suc.IH [OF ok1 D(2) this] show ?case using d b1 by auto
qed

end

lemma stale_local_finite: "finite (stale_local b sh)"
  by (simp add: stale_local_def)

lemma stale_local_restrict:
  assumes "map_of (b_bots b') = map_of (b_bots b) |` A" "map_of (b_gens b') = map_of (b_gens b) |` A"
    "b_worker b' = b_worker b"
  shows "stale_local b' sh = stale_local b sh \<inter> A"
proof -
  have "t \<in> fst ` set (b_bots b') \<longleftrightarrow> t \<in> fst ` set (b_bots b) \<and> t \<in> A" for t
    unfolding map_of_dom assms(1) by (simp add: restrict_map_def)
  with stale_restrict [OF assms(2,3)] show ?thesis by (auto simp: stale_local_def)
qed

context redis_up begin

lemma noisy_rounds:
  assumes "bots_ok (view s)" "bridge_inv b" "reconcile_rounds R n b s = (b', s')"
    "t \<in> set (batches (b_batch b) n (b_ring b))" "stale b (shared_of (view s)) t"
  shows "stale_local b' (shared_of (view s)) \<subset> stale_local b (shared_of (view s))"
  using assms
proof (induction n arbitrary: b s)
  case (Suc n)
  let ?sh = "shared_of (view s)"
  obtain b1 s1 where d: "doReconcile R b s = (b1, s1)" by (cases "doReconcile R b s")
  obtain ts ring where nb: "nextReconcileBatch (b_batch b) (b_ring b) = (ts, ring)"
    by (cases "nextReconcileBatch (b_batch b) (b_ring b)")
  note D = doReconcile_step [OF Suc.prems(1,2) d]
  let ?T = "{t \<in> set (round_batch b). stale b ?sh t}"
  have ok1: "bots_ok (view s1)" using D(1) Suc.prems(1) by simp
  have e1: "reconcile_rounds R n b1 s1 = (b', s')" using Suc.prems(3) d by simp
  show ?case
  proof (cases "?T = {}")
    case True
    then have b1: "b1 = b\<lparr>b_ring := ring\<rparr>" using D(7) nb by simp
    have "t \<notin> set ts" using True Suc.prems(5) nb by (auto simp: round_batch_def)
    then have "t \<in> set (batches (b_batch b1) n (b_ring b1))" using Suc.prems(4) nb b1 by simp
    moreover have "stale b1 (shared_of (view s1)) t" using Suc.prems(5) b1 D(1) by simp
    ultimately have "stale_local b' ?sh \<subset> stale_local b1 ?sh"
      using Suc.IH [OF ok1 D(2) e1] D(1) by simp
    then show ?thesis using b1 by (simp add: stale_local_def)
  next
    case False
    obtain A where A: "map_of (b_bots b') = map_of (b_bots b1) |` A" "map_of (b_gens b') = map_of (b_gens b1) |` A"
        "b_worker b' = b_worker b1"
      using rounds_keep [OF ok1 D(2) e1] by blast
    have "stale_local b' ?sh = stale_local b1 ?sh \<inter> A" by (rule stale_local_restrict [OF A])
    moreover have "stale_local b1 ?sh = stale_local b ?sh \<inter> - ?T"
      by (rule stale_local_restrict [OF D(3,4,5)])
    moreover have "?T \<subseteq> stale_local b ?sh"
    proof -
      have "ring_inv (b_ring b)" using Suc.prems(2) by (simp add: bridge_inv_def)
      from rq.batch [OF this nb] have "set ts \<subseteq> fst ` set (b_bots b)"
        using Suc.prems(2) by (auto simp: bridge_inv_def)
      then show ?thesis using nb by (auto simp: stale_local_def round_batch_def)
    qed
    ultimately show ?thesis using False by blast
  qed
qed simp

lemma rounds_progress:
  assumes "bots_ok (view s)" "bridge_inv b" "1 \<le> b_batch b" "length (b_bots b) \<le> n"
    "reconcile_rounds R n b s = (b', s')" "stale_local b (shared_of (view s)) \<noteq> {}"
  shows "stale_local b' (shared_of (view s)) \<subset> stale_local b (shared_of (view s))"
proof -
  obtain t where t: "t \<in> fst ` set (b_bots b)" "stale b (shared_of (view s)) t"
    using assms(6) by (auto simp: stale_local_def)
  have inv: "ring_inv (b_ring b)" "set (r_toks (b_ring b)) = fst ` set (b_bots b)" "distinct (map fst (b_bots b))"
    using assms(2) by (simp_all add: bridge_inv_def)
  then have "length (r_toks (b_ring b)) = length (b_bots b)"
    using ring_inv_distinct [OF inv(1)] by (metis distinct_card length_map set_map)
  then have "length (r_toks (b_ring b)) \<le> n * nat (b_batch b)"
    using assms(3,4) by (metis le_trans mult.commute mult_le_mono1 nat_int nat_le_eq_zle nat_mult_1 of_nat_1 order_trans zero_le_one)
  then have "t \<in> set (batches (b_batch b) n (b_ring b))"
    using batches_cover [OF inv(1)] inv(2) t(1) by simp
  from noisy_rounds [OF assms(1,2,5) this t(2)] show ?thesis .
qed

lemma reconcile_converges:
  assumes ok: "bots_ok (view s)" and inv: "bridge_inv b" and b1: "1 \<le> b_batch b"
    and n: "length (b_bots b) \<le> n"
  shows "reconcile_rounds R (card (stale_local b (shared_of (view s))) * n) b s = (b', s') \<Longrightarrow>
    stale_local b' (shared_of (view s)) = {}"
  using assms
proof (induction "card (stale_local b (shared_of (view s)))" arbitrary: b s b' s' rule: less_induct)
  case less
  let ?sh = "shared_of (view s)"
  let ?c = "card (stale_local b ?sh)"
  show ?case
  proof (cases "stale_local b ?sh = {}")
    case True
    then show ?thesis using less.prems(1) by simp
  next
    case False
    obtain bm sm where m: "reconcile_rounds R n b s = (bm, sm)" by (cases "reconcile_rounds R n b s")
    note K = rounds_keep [OF less.prems(2,3) m]
    have lt: "card (stale_local bm ?sh) < ?c"
      by (rule psubset_card_mono [OF stale_local_finite rounds_progress [OF less.prems(2,3,4,5) m False]])
    let ?d = "card (stale_local bm ?sh)"
    have "?c * n = n + ?d * n + (?c - Suc ?d) * n"
      using lt by (metis Suc_leI add_mult_distrib le_add_diff_inverse mult_Suc)
    then obtain bk sk where k: "reconcile_rounds R (?d * n) bm sm = (bk, sk)"
        and f: "reconcile_rounds R ((?c - Suc ?d) * n) bk sk = (b', s')"
      using less.prems(1) m by (auto simp: reconcile_rounds_add split: prod.splits)
    have lenm: "length (b_bots bm) \<le> n"
    proof -
      have "fst ` set (b_bots bm) \<subseteq> fst ` set (b_bots b)"
      proof
        fix t assume "t \<in> fst ` set (b_bots bm)"
        then have "map_of (b_bots bm) t \<noteq> None" by (rule map_of_dom [THEN iffD1])
        with K have "map_of (b_bots b) t \<noteq> None" by (auto simp: restrict_map_def split: if_splits)
        then show "t \<in> fst ` set (b_bots b)" by (rule map_of_dom [THEN iffD2])
      qed
      then have "card (fst ` set (b_bots bm)) \<le> card (fst ` set (b_bots b))" by (simp add: card_mono)
      moreover have "distinct (map fst (b_bots b))" "distinct (map fst (b_bots bm))"
        using less.prems(3) K by (simp_all add: bridge_inv_def)
      ultimately have "length (b_bots bm) \<le> length (b_bots b)"
        by (metis distinct_card length_map set_map)
      with less.prems(5) show ?thesis by simp
    qed
    have okm: "bots_ok (view sm)" using K less.prems(2) by simp
    have "stale_local bk ?sh = {}"
      using less.hyps [of bm sm] lt k okm K less.prems(4) lenm by simp
    moreover have "stale_local b' ?sh \<subseteq> stale_local bk ?sh"
    proof -
      note Kk = rounds_keep [OF okm _ k]
      have "bots_ok (view sk)" "bridge_inv bk" using Kk K okm by simp_all
      from rounds_keep [OF this f] obtain A where "map_of (b_bots b') = map_of (b_bots bk) |` A"
          "map_of (b_gens b') = map_of (b_gens bk) |` A" "b_worker b' = b_worker bk" by blast
      from stale_local_restrict [OF this] show ?thesis by auto
    qed
    ultimately show ?thesis by blast
  qed
qed

text \<open>The registry standing still, enough rounds leave exactly the connections that are not stale.\<close>

lemma reconcile_exact:
  assumes ok: "bots_ok (view s)" and inv: "bridge_inv b" and b1: "1 \<le> b_batch b"
    and n: "length (b_bots b) * length (b_bots b) \<le> n"
    and e: "reconcile_rounds R n b s = (b', s')"
  shows "map_of (b_bots b') = map_of (b_bots b) |` survivors b (shared_of (view s))"
    and "bridge_inv b'" and "view s' = view s"
proof -
  let ?sh = "shared_of (view s)" and ?m = "length (b_bots b)"
  let ?k = "card (stale_local b ?sh) * ?m"
  have "card (stale_local b ?sh) \<le> ?m"
  proof -
    have "card (stale_local b ?sh) \<le> card (fst ` set (b_bots b))"
      by (rule card_mono) (auto simp: stale_local_def)
    also have "\<dots> \<le> ?m" by (metis card_length length_map set_map)
    finally show ?thesis .
  qed
  then have "?k \<le> n" using n by (meson le_trans mult_le_mono1)
  then have nn: "n = ?k + (n - ?k)" by simp
  obtain bk sk where k: "reconcile_rounds R ?k b s = (bk, sk)" by (cases "reconcile_rounds R ?k b s")
  then have f: "reconcile_rounds R (n - ?k) bk sk = (b', s')"
    using e nn reconcile_rounds_add [of R ?k "n - ?k" b s] by simp
  note K = rounds_keep [OF ok inv k]
  have "stale_local bk ?sh = {}" by (rule reconcile_converges [OF ok inv b1 order_refl k])
  moreover have "bots_ok (view sk)" "bridge_inv bk" using K ok by simp_all
  from rounds_keep [OF this f] obtain A where "map_of (b_bots b') = map_of (b_bots bk) |` A"
      "map_of (b_gens b') = map_of (b_gens bk) |` A" "b_worker b' = b_worker bk" by blast
  from stale_local_restrict [OF this] have "stale_local b' ?sh = stale_local bk ?sh \<inter> A" .
  ultimately have none: "stale_local b' ?sh = {}" by simp
  note KK = rounds_keep [OF ok inv e]
  then obtain A where A: "survivors b ?sh \<subseteq> A" "map_of (b_bots b') = map_of (b_bots b) |` A"
      "map_of (b_gens b') = map_of (b_gens b) |` A" "b_worker b' = b_worker b" by blast
  have "stale_local b ?sh \<inter> A = {}" using stale_local_restrict [OF A(2,3,4)] none by simp
  then have "map_of (b_bots b) t = None" if "t \<in> A" "t \<notin> survivors b ?sh" for t
    using that by (auto simp: stale_local_def survivors_def map_of_dom)
  with A(1,2) show "map_of (b_bots b') = map_of (b_bots b) |` survivors b ?sh"
    by (auto simp: fun_eq_iff restrict_map_def)
  show "bridge_inv b'" "view s' = view s" using KK by simp_all
qed

end

end
