(* ===== verification/Sha256.thy ===== *)
theory Sha256
  imports Json "HOL-Library.Word"
begin

text \<open>
  \<open>crypto/sha256\<close> and \<open>encoding/hex\<close>, which the legacy admin password check uses: SHA-256 of a byte
  string as 64 hexadecimal digits (FIPS 180-4).
\<close>

unbundle bit_operations_syntax

type_synonym w32 = "32 word"

text \<open>The constants: the first 32 bits of the fractional parts of the cube roots of the first 64
  primes, and of the square roots of the first 8, as integer roots of \<open>p * 2^96\<close> and \<open>p * 2^64\<close>.\<close>

fun primes_from :: "nat \<Rightarrow> nat \<Rightarrow> nat list \<Rightarrow> nat list" where
  "primes_from 0 n ps = rev ps"
| "primes_from (Suc fuel) n ps =
     primes_from fuel (n + 1) (if list_all (\<lambda>p. n mod p \<noteq> 0) ps then n # ps else ps)"

text \<open>The largest \<open>r\<close> below \<open>2^bits\<close> with \<open>r^e \<le> n\<close>, bit by bit.\<close>

fun int_root :: "nat \<Rightarrow> nat \<Rightarrow> nat \<Rightarrow> nat \<Rightarrow> nat" where
  "int_root e n 0 r = r"
| "int_root e n (Suc k) r = int_root e n k (if (r + 2 ^ k) ^ e \<le> n then r + 2 ^ k else r)"

definition sha_k :: "w32 list" where
  "sha_k = map (\<lambda>p. of_nat (int_root 3 (p * 2 ^ 96) 36 0)) (take 64 (primes_from 310 2 []))"

definition sha_init :: "w32 list" where
  "sha_init = map (\<lambda>p. of_nat (int_root 2 (p * 2 ^ 64) 37 0)) (take 8 (primes_from 310 2 []))"

definition rotr :: "nat \<Rightarrow> w32 \<Rightarrow> w32" where
  "rotr n x = drop_bit n x OR push_bit (32 - n) x"

definition sha_pad :: "nat list \<Rightarrow> nat list" where
  "sha_pad bs =
     (let n = length bs; z = (119 - n mod 64) mod 64; bits = 8 * n
      in bs @ 128 # replicate z 0 @ map (\<lambda>i. bits div 256 ^ (7 - i) mod 256) [0..<8])"

fun words_of :: "nat list \<Rightarrow> w32 list" where
  "words_of (a # b # c # d # rest) = of_nat (((a * 256 + b) * 256 + c) * 256 + d) # words_of rest"
| "words_of _ = []"

text \<open>The message schedule, newest word first.\<close>

definition sha_sched_step :: "w32 list \<Rightarrow> w32 list" where
  "sha_sched_step ws =
     (let x = ws ! 14; y = ws ! 1;
          s0 = rotr 7 x XOR rotr 18 x XOR drop_bit 3 x;
          s1 = rotr 17 y XOR rotr 19 y XOR drop_bit 10 y
      in (ws ! 15 + s0 + ws ! 6 + s1) # ws)"

definition sha_round :: "w32 list \<Rightarrow> w32 \<times> w32 \<Rightarrow> w32 list" where
  "sha_round st kw =
     (case st of [a, b, c, d, e, f, g, h] \<Rightarrow>
        (let s1 = rotr 6 e XOR rotr 11 e XOR rotr 25 e;
             ch = (e AND f) XOR (NOT e AND g);
             t1 = h + s1 + ch + fst kw + snd kw;
             s0 = rotr 2 a XOR rotr 13 a XOR rotr 22 a;
             maj = (a AND b) XOR (a AND c) XOR (b AND c)
         in [t1 + (s0 + maj), a, b, c, d + t1, e, f, g])
      | _ \<Rightarrow> st)"

definition sha_block :: "w32 list \<Rightarrow> nat list \<Rightarrow> w32 list" where
  "sha_block st block =
     (let ws = rev ((sha_sched_step ^^ 48) (rev (words_of block)))
      in map2 (+) st (foldl sha_round st (zip sha_k ws)))"

fun sha_blocks :: "nat \<Rightarrow> w32 list \<Rightarrow> nat list \<Rightarrow> w32 list" where
  "sha_blocks 0 st bs = st"
| "sha_blocks (Suc n) st bs = sha_blocks n (sha_block st (take 64 bs)) (drop 64 bs)"

fun hex_word :: "nat \<Rightarrow> nat \<Rightarrow> string" where
  "hex_word 0 n = []"
| "hex_word (Suc k) n = hex_word k (n div 16) @ [hex_digit (n mod 16)]"

definition sha256_hex :: "string \<Rightarrow> string" where
  "sha256_hex s =
     (let bs = sha_pad (map of_char s)
      in concat (map (\<lambda>w. hex_word 8 (unat w)) (sha_blocks (length bs div 64) sha_init bs)))"

end
