(* ===== verification/AdminAuth.thy ===== *)
theory AdminAuth
  imports Db Redis Sha256 Tokens
begin

text \<open>
  The admin account of \<open>internal/service/admin_auth.go\<close>: the password, two rows of a configuration
  table written in one transaction, and the admin sessions, Redis keys with an index set.

  bcrypt and the random source are parameters. The lemmas state that a password that was set is
  accepted, that setting it ends every session, that every live session is in the index (which is why
  ending them by the index is enough), and what the legacy scheme accepts and upgrades.
\<close>

record admin_config =
  ac_key :: string
  ac_value :: string

datatype bcrypt_reply = BcMatch | BcMismatch | BcFail string

text \<open>\<open>hash\<close> is \<open>GenerateFromPassword\<close> with the salt of this call, \<open>cmp\<close> is
  \<open>CompareHashAndPassword\<close>.\<close>

record bcrypt =
  bc_hash :: "string \<Rightarrow> string + string"
  bc_cmp :: "string \<Rightarrow> string \<Rightarrow> bcrypt_reply"

definition adminSessionTTL :: int where "adminSessionTTL = 86400"
definition adminSessionPrefix :: string where "adminSessionPrefix = ''admin:session:''"
definition adminSessionIdx :: string where "adminSessionIdx = ''admin:session_idx''"

definition has_name :: "string \<Rightarrow> admin_config \<Rightarrow> bool" where
  "has_name k r = (ac_key r = k)"

section \<open>The password\<close>

definition IsPasswordSet :: "(admin_config, 'd) dbtable \<Rightarrow> 'd \<Rightarrow> (string + bool) \<times> 'd" where
  "IsPasswordSet T d =
     (case tb_count T (has_name ''password_hash'') d of
        (Inl (DbFail e), d1) \<Rightarrow> (Inl e, d1)
      | (Inl RecordNotFound, d1) \<Rightarrow> (Inl ''record not found'', d1)
      | (Inr n, d1) \<Rightarrow> (Inr (n > 0), d1))"

text \<open>\<open>Save\<close> writes the row back by its primary key, the row read before.\<close>

definition upsertConfig :: "(admin_config, 'd) dbtable \<Rightarrow> string \<Rightarrow> string \<Rightarrow> ('d, unit) dbcall" where
  "upsertConfig T k v d =
     (case tb_first T (has_name k) d of
        (Inl RecordNotFound, d1) \<Rightarrow> tb_create T \<lparr>ac_key = k, ac_value = v\<rparr> d1
      | (Inl e, d1) \<Rightarrow> (Inl e, d1)
      | (Inr existing, d1) \<Rightarrow> tb_update T (has_name (ac_key existing)) (\<lambda>r. r\<lparr>ac_value := v\<rparr>) d1)"

text \<open>gorm's \<open>Transaction\<close>: the body's changes are kept when it returns no error and the commit
  succeeds, and undone otherwise.\<close>

definition transaction :: "('d, unit) dbcall \<Rightarrow> ('d, 'a) dbcall \<Rightarrow> ('d, 'a) dbcall" where
  "transaction commit body d =
     (case body d of
        (Inl e, _) \<Rightarrow> (Inl e, d)
      | (Inr x, d1) \<Rightarrow> (case commit d1 of (Inl e, _) \<Rightarrow> (Inl e, d) | (Inr _, d2) \<Rightarrow> (Inr x, d2)))"

definition set_password_rows :: "(admin_config, 'd) dbtable \<Rightarrow> string \<Rightarrow> ('d, unit) dbcall" where
  "set_password_rows T hash d =
     (case upsertConfig T ''password_salt'' ''bcrypt'' d of
        (Inl e, d1) \<Rightarrow> (Inl e, d1)
      | (Inr _, d1) \<Rightarrow> upsertConfig T ''password_hash'' hash d1)"

fun del_sessions :: "'s redis \<Rightarrow> string list \<Rightarrow> 's \<Rightarrow> 's" where
  "del_sessions R [] s = s"
| "del_sessions R (t # ts) s = del_sessions R ts (snd (rd_del R [adminSessionPrefix @ t] s))"

definition invalidateAllSessions :: "'s redis \<Rightarrow> 's \<Rightarrow> 's" where
  "invalidateAllSessions R s =
     (case rd_smembers R adminSessionIdx s of
        (Inl _, s1) \<Rightarrow> s1
      | (Inr tokens, s1) \<Rightarrow>
          if tokens \<noteq> [] then snd (rd_del R [adminSessionIdx] (del_sessions R tokens s1))
          else snd (rd_del R [adminSessionIdx] s1))"

definition SetPassword ::
    "bcrypt \<Rightarrow> (admin_config, 'd) dbtable \<Rightarrow> ('d, unit) dbcall \<Rightarrow> 's redis \<Rightarrow> string \<Rightarrow> 'd \<Rightarrow> 's \<Rightarrow>
     (string + unit) \<times> 'd \<times> 's" where
  "SetPassword B T commit R password d s =
     (if length password > 72 then (Inl ''password must not exceed 72 bytes'', d, s)
      else case bc_hash B password of
        Inl e \<Rightarrow> (Inl (''bcrypt hash: '' @ e), d, s)
      | Inr hash \<Rightarrow>
          (case transaction commit (set_password_rows T hash) d of
             (Inl (DbFail e), d1) \<Rightarrow> (Inl e, d1, s)
           | (Inl RecordNotFound, d1) \<Rightarrow> (Inl ''record not found'', d1, s)
           | (Inr _, d1) \<Rightarrow> (Inr (), d1, invalidateAllSessions R s)))"

definition VerifyPassword ::
    "bcrypt \<Rightarrow> (admin_config, 'd) dbtable \<Rightarrow> ('d, unit) dbcall \<Rightarrow> 's redis \<Rightarrow> string \<Rightarrow> 'd \<Rightarrow> 's \<Rightarrow>
     (string + bool) \<times> 'd \<times> 's" where
  "VerifyPassword B T commit R password d s =
     (case tb_first T (has_name ''password_salt'') d of
        (Inl RecordNotFound, d1) \<Rightarrow> (Inr False, d1, s)
      | (Inl (DbFail e), d1) \<Rightarrow> (Inl e, d1, s)
      | (Inr saltConfig, d1) \<Rightarrow>
          (case tb_first T (has_name ''password_hash'') d1 of
             (Inl RecordNotFound, d2) \<Rightarrow> (Inl ''record not found'', d2, s)
           | (Inl (DbFail e), d2) \<Rightarrow> (Inl e, d2, s)
           | (Inr hashConfig, d2) \<Rightarrow>
               if ac_value saltConfig = ''bcrypt'' then
                 (case bc_cmp B (ac_value hashConfig) password of
                    BcMismatch \<Rightarrow> (Inr False, d2, s)
                  | BcFail e \<Rightarrow> (Inl (''bcrypt compare: '' @ e), d2, s)
                  | BcMatch \<Rightarrow> (Inr True, d2, s))
               else if sha256_hex (ac_value saltConfig @ password) \<noteq> ac_value hashConfig
               then (Inr False, d2, s)
               else (case SetPassword B T commit R password d2 s of (_, d3, s3) \<Rightarrow> (Inr True, d3, s3))))"

section \<open>Sessions\<close>

text \<open>\<open>bytes\<close> are the 32 random bytes, \<open>None\<close> when the source fails.\<close>

definition CreateAdminSession :: "'s redis \<Rightarrow> nat list option \<Rightarrow> 's \<Rightarrow> (string + string) \<times> 's" where
  "CreateAdminSession R bytes s =
     (case bytes of
        None \<Rightarrow> (Inl ''generate session token'', s)
      | Some b \<Rightarrow>
          (let token = hex_encode b in
           case rd_set R (adminSessionPrefix @ token) ''1'' adminSessionTTL s of
             (Inl e, s1) \<Rightarrow> (Inl (''store session: '' @ err_text e), s1)
           | (Inr _, s1) \<Rightarrow> (Inr token, snd (rd_sadd R adminSessionIdx token s1))))"

definition ValidateSession :: "'s redis \<Rightarrow> string \<Rightarrow> 's \<Rightarrow> bool \<times> 's" where
  "ValidateSession R sessionToken s =
     (if sessionToken = '''' then (False, s)
      else (case rd_exists R (adminSessionPrefix @ sessionToken) s of
              (Inl _, s1) \<Rightarrow> (False, s1)
            | (Inr n, s1) \<Rightarrow> (n \<noteq> 0, s1)))"

definition RemoveSession :: "'s redis \<Rightarrow> string \<Rightarrow> 's \<Rightarrow> 's" where
  "RemoveSession R sessionToken s =
     (if sessionToken \<noteq> '''' then
        snd (rd_srem R adminSessionIdx sessionToken (snd (rd_del R [adminSessionPrefix @ sessionToken] s)))
      else s)"

section \<open>Laws\<close>

definition config_value :: "admin_config list \<Rightarrow> string \<Rightarrow> string option" where
  "config_value rs k = map_option ac_value (find (has_name k) rs)"

definition session_live :: "store \<Rightarrow> string \<Rightarrow> bool" where
  "session_live st t \<longleftrightarrow> t \<noteq> '''' \<and> kv st (adminSessionPrefix @ t) \<noteq> None"

text \<open>Every session key is in the index.\<close>

definition sessions_indexed :: "store \<Rightarrow> bool" where
  "sessions_indexed st \<longleftrightarrow> set_key st adminSessionIdx \<and>
     (\<forall>t. kv st (adminSessionPrefix @ t) \<noteq> None \<longrightarrow> t \<in> set_at st adminSessionIdx)"

lemma admin_keys [simp]: "adminSessionIdx \<noteq> adminSessionPrefix @ t" "adminSessionPrefix @ t \<noteq> adminSessionIdx"
  by (simp_all add: adminSessionIdx_def adminSessionPrefix_def)

lemma find_map_key:
  "(\<And>r. ac_key (f r) = ac_key r) \<Longrightarrow>
   find (has_name k) (map f rs) = map_option f (find (has_name k) rs)"
  by (induction rs) (auto simp: has_name_def)

lemma find_append: "find P (xs @ ys) = (case find P xs of Some x \<Rightarrow> Some x | None \<Rightarrow> find P ys)"
  by (induction xs) auto

lemma find_has_name: "find (has_name k) rs = Some r \<Longrightarrow> ac_key r = k"
  by (induction rs) (auto simp: has_name_def split: if_splits)

lemma find_None_key: "find (has_name k) rs = None \<longleftrightarrow> k \<notin> ac_key ` set rs"
  by (induction rs) (auto simp: has_name_def)

locale admin_backend = redis_up R view + table_up T rows ac_key cast
  for R :: "'s redis" and view :: "'s \<Rightarrow> store"
    and T :: "(admin_config, 'd) dbtable" and rows :: "'d \<Rightarrow> admin_config list"
    and cast :: "admin_config \<Rightarrow> admin_config" +
  fixes commit :: "('d, unit) dbcall"
    and B :: bcrypt
  assumes cast_value: "ac_value (cast r) = ac_value r"
    and commit_ok: "fst (commit d) = Inr ()"
    and commit_rows: "rows (snd (commit d)) = rows d"
    and hash_short: "length p \<le> 72 \<Longrightarrow> \<exists>h. bc_hash B p = Inr h"
    and hash_accepts: "bc_hash B p = Inr h \<Longrightarrow> bc_cmp B h p = BcMatch"
begin

lemma upsert_effect:
  "fst (upsertConfig T k v d) = Inr ()"
  "config_value (rows (snd (upsertConfig T k v d))) k = Some v"
  "k' \<noteq> k \<Longrightarrow> config_value (rows (snd (upsertConfig T k v d))) k' = config_value (rows d) k'"
proof -
  let ?d = "snd (tb_first T (has_name k) d)"
  have "fst (upsertConfig T k v d) = Inr () \<and>
    config_value (rows (snd (upsertConfig T k v d))) k = Some v \<and>
    (k' \<noteq> k \<longrightarrow> config_value (rows (snd (upsertConfig T k v d))) k' = config_value (rows d) k')"
  proof (cases "find (has_name k) (rows d)")
    case None
    then have "k \<notin> ac_key ` set (rows ?d)" by (simp add: find_None_key)
    then have "fst (tb_create T \<lparr>ac_key = k, ac_value = v\<rparr> ?d) = Inr ()"
      "rows (snd (tb_create T \<lparr>ac_key = k, ac_value = v\<rparr> ?d)) = rows d @ [cast \<lparr>ac_key = k, ac_value = v\<rparr>]"
      using create_new [of "\<lparr>ac_key = k, ac_value = v\<rparr>" ?d] by simp_all
    with None show ?thesis
      by (simp add: upsertConfig_def case_prod_beta config_value_def find_append has_name_def
          cast_key cast_value split: option.splits)
  next
    case (Some r)
    have upd: "fst (tb_update T P (\<lambda>r. r\<lparr>ac_value := v\<rparr>) e) = Inr ()"
      "rows (snd (tb_update T P (\<lambda>r. r\<lparr>ac_value := v\<rparr>) e)) =
         map (\<lambda>r. if P r then cast (r\<lparr>ac_value := v\<rparr>) else r) (rows e)" for P e
      by (auto intro!: update simp: update_rows)
    have k: "ac_key r = k" using Some by (rule find_has_name)
    show ?thesis using Some k
      by (auto simp: upsertConfig_def case_prod_beta config_value_def upd cast_key cast_value
          find_map_key has_name_def option.map_comp comp_def dest: find_has_name
          intro!: option.map_cong)
  qed
  then show "fst (upsertConfig T k v d) = Inr ()"
    "config_value (rows (snd (upsertConfig T k v d))) k = Some v"
    "k' \<noteq> k \<Longrightarrow> config_value (rows (snd (upsertConfig T k v d))) k' = config_value (rows d) k'"
    by blast+
qed

lemma set_password_rows_effect:
  "fst (set_password_rows T h d) = Inr ()"
  "config_value (rows (snd (set_password_rows T h d))) ''password_hash'' = Some h"
  "config_value (rows (snd (set_password_rows T h d))) ''password_salt'' = Some ''bcrypt''"
  by (simp_all add: set_password_rows_def case_prod_beta upsert_effect split: sum.splits)

lemma transaction_effect:
  "fst (body d) = Inr x \<Longrightarrow> fst (transaction commit body d) = Inr x"
  "fst (body d) = Inr x \<Longrightarrow> rows (snd (transaction commit body d)) = rows (snd (body d))"
  by (auto simp: transaction_def case_prod_beta commit_ok commit_rows)

end

section \<open>Sessions and their index\<close>

context redis_up begin

lemma del_sessions_kv:
  "kv (snd (sem_del [adminSessionIdx] (view (del_sessions R ts s)))) (adminSessionPrefix @ t) =
     (if t \<in> set ts then None else kv (view s) (adminSessionPrefix @ t))"
  "kv (snd (sem_del [adminSessionIdx] (view (del_sessions R ts s)))) adminSessionIdx = None"
  by (induction ts arbitrary: s) (simp_all add: sem_del_def)

lemma invalidate_all:
  assumes "sessions_indexed (view s)"
  shows "\<not> session_live (view (invalidateAllSessions R s)) t"
    and "sessions_indexed (view (invalidateAllSessions R s))"
proof -
  let ?s = "snd (rd_smembers R adminSessionIdx s)"
  have "set_key (view s) adminSessionIdx" using assms by (simp add: sessions_indexed_def)
  then obtain xs where xs: "fst (rd_smembers R adminSessionIdx s) = Inr xs" "set xs = set_at (view s) adminSessionIdx"
    by (rule smembers_spec)
  have eq: "invalidateAllSessions R s = snd (rd_del R [adminSessionIdx] (del_sessions R xs ?s))"
    using xs(1) by (cases xs) (simp_all add: invalidateAllSessions_def case_prod_beta)
  have kv: "kv (view (invalidateAllSessions R s)) (adminSessionPrefix @ t) = None" for t
    using assms xs(2) by (auto simp: eq del_sessions_kv sessions_indexed_def)
  then show "\<not> session_live (view (invalidateAllSessions R s)) t" by (simp add: session_live_def)
  show "sessions_indexed (view (invalidateAllSessions R s))"
    using kv by (simp add: sessions_indexed_def set_key_def eq del_sessions_kv(2))
qed

lemma CreateAdminSession_ok:
  assumes "sessions_indexed (view s)"
  shows "fst (CreateAdminSession R (Some b) s) = Inr (hex_encode b)"
    and "session_live (view (snd (CreateAdminSession R (Some b) s))) t \<longleftrightarrow>
      t \<noteq> '''' \<and> t = hex_encode b \<or> session_live (view s) t"
    and "sessions_indexed (view (snd (CreateAdminSession R (Some b) s)))"
proof -
  let ?t = "hex_encode b"
  let ?s1 = "snd (rd_set R (adminSessionPrefix @ ?t) ''1'' adminSessionTTL s)"
  have r: "fst (CreateAdminSession R (Some b) s) = Inr ?t \<and>
      snd (CreateAdminSession R (Some b) s) = snd (rd_sadd R adminSessionIdx ?t ?s1)"
    by (simp add: CreateAdminSession_def case_prod_beta sem_set_def Let_def)
  then show "fst (CreateAdminSession R (Some b) s) = Inr ?t" by simp
  have i: "set_key (view s) adminSessionIdx" using assms by (simp add: sessions_indexed_def)
  then have "set_key (view ?s1) adminSessionIdx \<and> set_at (view ?s1) adminSessionIdx = set_at (view s) adminSessionIdx"
    by (simp add: sem_set_def set_ttl_def put_key_def set_key_def set_at_def)
  then have st: "kv (view (snd (CreateAdminSession R (Some b) s))) =
      (kv (view s))(adminSessionPrefix @ ?t \<mapsto> VStr ''1'',
        adminSessionIdx \<mapsto> VSet (insert ?t (set_at (view s) adminSessionIdx)))"
    using r by (simp add: sem_sadd_def put_key_def) (simp add: sem_set_def set_ttl_def put_key_def)
  show "session_live (view (snd (CreateAdminSession R (Some b) s))) t \<longleftrightarrow>
      t \<noteq> '''' \<and> t = ?t \<or> session_live (view s) t"
    by (auto simp: session_live_def st)
  have "finite (set_at (view s) adminSessionIdx)"
    using i by (auto simp: set_key_def set_at_def split: option.splits rval.splits)
  then show "sessions_indexed (view (snd (CreateAdminSession R (Some b) s)))"
    using assms by (auto simp: sessions_indexed_def st set_key_def set_at_def)
qed

lemma ValidateSession_reply:
  "fst (ValidateSession R t s) = session_live (view s) t" "view (snd (ValidateSession R t s)) = view s"
  by (auto simp: ValidateSession_def session_live_def case_prod_beta sem_exists_def)

lemma RemoveSession_ok:
  assumes "sessions_indexed (view s)"
  shows "session_live (view (RemoveSession R x s)) t \<longleftrightarrow> t \<noteq> x \<and> session_live (view s) t"
    and "sessions_indexed (view (RemoveSession R x s))"
proof -
  let ?s1 = "snd (rd_del R [adminSessionPrefix @ x] s)"
  have i: "set_key (view s) adminSessionIdx" using assms by (simp add: sessions_indexed_def)
  have d: "kv (view ?s1) = (kv (view s))(adminSessionPrefix @ x := None)"
    by (simp add: sem_del_def drop_key_def)
  then have k: "set_key (view ?s1) adminSessionIdx"
    "set_at (view ?s1) adminSessionIdx = set_at (view s) adminSessionIdx"
    using i by (simp_all add: set_key_def set_at_def)
  let ?A = "set_at (view s) adminSessionIdx - {x}"
  have st: "kv (view (RemoveSession R x s)) = (if x = '''' then kv (view s) else
      (kv (view s))(adminSessionPrefix @ x := None, adminSessionIdx := (if ?A = {} then None else Some (VSet ?A))))"
    using k by (simp add: RemoveSession_def sem_srem_def put_key_def drop_key_def fun_upd_twist d del: next_view(5))
  show "session_live (view (RemoveSession R x s)) t \<longleftrightarrow> t \<noteq> x \<and> session_live (view s) t"
    by (auto simp: session_live_def st)
  have "finite (set_at (view s) adminSessionIdx)"
    using i by (auto simp: set_key_def set_at_def split: option.splits rval.splits)
  then show "sessions_indexed (view (RemoveSession R x s))"
    using assms by (auto simp: sessions_indexed_def st set_key_def set_at_def split: option.splits)
qed

end

section \<open>Setting and verifying the password\<close>

context admin_backend begin

lemma SetPassword_ok:
  assumes "length p \<le> 72" and "bc_hash B p = Inr h"
  shows "fst (SetPassword B T commit R p d s) = Inr ()"
    and "config_value (rows (fst (snd (SetPassword B T commit R p d s)))) ''password_hash'' = Some h"
    and "config_value (rows (fst (snd (SetPassword B T commit R p d s)))) ''password_salt'' = Some ''bcrypt''"
    and "snd (snd (SetPassword B T commit R p d s)) = invalidateAllSessions R s"
proof -
  let ?t = "transaction commit (set_password_rows T h) d"
  have "fst ?t = Inr ()" by (rule transaction_effect(1)) (rule set_password_rows_effect(1))
  then have *: "SetPassword B T commit R p d s = (Inr (), snd ?t, invalidateAllSessions R s)"
    using assms by (simp add: SetPassword_def case_prod_beta)
  have r: "rows (snd ?t) = rows (snd (set_password_rows T h d))"
    by (rule transaction_effect(2)) (rule set_password_rows_effect(1))
  show "fst (SetPassword B T commit R p d s) = Inr ()"
    "snd (snd (SetPassword B T commit R p d s)) = invalidateAllSessions R s"
    "config_value (rows (fst (snd (SetPassword B T commit R p d s)))) ''password_hash'' = Some h"
    "config_value (rows (fst (snd (SetPassword B T commit R p d s)))) ''password_salt'' = Some ''bcrypt''"
    by (simp_all add: * r set_password_rows_effect)
qed

lemma SetPassword_too_long:
  "length p > 72 \<Longrightarrow> SetPassword B T commit R p d s = (Inl ''password must not exceed 72 bytes'', d, s)"
  by (simp add: SetPassword_def)

lemma VerifyPassword_bcrypt:
  assumes "config_value (rows d) ''password_salt'' = Some ''bcrypt''"
    and "config_value (rows d) ''password_hash'' = Some h"
  shows "fst (VerifyPassword B T commit R q d s) =
      (case bc_cmp B h q of BcMatch \<Rightarrow> Inr True | BcMismatch \<Rightarrow> Inr False
       | BcFail e \<Rightarrow> Inl (''bcrypt compare: '' @ e))"
    and "snd (snd (VerifyPassword B T commit R q d s)) = s"
    and "rows (fst (snd (VerifyPassword B T commit R q d s))) = rows d"
  using assms by (auto simp: VerifyPassword_def config_value_def case_prod_beta split: bcrypt_reply.splits)

lemma VerifyPassword_unset:
  assumes "config_value (rows d) ''password_salt'' = None"
  shows "fst (VerifyPassword B T commit R q d s) = Inr False"
  using assms by (simp add: VerifyPassword_def config_value_def case_prod_beta)

text \<open>The legacy scheme accepts exactly the stored digest of salt and password, and a match replaces
  it by a bcrypt hash of the same password and ends every session.\<close>

lemma VerifyPassword_legacy:
  assumes "config_value (rows d) ''password_salt'' = Some salt" "salt \<noteq> ''bcrypt''"
    and "config_value (rows d) ''password_hash'' = Some stored"
  shows "fst (VerifyPassword B T commit R q d s) = Inr (sha256_hex (salt @ q) = stored)"
  using assms by (auto simp: VerifyPassword_def config_value_def case_prod_beta)

lemma legacy_upgrade:
  assumes "config_value (rows d) ''password_salt'' = Some salt" "salt \<noteq> ''bcrypt''"
    and "config_value (rows d) ''password_hash'' = Some (sha256_hex (salt @ q))"
    and "length q \<le> 72" "bc_hash B q = Inr h"
  shows "config_value (rows (fst (snd (VerifyPassword B T commit R q d s)))) ''password_hash'' = Some h"
    and "config_value (rows (fst (snd (VerifyPassword B T commit R q d s)))) ''password_salt'' = Some ''bcrypt''"
    and "snd (snd (VerifyPassword B T commit R q d s)) = invalidateAllSessions R s"
  using assms by (auto simp: VerifyPassword_def config_value_def [of "rows d"] case_prod_beta
      SetPassword_ok [OF assms(4,5)])

lemma set_then_verify:
  assumes "length p \<le> 72"
  shows "fst (SetPassword B T commit R p d s) = Inr ()"
    and "fst (VerifyPassword B T commit R p (fst (snd (SetPassword B T commit R p d s))) s') = Inr True"
proof -
  obtain h where h: "bc_hash B p = Inr h" using hash_short assms by blast
  note set = SetPassword_ok [OF assms h]
  show "fst (SetPassword B T commit R p d s) = Inr ()" by (rule set(1))
  show "fst (VerifyPassword B T commit R p (fst (snd (SetPassword B T commit R p d s))) s') = Inr True"
    using VerifyPassword_bcrypt(1) [OF set(3) set(2)] hash_accepts [OF h] by simp
qed

lemma SetPassword_ends_sessions:
  assumes "length p \<le> 72" "sessions_indexed (view s)"
  shows "\<not> session_live (view (snd (snd (SetPassword B T commit R p d s)))) t"
    and "sessions_indexed (view (snd (snd (SetPassword B T commit R p d s))))"
proof -
  obtain h where h: "bc_hash B p = Inr h" using hash_short assms(1) by blast
  show "\<not> session_live (view (snd (snd (SetPassword B T commit R p d s)))) t"
    "sessions_indexed (view (snd (snd (SetPassword B T commit R p d s))))"
    using invalidate_all [OF assms(2)] by (simp_all add: SetPassword_ok(4) [OF assms(1) h])
qed

end

text \<open>An instance: a toy hash that stores the password itself.\<close>

definition plain_bcrypt :: bcrypt where
  "plain_bcrypt = \<lparr>bc_hash = (\<lambda>p. if length p \<le> 72 then Inr p else Inl ''too long''),
     bc_cmp = (\<lambda>h p. if h = p then BcMatch else BcMismatch)\<rparr>"

interpretation mem_admin: admin_backend mem_redis "\<lambda>s. s" "mem_table ac_key (\<lambda>r. r)" "\<lambda>d. d" "\<lambda>r. r"
    "\<lambda>d. (Inr (), d)" plain_bcrypt
proof -
  have "table_up (mem_table ac_key (\<lambda>r. r)) (\<lambda>d. d) ac_key (\<lambda>r. r)" by (rule mem_table_up) simp
  then show "admin_backend mem_redis (\<lambda>s. s) (mem_table ac_key (\<lambda>r. r)) (\<lambda>d. d) (\<lambda>r. r) (\<lambda>d. (Inr (), d)) plain_bcrypt"
    by (intro admin_backend.intro mem.redis_up_axioms admin_backend_axioms.intro)
      (simp_all add: plain_bcrypt_def split: if_splits)
qed

end
