(* ===== verification/Scenario.thy ===== *)
theory Scenario
  imports ChatFlow Reconcile AdminAuth
begin

text \<open>
  A small deployment on the in-memory server, at which the properties are evaluated: worker \<open>w1\<close>
  holds a connection of bot \<open>t\<close>, whose registration, worker inbox and one chat inbox are in Redis.
\<close>

definition demo_bridge :: bridge where
  "demo_bridge = (NewConnectionBridge ''w1'')\<lparr>b_bots := [(''t'', 7)], b_gens := [(''t'', 1)],
     b_ring := trackReconcileToken ''t'' empty_ring\<rparr>"

definition demo_kv :: "string \<rightharpoonup> rval" where
  "demo_kv = [BotAliveKey \<mapsto> VZSet [(''t'', 100)], BotOwnerPrefix @ ''t'' \<mapsto> VStr ''w1'',
     BotGenPrefix @ ''t'' \<mapsto> VStr (itoa 1),
     WorkerInboxPrefix @ ''w1'' \<mapsto> VStream (Stream 0 [] [WorkerInboxGroup \<mapsto> (0, [])]),
     ChatInboxPrefix @ ''t:s1'' \<mapsto> VStream (Stream 0 [] [''sse'' \<mapsto> (0, [])])]"

definition demo_store :: store where
  "demo_store = \<lparr>kv = demo_kv, ttls = Map.empty\<rparr>"

lemma demo_ok: "bots_ok demo_store"
  by (auto simp: bots_ok_def demo_store_def demo_kv_def zset_key_def str_key_def gen_key_def keys_sorted_def
      key_defs fits64_def min_int64_def max_int64_def)

lemma demo_shared: "shared_of demo_store = \<lparr>sh_alive = [''t'' \<mapsto> 100], sh_owner = [''t'' \<mapsto> ''w1''], sh_gen = [''t'' \<mapsto> 1]\<rparr>"
proof -
  have "parse_int (itoa 1) = (1, None)" by (rule parse_int_itoa) (simp add: fits64_def min_int64_def max_int64_def)
  then show ?thesis
    by (auto simp: shared_of_def gen_of_def str_at_def zset_at_def demo_store_def demo_kv_def fun_eq_iff key_defs)
qed

lemma demo_queues:
  "queue_good demo_store (workerInboxName ''w1'')"
  "queue_chan demo_store (workerInboxName ''w1'') WorkerInboxGroup = Some []"
  "queue_good demo_store (chat_inbox ''t'' ''s1'')"
  "queue_chan demo_store (chat_inbox ''t'' ''s1'') ''sse'' = Some []"
  by (auto simp: queue_good_def queue_chan_def stream_at_def demo_store_def demo_kv_def workerInboxName_def
      chat_inbox_def key_defs undelivered_def split: if_splits)

lemma demo_bridge_fields [simp]:
  "b_worker demo_bridge = ''w1''" "b_bots demo_bridge = [(''t'', 7)]" "b_gens demo_bridge = [(''t'', 1)]"
  "\<not> b_down demo_bridge" "\<not> b_cancelled demo_bridge" "b_batch demo_bridge = 128" "b_wire demo_bridge = []"
  by (simp_all add: demo_bridge_def NewConnectionBridge_def DefaultReconcileBatchSize_def)

lemma demo_bridge_inv: "bridge_inv demo_bridge"
  using track_inv [OF empty_ring_inv, of "''t''"] track_set [OF empty_ring_inv, of "''t''"]
  by (simp add: bridge_inv_def demo_bridge_def empty_ring_def)

text \<open>A notification of the bot, and what it decodes to.\<close>

definition demo_update :: gomap where
  "demo_update = [(''content'', JObj [(''text'', JStr ''hello'')]), (''sessionUpdate'', JStr ''agent_message_chunk'')]"

definition demo_msg :: gomap where
  "demo_msg = [(''method'', JStr ''session/update''),
     (''params'', JObj [(''sessionId'', JStr ''s1''), (''update'', JObj demo_update)])]"

definition demo_chunk :: json where
  "demo_chunk = JObj demo_msg"

lemma demo_chunk_parsed: "json_unmarshal (json_marshal demo_chunk) = Some (JObj demo_msg)"
proof -
  have "canonical demo_chunk"
    by (simp add: demo_chunk_def demo_msg_def demo_update_def keys_sorted_def)
  moreover have "wf_json demo_chunk" by (simp add: demo_chunk_def demo_msg_def demo_update_def)
  ultimately have "json_unmarshal (json_marshal demo_chunk) = Some demo_chunk"
    by (simp add: json_roundtrip canon_canonical)
  then show ?thesis by (simp only: demo_chunk_def)
qed

lemma demo_chunk_facts:
  "jfield_str demo_msg ''type'' = None" "jfield_str demo_msg ''method'' = Some ''session/update''"
  "\<not> has_key demo_msg ''id''" "getNestedString (jfield_obj demo_msg ''params'') ''sessionId'' = Some ''s1''"
  "TranslateBotEvent ''session/update'' (jfield_obj demo_msg ''params'') =
     Some (gomap_of [(''type'', JStr ''chunk''), (''content'', JStr ''hello'')])"
  by (simp_all add: demo_msg_def demo_update_def jfield_str_def jfield_obj_def has_key_def getNestedString_def
      TranslateBotEvent_def Let_def)

text \<open>A chat request of the client, the session it names, and the state its stream starts in.\<close>

definition demo_body :: string where
  "demo_body = ''{'' @ jquote ''content'' @ '':'' @ jquote ''hi'' @ '','' @ jquote ''sessionId'' @ '':'' @ jquote ''s1'' @ ''}''"

definition demo_request :: chat_request where
  "demo_request = \<lparr>cq_content = ''hi'', cq_session = Some ''s1'', cq_media = []\<rparr>"

definition demo_row :: chat_session where
  "demo_row = \<lparr>cs_token = ''t'', cs_id = ''s1'', cs_number = 1, cs_created = 0\<rparr>"

definition demo_turn :: chat_turn where
  "demo_turn = \<lparr>ct_session = ''s1'', ct_number = 1, ct_new = False, ct_req = ''req_0'', ct_inbox = chat_inbox ''t'' ''s1''\<rparr>"

definition demo_stream :: chat_stream where
  "demo_stream = fst (start_stream demo_turn 0 True)"

definition demo_tick :: tick where
  "demo_tick = \<lparr>ev_gone1 = False, ev_bot1 = False, ev_pick1 = False, ev_now1 = 1, ev_gone2 = False,
     ev_bot2 = False, ev_pick2 = False, ev_now2 = 2\<rparr>"

lemma demo_request_checked: "check_request demo_body = Inr (demo_request, [])"
  by code_simp

lemma demo_stream_fields [simp]:
  "ss_out demo_stream = [session_frame demo_turn]" "ss_deadline demo_stream = sseTimeout" "\<not> ss_chunks demo_stream"
  by (simp_all add: demo_stream_def start_stream_def Let_def write_frame_def)

end
