(* ===== verification/Worker.thy ===== *)
theory Worker
  imports BotMessage Reconcile
begin

text \<open>
  A worker as a transition system: every operation of \<open>internal/service\<close> that changes the worker's
  memory, in any order, with Redis changing arbitrarily in between (the other workers, expiry, a
  failing connection). The invariants proved here hold in every reachable state, and assume nothing
  about Redis or the queue.
\<close>

inductive worker_step :: "'s redis \<Rightarrow> 's mq \<Rightarrow> bridge \<times> 's \<Rightarrow> bridge \<times> 's \<Rightarrow> bool"
  for R :: "'s redis" and Q :: "'s mq" where
  w_register: "RegisterBot R now t c b s = (r, b', s') \<Longrightarrow> worker_step R Q (b, s) (b', s')"
| w_unregister: "UnregisterBot R t c b s = (b', s') \<Longrightarrow> worker_step R Q (b, s) (b', s')"
| w_heartbeat: "runHeartbeat R now b s = Some (b', s') \<Longrightarrow> worker_step R Q (b, s) (b', s')"
| w_cleanup: "runCleanup R now n b s = Some (b', s') \<Longrightarrow> worker_step R Q (b, s) (b', s')"
| w_reconcile: "runReconcile R b s = Some (b', s') \<Longrightarrow> worker_step R Q (b, s) (b', s')"
| w_consume: "runWorkerInboxConsumer Q b s = Some (b', s') \<Longrightarrow> worker_step R Q (b, s) (b', s')"
| w_artifact: "runArtifactCleanupWorker R Q b s = (b', s') \<Longrightarrow> worker_step R Q (b, s) (b', s')"
| w_spawned: "run_spawned R Q b s = (b', s') \<Longrightarrow> worker_step R Q (b, s) (b', s')"
| w_message: "HandleBotMessage R Q t raw b s = (b', s') \<Longrightarrow> worker_step R Q (b, s) (b', s')"
| w_shutdown: "Shutdown R b s = (b', s') \<Longrightarrow> worker_step R Q (b, s) (b', s')"
| w_consumers: "worker_step R Q (b, s) (SetWorkerInboxConsumers n b, s)"
| w_environment: "worker_step R Q (b, s) (b, s')"

inductive_cases worker_stepE: "worker_step R Q (b, s) (b', s')"

section \<open>What each operation keeps\<close>

lemma reconcile_tokens_local:
  "\<exists>A. fst (reconcile_tokens R ts b s) = fold evictLocal A b"
proof (induction ts arbitrary: b s)
  case Nil
  then show ?case by (auto intro: exI [of _ "[]"])
next
  case (Cons t ts)
  have "fst (reconcile_token R t b s) = b \<or> fst (reconcile_token R t b s) = evictLocal t b"
    by (auto simp: reconcile_token_def case_prod_beta Let_def split: sum.splits option.splits)
  moreover obtain A where "fst (reconcile_tokens R (t # ts) b s) = fold evictLocal A (fst (reconcile_token R t b s))"
    using Cons [of "fst (reconcile_token R t b s)" "snd (reconcile_token R t b s)"] by (auto simp: case_prod_beta)
  ultimately show ?case by (metis fold_simps(2))
qed

lemma fold_evict_down: "b_down (fold evictLocal A b) = b_down b" "b_cancelled (fold evictLocal A b) = b_cancelled b"
  by (induction A arbitrary: b) (simp_all add: bridge_simps)

lemma doReconcile_local:
  obtains A where "fst (doReconcile R b s) = fold evictLocal A (b\<lparr>b_ring := snd (nextReconcileBatch (b_batch b) (b_ring b))\<rparr>)"
proof -
  have "\<exists>A. fst (doReconcile R b s) = fold evictLocal A (b\<lparr>b_ring := snd (nextReconcileBatch (b_batch b) (b_ring b))\<rparr>)"
    unfolding doReconcile_def case_prod_beta by (rule reconcile_tokens_local)
  then show ?thesis using that by blast
qed

lemma doReconcile_inv:
  assumes "bridge_inv b"
  shows "bridge_inv (fst (doReconcile R b s))"
proof -
  obtain A where A: "fst (doReconcile R b s) = fold evictLocal A (b\<lparr>b_ring := snd (nextReconcileBatch (b_batch b) (b_ring b))\<rparr>)"
    by (rule doReconcile_local)
  have "ring_inv (b_ring b)" using assms by (simp add: bridge_inv_def)
  note N = nextReconcileBatch_spec [OF this, of "b_batch b"]
  show ?thesis unfolding A
    by (rule fold_evict_inv) (use assms N in \<open>simp add: bridge_inv_def\<close>)
qed

lemma write_fields [bridge_simps]:
  "b_bots (WriteJSON c v b) = b_bots b" "b_gens (WriteJSON c v b) = b_gens b" "b_ring (WriteJSON c v b) = b_ring b"
  "b_down (WriteJSON c v b) = b_down b" "b_bots (WriteMessage c m b) = b_bots b"
  "b_gens (WriteMessage c m b) = b_gens b" "b_ring (WriteMessage c m b) = b_ring b"
  "b_down (WriteMessage c m b) = b_down b"
  by (simp_all add: WriteJSON_def WriteMessage_def)

lemma deliver_inv: "bridge_inv b \<Longrightarrow> bridge_inv (deliver_worker_msg m b)"
  by (auto simp: deliver_worker_msg_def evictLocal_inv bridge_simps bridge_inv_cong [of "WriteJSON _ _ b" b]
      split: option.splits)

lemma deliver_down: "b_down (deliver_worker_msg m b) = b_down b"
  by (auto simp: deliver_worker_msg_def bridge_simps split: option.splits)

lemma consumer_local:
  assumes "runWorkerInboxConsumer Q b s = Some (b', s')"
  shows "b' = b \<or> (\<exists>m. b' = deliver_worker_msg m b)"
  using assms by (auto simp: runWorkerInboxConsumer_def Let_def case_prod_beta split: if_splits sum.splits option.splits prod.splits)

lemma artifact_local:
  assumes "runArtifactCleanupWorker R Q b s = (b', s') \<or> run_spawned R Q b s = (b', s')"
  shows "b_bots b' = b_bots b" "b_gens b' = b_gens b" "b_ring b' = b_ring b" "b_down b' = b_down b"
  using assms by (auto simp: runArtifactCleanupWorker_def run_spawned_def split: if_splits list.splits)

lemma cleanup_local:
  assumes "runCleanup R now n b s = Some (b', s')"
  shows "b' = b \<or> (\<exists>s1. b' = fst (cleanupExpiredBots R now b s1))"
  using assms
  by (auto simp: runCleanup_def doCleanup_def case_prod_beta split: if_splits sum.splits bool.splits prod.splits)

lemma message_local:
  assumes "HandleBotMessage R Q t raw b s = (b', s')"
  shows "b' = b \<or> (\<exists>c. b' = WriteMessage c ''pong'' b)"
  using HandleBotMessage_local [of R Q t raw b s] assms by auto

section \<open>Invariants of every reachable state\<close>

lemma worker_step_inv:
  assumes "worker_step R Q x y" "bridge_inv (fst x)"
  shows "bridge_inv (fst y)"
  using assms
proof cases
  case (w_register now t c b s r b' s')
  with assms(2) RegisterBot_inv [of b R now t c s] show ?thesis by simp
next
  case (w_unregister t c b s b' s')
  with assms(2) UnregisterBot_inv [of b R t c s] show ?thesis by simp
next
  case (w_cleanup now n b s b' s')
  with assms(2) cleanup_local show ?thesis by (auto dest!: cleanup_local intro: cleanupExpiredBots_inv)
next
  case (w_reconcile b s b' s')
  with assms(2) doReconcile_inv [of b R s] show ?thesis by (auto simp: runReconcile_def split: if_splits)
next
  case (w_consume b s b' s')
  with assms(2) show ?thesis by (auto dest!: consumer_local intro: deliver_inv)
next
  case (w_artifact b s b' s')
  with assms(2) show ?thesis using artifact_local [of R Q b s b' s'] bridge_inv_cong [of b' b] by simp
next
  case (w_spawned b s b' s')
  with assms(2) show ?thesis using artifact_local [of R Q b s b' s'] bridge_inv_cong [of b' b] by simp
next
  case (w_message t raw b s b' s')
  with assms(2) show ?thesis
    by (auto dest!: message_local simp: bridge_simps bridge_inv_cong [of "WriteMessage _ _ b" b])
next
  case (w_shutdown b s b' s')
  with assms(2) Shutdown_inv [of b R s] show ?thesis by simp
next
  case (w_consumers b s n)
  with assms(2) show ?thesis by (simp add: SetWorkerInboxConsumers_def bridge_inv_def)
qed (auto simp: runHeartbeat_def split: if_splits)

lemma reachable_inv:
  assumes "(worker_step R Q)\<^sup>*\<^sup>* (NewConnectionBridge u, s) (b, s')"
  shows "bridge_inv b"
proof -
  have "bridge_inv (fst y)" if "(worker_step R Q)\<^sup>*\<^sup>* x y" "bridge_inv (fst x)" for x y
    using that by (induction rule: rtranclp_induct) (auto intro: worker_step_inv)
  from this [OF assms] show ?thesis by (simp add: new_bridge_inv)
qed

text \<open>A worker that is shutting down stays so, and takes no connection any more.\<close>

lemma delete_sub: "map_of (AList.delete t xs) \<subseteq>\<^sub>m map_of xs"
  by (auto simp: map_le_def delete_conv split: if_splits)

lemma restrict_sub: "m |` A \<subseteq>\<^sub>m m"
  by (auto simp: map_le_def)

lemma deliver_sub: "map_of (b_bots (deliver_worker_msg m b)) \<subseteq>\<^sub>m map_of (b_bots b)"
  by (auto simp: deliver_worker_msg_def bridge_simps delete_sub split: option.splits)

lemma closing_step:
  assumes "worker_step R Q x y" "b_down (fst x)"
  shows "b_down (fst y) \<and> map_of (b_bots (fst y)) \<subseteq>\<^sub>m map_of (b_bots (fst x))"
  using assms
proof cases
  case (w_register now t c b s r b' s')
  with assms(2) show ?thesis by (simp add: RegisterBot_def)
next
  case (w_unregister t c b s b' s')
  then have "b' = fst (UnregisterBot R t c b s)" by simp
  with w_unregister assms(2) show ?thesis
    by (simp add: UnregisterBot_def Let_def case_prod_beta bridge_simps delete_sub)
next
  case (w_message t raw b s b' s')
  with assms(2) show ?thesis by (auto dest!: message_local simp: bridge_simps)
next
  case (w_artifact b s b' s')
  with assms(2) show ?thesis using artifact_local [of R Q b s b' s'] by simp
next
  case (w_spawned b s b' s')
  with assms(2) show ?thesis using artifact_local [of R Q b s b' s'] by simp
next
  case (w_shutdown b s b' s')
  with assms(2) show ?thesis by (simp add: Shutdown_def case_prod_beta) (auto simp: bridge_simps)
next
  case (w_consumers b s n)
  with assms(2) show ?thesis by (simp add: SetWorkerInboxConsumers_def)
next
  case (w_consume b s b' s')
  with assms(2) show ?thesis by (auto dest!: consumer_local simp: deliver_sub deliver_down)
qed (auto simp: runHeartbeat_def runCleanup_def runReconcile_def split: if_splits)

lemma closing_forever:
  assumes "(worker_step R Q)\<^sup>*\<^sup>* x y" "b_down (fst x)"
  shows "b_down (fst y) \<and> map_of (b_bots (fst y)) \<subseteq>\<^sub>m map_of (b_bots (fst x))"
  using assms
  by (induction rule: rtranclp_induct) (auto dest: closing_step intro: map_le_trans)

end
