(* ===== verification/Cluster.thy ===== *)
theory Cluster
  imports Worker
begin

text \<open>
  The workers together: each has its memory, all share one Redis, and their registry operations, the
  tickers of \<open>bridge.go\<close> and the closing of connections happen in any order, one at a time. Whatever
  else a worker does (chat inboxes, sessions, tokens) is the step \<open>c_other\<close>, which leaves its
  connections and the registry alone; a message that disconnects a bot through the worker inbox and
  a registration that fails half way are not steps of this system.

  The invariant is what routing relies on: the owner that Redis names for a bot holds a connection of
  it, under the generation that Redis names.
\<close>

type_synonym 's cluster = "(string \<Rightarrow> bridge) \<times> 's"

text \<open>What a step of another kind may change.\<close>

definition registry_untouched :: "('s \<Rightarrow> store) \<Rightarrow> bridge \<Rightarrow> 's \<Rightarrow> bridge \<Rightarrow> 's \<Rightarrow> bool" where
  "registry_untouched view b s b' s' \<longleftrightarrow>
     b_bots b' = b_bots b \<and> b_gens b' = b_gens b \<and> b_ring b' = b_ring b \<and> b_worker b' = b_worker b \<and>
     shared_of (view s') = shared_of (view s) \<and> bots_ok (view s') = bots_ok (view s)"

inductive cluster_step :: "'s redis \<Rightarrow> ('s \<Rightarrow> store) \<Rightarrow> 's cluster \<Rightarrow> 's cluster \<Rightarrow> bool"
  for R :: "'s redis" and view :: "'s \<Rightarrow> store" where
  c_register: "RegisterBot R now t c (bs w) s = (Inr (), b', s') \<Longrightarrow> cluster_step R view (bs, s) (bs(w := b'), s')"
| c_unregister: "UnregisterBot R t c (bs w) s = (b', s') \<Longrightarrow> cluster_step R view (bs, s) (bs(w := b'), s')"
| c_heartbeat: "runHeartbeat R now (bs w) s = Some (b', s') \<Longrightarrow> cluster_step R view (bs, s) (bs(w := b'), s')"
| c_cleanup: "runCleanup R now n (bs w) s = Some (b', s') \<Longrightarrow> cluster_step R view (bs, s) (bs(w := b'), s')"
| c_reconcile: "runReconcile R (bs w) s = Some (b', s') \<Longrightarrow> cluster_step R view (bs, s) (bs(w := b'), s')"
| c_shutdown: "Shutdown R (bs w) s = (b', s') \<Longrightarrow> cluster_step R view (bs, s) (bs(w := b'), s')"
| c_other: "registry_untouched view (bs w) s b' s' \<Longrightarrow> cluster_step R view (bs, s) (bs(w := b'), s')"

section \<open>The owner holds the bot\<close>

definition owner_held :: "(string \<Rightarrow> bridge) \<Rightarrow> shared \<Rightarrow> bool" where
  "owner_held bs sh \<longleftrightarrow> (\<forall>t w. sh_owner sh t = Some w \<longrightarrow>
     map_of (b_bots (bs w)) t \<noteq> None \<and> sh_gen sh t \<noteq> None \<and> map_of (b_gens (bs w)) t = sh_gen sh t \<and>
     sh_alive sh t \<noteq> None)"

definition cluster_ok :: "('s \<Rightarrow> store) \<Rightarrow> 's cluster \<Rightarrow> bool" where
  "cluster_ok view x \<longleftrightarrow> (case x of (bs, s) \<Rightarrow>
     bots_ok (view s) \<and> (\<forall>w. bridge_inv (bs w) \<and> b_worker (bs w) = w) \<and> owner_held bs (shared_of (view s)))"

text \<open>Forgetting bots in the registry, and dropping a bot in a worker that does not own it.\<close>

lemma held_forget: "owner_held bs sh \<Longrightarrow> owner_held bs (sh_forget T sh)"
  by (auto simp: owner_held_def restrict_map_def split: if_splits)

lemma held_unregister: "owner_held bs sh \<Longrightarrow> owner_held bs (sh_unregister t g sh)"
  by (simp add: sh_unregister_def held_forget)

lemma held_shutdown: "owner_held bs sh \<Longrightarrow> owner_held bs (sh_shutdown gs sh)"
  by (induction gs sh rule: sh_shutdown.induct) (auto simp: held_unregister)

lemma held_alive:
  "owner_held bs sh \<Longrightarrow> \<forall>t. sh_alive sh t \<noteq> None \<longrightarrow> A t \<noteq> None \<Longrightarrow> owner_held bs (sh\<lparr>sh_alive := A\<rparr>)"
  by (auto simp: owner_held_def)

lemma held_local:
  assumes "owner_held bs sh"
    and "\<And>t. sh_owner sh t = Some w \<Longrightarrow> map_of (b_bots b') t = map_of (b_bots (bs w)) t \<and> map_of (b_gens b') t = map_of (b_gens (bs w)) t"
  shows "owner_held (bs(w := b')) sh"
  using assms by (auto simp: owner_held_def)

lemma held_register:
  assumes "owner_held bs sh" and "map_of (b_bots b') = (map_of (b_bots (bs w)))(t \<mapsto> c)"
    and "map_of (b_gens b') = (map_of (b_gens (bs w)))(t \<mapsto> fst (sh_register w now t sh))"
  shows "owner_held (bs(w := b')) (snd (sh_register w now t sh))"
  using assms by (auto simp: owner_held_def sh_register_def Let_def split: if_splits)

text \<open>The owner's own connection is the newest, so its worker's disconnect does forget the bot.\<close>

lemma owner_not_newer: "owner_held bs sh \<Longrightarrow> sh_owner sh t = Some w \<Longrightarrow> \<not> newer_gen t (local_gen t (bs w)) sh"
  by (auto simp: owner_held_def newer_gen_def local_gen_def)

lemma shutdown_worker: "b_worker (fst (shutdown_bots R xs b s)) = b_worker b"
  by (induction xs arbitrary: b s) (auto simp: Let_def case_prod_beta bridge_simps split: if_splits)

lemma Shutdown_local:
  assumes "Shutdown R b s = (b', s')"
  shows "b_bots b' = b_bots b" "b_gens b' = b_gens b" "b_ring b' = b_ring b" "b_worker b' = b_worker b"
  using arg_cong [OF assms, of fst] by (auto simp: Shutdown_def case_prod_beta bridge_simps shutdown_worker)

lemma reconcile_keeps_owned:
  assumes "owner_held bs sh" "sh_owner sh t = Some w" "b_worker (bs w) = w"
  shows "\<not> stale (bs w) sh t"
  using assms owner_not_newer [OF assms(1,2)] by (auto simp: stale_def local_gen_def split: option.splits)

text \<open>A counter at its maximum cannot be claimed.\<close>

lemma incr_max:
  assumes "bots_ok st" "sh_gen (shared_of st) t = Some max_int64"
  shows "\<exists>e. fst (sem_incr (BotGenPrefix @ t) st) = Inl e"
proof -
  have "gen_key st (BotGenPrefix @ t)" using assms(1) by (simp add: bots_ok_def)
  with assms(2) obtain v where "kv st (BotGenPrefix @ t) = Some (VStr v)" "parse_int v = (max_int64, None)"
    by (auto simp: gen_key_def shared_of_def gen_of_def str_at_def parse_int_itoa split: option.splits rval.splits)
  then show ?thesis by (simp add: sem_incr_def)
qed

context redis_up begin

lemma register_not_max:
  assumes "bots_ok (view s)" "RegisterBot R now t c b s = (Inr (), b', s')"
  shows "\<not> b_down b" "sh_gen (shared_of (view s)) t \<noteq> Some max_int64"
proof -
  show "\<not> b_down b" using assms(2) by (auto simp: RegisterBot_def)
  show "sh_gen (shared_of (view s)) t \<noteq> Some max_int64"
  proof
    assume "sh_gen (shared_of (view s)) t = Some max_int64"
    from incr_max [OF assms(1) this] obtain e where "fst (rd_incr R (BotGenPrefix @ t) s) = Inl e" by auto
    then have "fst (RegisterBot R now t c b s) \<noteq> Inr ()"
      by (simp add: RegisterBot_def Let_def case_prod_beta)
    with assms(2) show False by simp
  qed
qed

lemma step_register:
  assumes "cluster_ok view (bs, s)" "RegisterBot R now t c (bs w) s = (Inr (), b', s')"
  shows "cluster_ok view (bs(w := b'), s')"
proof -
  have inv: "bots_ok (view s)" "\<And>w. bridge_inv (bs w)" "\<And>w. b_worker (bs w) = w" "owner_held bs (shared_of (view s))"
    using assms(1) by (auto simp: cluster_ok_def)
  note E = RegisterBot_refines [OF inv(1) register_not_max [OF inv(1) assms(2)] assms(2), unfolded inv(3)]
  have "owner_held (bs(w := b')) (shared_of (view s'))"
    unfolding E(2) by (rule held_register [OF inv(4) E(4,5)])
  moreover have "bridge_inv b'" using RegisterBot_inv [OF inv(2) [of w], of R now t c s] assms(2) by simp
  ultimately show ?thesis using E(3,7) inv by (simp add: cluster_ok_def)
qed

lemma step_unregister:
  assumes "cluster_ok view (bs, s)" "UnregisterBot R t c (bs w) s = (b', s')"
  shows "cluster_ok view (bs(w := b'), s')"
proof (cases "c = None \<or> map_of (b_bots (bs w)) t = None \<or> map_of (b_bots (bs w)) t = c")
  case False
  with assms(2) have "b' = bs w" "s' = s" by (auto simp: UnregisterBot_def)
  with assms(1) show ?thesis by simp
next
  case True
  have inv: "bots_ok (view s)" "\<And>w. bridge_inv (bs w)" "\<And>w. b_worker (bs w) = w" "owner_held bs (shared_of (view s))"
    using assms(1) by (auto simp: cluster_ok_def)
  note E = UnregisterBot_refines [OF inv(1) assms(2) True]
  let ?sh = "shared_of (view s)" and ?g = "local_gen t (bs w)"
  have "sh_owner (sh_unregister t ?g ?sh) t \<noteq> Some w"
    using owner_not_newer [OF inv(4)] by (auto simp: sh_unregister_def)
  then have "owner_held (bs(w := b')) (sh_unregister t ?g ?sh)"
    by (intro held_local held_unregister inv(4)) (auto simp: E(3,4))
  moreover have "bridge_inv b'" using UnregisterBot_inv [OF inv(2) [of w], of R t c s] assms(2) by simp
  moreover have "b_worker b' = w"
    using inv(3) [of w] arg_cong [OF assms(2), of fst]
    by (auto simp: UnregisterBot_def Let_def case_prod_beta bridge_simps split: if_splits)
  ultimately show ?thesis using E(1,2) inv by (simp add: cluster_ok_def)
qed

lemma step_reconcile:
  assumes "cluster_ok view (bs, s)" "doReconcile R (bs w) s = (b', s')"
  shows "cluster_ok view (bs(w := b'), s')"
proof -
  have inv: "bots_ok (view s)" "\<And>w. bridge_inv (bs w)" "\<And>w. b_worker (bs w) = w" "owner_held bs (shared_of (view s))"
    using assms(1) by (auto simp: cluster_ok_def)
  note E = doReconcile_step [OF inv(1) inv(2) assms(2)]
  have "owner_held (bs(w := b')) (shared_of (view s))"
    by (rule held_local [OF inv(4)])
      (use reconcile_keeps_owned [OF inv(4) _ inv(3)] in \<open>simp add: E(3,4) restrict_map_def\<close>)
  then show ?thesis using E(1,2,5) inv by (simp add: cluster_ok_def)
qed

lemma step_cleanup:
  assumes "cluster_ok view (bs, s)" "doCleanup R now n (bs w) s = (b', s')"
  shows "cluster_ok view (bs(w := b'), s')"
proof -
  have inv: "bots_ok (view s)" "\<And>w. bridge_inv (bs w)" "\<And>w. b_worker (bs w) = w" "owner_held bs (shared_of (view s))"
    using assms(1) by (auto simp: cluster_ok_def)
  have loc: "b_bots b' = b_bots (bs w)" "b_gens b' = b_gens (bs w)" "b_ring b' = b_ring (bs w)" "b_worker b' = b_worker (bs w)"
    using arg_cong [OF assms(2), of fst]
    by (auto simp: doCleanup_def cleanupExpiredBots_def Let_def case_prod_beta bridge_simps
        split: sum.splits bool.splits if_splits)
  have "bots_ok (view s') \<and> owner_held bs (shared_of (view s'))"
  proof (cases "kv (view s) CleanupLockKey = None")
    case True
    from doCleanup_refines [OF inv(1) True, of now n "bs w"] show ?thesis
      using inv(4) assms(2) by (simp add: held_forget)
  next
    case False
    from doCleanup_locked(2) [OF False, of now n "bs w"] show ?thesis using inv assms(2) by simp
  qed
  moreover have "bridge_inv b'" using inv(2) [of w] bridge_inv_cong [OF loc(1-3)] by simp
  ultimately show ?thesis using inv loc by (auto simp: cluster_ok_def intro: held_local)
qed

lemma step_shutdown:
  assumes "cluster_ok view (bs, s)" "Shutdown R (bs w) s = (b', s')"
  shows "cluster_ok view (bs(w := b'), s')"
proof -
  have inv: "bots_ok (view s)" "\<And>w. bridge_inv (bs w)" "\<And>w. b_worker (bs w) = w" "owner_held bs (shared_of (view s))"
    using assms(1) by (auto simp: cluster_ok_def)
  note L = Shutdown_local [OF assms(2)]
  note E = Shutdown_refines [OF inv(1) assms(2)]
  have "owner_held (bs(w := b')) (shared_of (view s'))"
    unfolding E(1) by (intro held_local held_shutdown inv(4)) (simp add: L)
  then show ?thesis using E(2) inv L bridge_inv_cong [OF L(1-3)] by (simp add: cluster_ok_def)
qed

lemma step_heartbeat:
  assumes "cluster_ok view (bs, s)"
  shows "cluster_ok view (bs, doHeartbeat R now (bs w) s)"
  using assms doHeartbeat_refines [of s now "bs w"]
  by (auto simp: cluster_ok_def sh_heartbeat_def intro!: held_alive)

lemma cluster_step_ok: "cluster_step R view x y \<Longrightarrow> cluster_ok view x \<Longrightarrow> cluster_ok view y"
proof (induction rule: cluster_step.induct)
  case (c_register now t c bs w s b' s')
  then show ?case by (rule step_register [rotated])
next
  case (c_unregister t c bs w s b' s')
  then show ?case by (rule step_unregister [rotated])
next
  case (c_heartbeat now bs w s b' s')
  then show ?case using step_heartbeat [of bs s now w] by (auto simp: runHeartbeat_def split: if_splits)
next
  case (c_cleanup now n bs w s b' s')
  then show ?case using step_cleanup [of bs s now n w b' s'] by (auto simp: runCleanup_def split: if_splits)
next
  case (c_reconcile bs w s b' s')
  then show ?case using step_reconcile [of bs s w b' s'] by (auto simp: runReconcile_def split: if_splits)
next
  case (c_shutdown bs w s b' s')
  then show ?case by (rule step_shutdown [rotated])
next
  case (c_other bs w s b' s')
  then show ?case
    using bridge_inv_cong [of b' "bs w"]
    by (auto simp: cluster_ok_def registry_untouched_def intro: held_local)
qed

lemma cluster_reach_ok:
  "(cluster_step R view)\<^sup>*\<^sup>* x y \<Longrightarrow> cluster_ok view x \<Longrightarrow> cluster_ok view y"
  by (induction rule: rtranclp_induct) (auto intro: cluster_step_ok)

end

text \<open>Why a registration that fails is not a step: when the claim of a generation fails, the worker has
  already dropped the connection it held, and the registry can still name it as the owner.\<close>

lemma failed_claim_loses_bot:
  assumes "\<not> b_down b" "rd_incr R (BotGenPrefix @ t) s = (Inl e, s1)"
  shows "RegisterBot R now t c b s = (Inl (''claim generation: '' @ err_text e),
    if map_of (b_bots b) t \<noteq> None then evictLocal t b else b, s1)"
    and "map_of (b_bots (fst (snd (RegisterBot R now t c b s)))) t = None"
  using assms by (auto simp: RegisterBot_def Let_def bridge_simps delete_conv)

section \<open>Messages are steps of the other kind\<close>

lemma inbox_keys:
  "BotAliveKey \<noteq> chat_inbox t sid" "BotOwnerPrefix @ u \<noteq> chat_inbox t sid" "BotGenPrefix @ u \<noteq> chat_inbox t sid"
  "BotAliveKey \<noteq> workerInboxName w" "BotOwnerPrefix @ u \<noteq> workerInboxName w" "BotGenPrefix @ u \<noteq> workerInboxName w"
  by (simp_all add: chat_inbox_def workerInboxName_def key_defs)

context redis_up begin

lemma publish_registry:
  assumes "\<And>u. BotAliveKey \<noteq> q \<and> BotOwnerPrefix @ u \<noteq> q \<and> BotGenPrefix @ u \<noteq> q"
  shows "shared_of (view (snd (Publish R n q m s))) = shared_of (view s) \<and> bots_ok (view (snd (Publish R n q m s))) = bots_ok (view s)"
  using assms by (intro shared_cong Publish_frame) auto

lemma session_send_registry:
  "shared_of (view (sendToSession R (NewRedisStreamQueue R n) t sid ev b s)) = shared_of (view s) \<and>
   bots_ok (view (sendToSession R (NewRedisStreamQueue R n) t sid ev b s)) = bots_ok (view s)"
  using publish_registry [of "chat_inbox t sid" n] inbox_keys
  by (simp add: sendToSession_def Let_def case_prod_beta sem_exists_def)

lemma message_untouched:
  assumes "HandleBotMessage R (NewRedisStreamQueue R n) t raw b s = (b', s')"
  shows "registry_untouched view b s b' s'"
proof -
  have "shared_of (view (handle_notification R (NewRedisStreamQueue R n) t msg b s)) = shared_of (view s) \<and>
      bots_ok (view (handle_notification R (NewRedisStreamQueue R n) t msg b s)) = bots_ok (view s)"
    "shared_of (view (handle_response R (NewRedisStreamQueue R n) t msg b s)) = shared_of (view s) \<and>
      bots_ok (view (handle_response R (NewRedisStreamQueue R n) t msg b s)) = bots_ok (view s)" for msg s
    using session_send_registry
    by (auto simp: handle_notification_def handle_response_def Let_def split: option.splits)
  with assms show ?thesis
    by (auto simp: HandleBotMessage_def registry_untouched_def Let_def WriteMessage_def split: option.splits if_splits)
qed

lemma prompt_untouched:
  assumes "bots_ok (view s)" "SendToBot R (NewRedisStreamQueue R n) uuid carrier t msg urls sid s = (r, s')"
  shows "registry_untouched view b s b s'"
proof -
  have set_reg: "shared_of (snd (sem_set (TraceCtxPrefix @ k) v m st)) = shared_of st \<and>
      bots_ok (snd (sem_set (TraceCtxPrefix @ k) v m st)) = bots_ok st" for k v m st
    by (rule shared_cong) (simp_all add: sem_set_def key_defs)
  have pub: "shared_of (view (snd (PublishToWorkerInbox (NewRedisStreamQueue R n) w t rpc s))) = shared_of (view s) \<and>
      bots_ok (view (snd (PublishToWorkerInbox (NewRedisStreamQueue R n) w t rpc s))) = bots_ok (view s)" for w rpc s
    using publish_registry [of "workerInboxName w" n] inbox_keys
    by (simp add: PublishToWorkerInbox_def Let_def case_prod_beta split: sum.splits)
  have "shared_of (view s') = shared_of (view s) \<and> bots_ok (view s') = bots_ok (view s)"
    using assms(2) ResolveBotRoute_reply(2) [OF assms(1), of t] set_reg pub
    by (auto simp: SendToBot_def Let_def case_prod_beta split: if_splits sum.splits)
  then show ?thesis by (simp add: registry_untouched_def)
qed

end

text \<open>Every connection that another worker than the owner holds is stale.\<close>

lemma others_stale:
  assumes "sh_owner sh t = Some w" "w \<noteq> ''''" "b_worker b \<noteq> w"
  shows "stale b sh t"
  using assms by (auto simp: stale_def)

end
