(* ===== verification/Float64.thy ===== *)
theory Float64
  imports Json
begin

text \<open>
  What the code uses of Go's \<open>float64\<close>: a JSON number decoded into an interface value is rounded to
  the nearest double (\<open>strconv.ParseFloat\<close>), and \<open>int(v)\<close> truncates it. Only the integer part
  matters here, so values below one need no subnormal case.
\<close>

section \<open>Rounding\<close>

fun bit_len :: "nat \<Rightarrow> nat" where
  "bit_len n = (if n = 0 then 0 else Suc (bit_len (n div 2)))"

declare bit_len.simps [simp del]

text \<open>The quotient rounded to the nearest integer, ties to even.\<close>

definition round_even :: "nat \<Rightarrow> nat \<Rightarrow> nat" where
  "round_even p q =
     (let m = p div q; r = p mod q
      in if 2 * r < q then m else if 2 * r > q then m + 1 else if even m then m else m + 1)"

text \<open>\<open>p / (q * 2\<^sup>k)\<close>, rounded.\<close>

definition scaled :: "nat \<Rightarrow> nat \<Rightarrow> int \<Rightarrow> nat" where
  "scaled p q k = (if k \<ge> 0 then round_even p (q * 2 ^ nat k) else round_even (p * 2 ^ nat (- k)) q)"

text \<open>The double nearest to \<open>p / q > 0\<close>, as a significand of 53 bits and a binary exponent.\<close>

definition nearest_double :: "nat \<Rightarrow> nat \<Rightarrow> nat \<times> int" where
  "nearest_double p q =
     (let k = int (bit_len p) - int (bit_len q) - 53
      in if scaled p q k < 2 ^ 53 then (scaled p q k, k) else (scaled p q (k + 1), k + 1))"

section \<open>Numbers\<close>

definition or_zero :: "nat option \<Rightarrow> nat" where
  "or_zero r = (case r of Some n \<Rightarrow> n | None \<Rightarrow> 0)"

text \<open>A literal of the JSON grammar as sign, digits and decimal exponent.\<close>

definition read_number :: "string \<Rightarrow> bool \<times> nat \<times> int" where
  "read_number l =
     (let neg = (l \<noteq> [] \<and> hd l = CHR ''-'');
          u = (if neg then tl l else l);
          ip = takeWhile is_digit u;
          u1 = dropWhile is_digit u;
          fp = (if u1 \<noteq> [] \<and> hd u1 = CHR ''.'' then takeWhile is_digit (tl u1) else []);
          u2 = (if u1 \<noteq> [] \<and> hd u1 = CHR ''.'' then dropWhile is_digit (tl u1) else u1);
          e = (if u2 = [] then 0
               else let x = tl u2 in
                    if x \<noteq> [] \<and> hd x = CHR ''-'' then - int (or_zero (digits_val 0 (tl x)))
                    else if x \<noteq> [] \<and> hd x = CHR ''+'' then int (or_zero (digits_val 0 (tl x)))
                    else int (or_zero (digits_val 0 x)))
      in (neg, or_zero (digits_val 0 (ip @ fp)), e - int (length fp)))"

text \<open>\<open>int(v)\<close> of the double a literal rounds to; none when it is out of a double's range. An \<open>int\<close>
  that does not fit is the least one, as on amd64.\<close>

definition double_int :: "bool \<times> nat \<times> int \<Rightarrow> int option" where
  "double_int x =
     (case x of (neg, m, e) \<Rightarrow>
        if m = 0 then Some 0
        else
          let p = (if e \<ge> 0 then m * 10 ^ nat e else m); q = (if e \<ge> 0 then 1 else 10 ^ nat (- e)) in
          (case nearest_double p q of (n, k) \<Rightarrow>
             if k \<ge> 0 \<and> n * 2 ^ nat k \<ge> 2 ^ 1024 then None
             else
               let v = (if k \<ge> 0 then int (n * 2 ^ nat k) else int (n div 2 ^ nat (- k)));
                   i = (if neg then - v else v)
               in Some (if fits64 i then i else min_int64)))"

definition json_int :: "json \<Rightarrow> int option" where
  "json_int j =
     (case j of
        JInt i \<Rightarrow> double_int (i < 0, nat \<bar>i\<bar>, 0)
      | JReal l \<Rightarrow> double_int (read_number l)
      | _ \<Rightarrow> None)"

text \<open>Decoding into an interface value fails on a number no double can hold.\<close>

fun doubles_ok :: "json \<Rightarrow> bool" where
  "doubles_ok (JInt i) \<longleftrightarrow> json_int (JInt i) \<noteq> None"
| "doubles_ok (JReal l) \<longleftrightarrow> json_int (JReal l) \<noteq> None"
| "doubles_ok (JArr js) \<longleftrightarrow> (\<forall>j\<in>set js. doubles_ok j)"
| "doubles_ok (JObj kvs) \<longleftrightarrow> (\<forall>kv\<in>set kvs. doubles_ok (snd kv))"
| "doubles_ok j \<longleftrightarrow> True"

text \<open>A field of type \<open>int\<close>, decoded over the value \<open>old\<close> it holds: a member of another type, or a
  number that is no \<open>int\<close>, leaves it.\<close>

definition struct_int :: "json option \<Rightarrow> string \<Rightarrow> int \<Rightarrow> int" where
  "struct_int j k old =
     (case struct_field j k of
        Some (JInt i) \<Rightarrow> if fits64 i then i else old
      | Some (JReal l) \<Rightarrow> (case parse_int l of (i, None) \<Rightarrow> i | _ \<Rightarrow> old)
      | _ \<Rightarrow> old)"

text \<open>The same member makes \<open>Unmarshal\<close> return a type error.\<close>

definition struct_int_err :: "json option \<Rightarrow> string \<Rightarrow> bool" where
  "struct_int_err j k =
     (case struct_field j k of
        None \<Rightarrow> False | Some JNull \<Rightarrow> False
      | Some (JInt i) \<Rightarrow> \<not> fits64 i
      | Some (JReal l) \<Rightarrow> snd (parse_int l) \<noteq> None
      | _ \<Rightarrow> True)"

section \<open>Small integers are exact\<close>

lemma bit_len_bounds: "0 < n \<Longrightarrow> 2 ^ (bit_len n - 1) \<le> n \<and> n < 2 ^ bit_len n"
proof (induction n rule: bit_len.induct)
  case (1 n)
  show ?case
  proof (cases "n = 1")
    case True
    then show ?thesis by (simp add: bit_len.simps)
  next
    case False
    then have h: "0 < n div 2" using 1 by simp
    from 1 h have IH: "2 ^ (bit_len (n div 2) - 1) \<le> n div 2" "n div 2 < 2 ^ bit_len (n div 2)" by auto
    have "0 < bit_len (n div 2)" using h by (subst bit_len.simps) simp
    then obtain b where b: "bit_len (n div 2) = Suc b" by (cases "bit_len (n div 2)") auto
    with 1 have "bit_len n = Suc (Suc b)" by (subst bit_len.simps) simp
    with IH b show ?thesis by simp linarith
  qed
qed

lemma round_even_exact [simp]: "0 < q \<Longrightarrow> round_even (p * q) q = p" "round_even p (Suc 0) = p"
  by (simp_all add: round_even_def Let_def)

lemma double_int_small:
  assumes "m < 2 ^ 53"
  shows "double_int (neg, m, 0) = Some (if neg then - int m else int m)"
proof (cases "m = 0")
  case True
  then show ?thesis by (simp add: double_int_def)
next
  case False
  define k where "k = int (bit_len m) - int (bit_len 1) - 53"
  have one: "bit_len (Suc 0) = 1" by (simp add: bit_len.simps)
  have "bit_len m \<le> 53"
  proof (rule ccontr)
    assume "\<not> bit_len m \<le> 53"
    then have "(2 :: nat) ^ 53 \<le> 2 ^ (bit_len m - 1)" by (intro power_increasing) simp_all
    with bit_len_bounds [of m] False assms show False by simp
  qed
  then have k: "k + 1 \<le> 0" by (simp add: k_def one)
  have exact: "\<exists>n j. nearest_double m 1 = (n, j) \<and> j \<le> 0 \<and> n = m * 2 ^ nat (- j)"
  proof -
    have sc: "scaled m 1 j = m * 2 ^ nat (- j)" if "j \<le> 0" for j
      using that by (cases "j = 0") (simp_all add: scaled_def)
    have "nearest_double m 1 = (if scaled m 1 k < 2 ^ 53 then (scaled m 1 k, k) else (scaled m 1 (k + 1), k + 1))"
      by (simp only: nearest_double_def Let_def k_def)
    then show ?thesis using k sc [of k] sc [of "k + 1"] by (cases "scaled m 1 k < 2 ^ 53") auto
  qed
  then obtain n j where n: "nearest_double m 1 = (n, j)" "j \<le> 0" "n = m * 2 ^ nat (- j)" by blast
  have v: "(if j \<ge> 0 then int (n * 2 ^ nat j) else int (n div 2 ^ nat (- j))) = int m" using n(2,3) by auto
  have big: "\<not> (j \<ge> 0 \<and> n * 2 ^ nat j \<ge> 2 ^ 1024)"
  proof
    assume "j \<ge> 0 \<and> n * 2 ^ nat j \<ge> 2 ^ 1024"
    then have "j = 0" "(2 :: nat) ^ 1024 \<le> n * 2 ^ nat j" using n(2) by linarith+
    then have "(2 :: nat) ^ 1024 \<le> m" using n(3) by (simp only: nat_zero_as_int power_0 mult_1_right) simp
    moreover have "(2 :: nat) ^ 53 \<le> 2 ^ 1024" by (rule power_increasing) simp_all
    ultimately show False using assms by simp
  qed
  have "fits64 (if neg then - int m else int m)" using assms by (simp add: fits64_def min_int64_def max_int64_def)
  with False n(1) v big show ?thesis by (simp add: double_int_def Let_def)
qed

lemma json_int_small: "\<bar>i\<bar> < 2 ^ 53 \<Longrightarrow> json_int (JInt i) = Some i"
  using double_int_small [of "nat \<bar>i\<bar>" "i < 0"] by (simp add: json_int_def nat_less_iff)

end
