(* ===== verification/Handlers.thy ===== *)
theory Handlers
  imports ChatSse AdminAuth Float64
begin

text \<open>
  The HTTP handlers of \<open>internal/router\<close> that answer with one JSON reply: the tokens and their
  administration (\<open>tokens.go\<close>, \<open>admin.go\<close>), the administrator's password and sessions
  (\<open>admin_auth.go\<close>), the chat sessions (\<open>sse.go\<close>) and the health check (\<open>health.go\<close>).

  A handler takes what it reads of the request (the body's text, the query parameters, the cookie, the
  path's token), the tables and the Redis client it uses, and returns its \<open>response\<close>. Logging is
  left out. \<open>now\<close> is nanoseconds for the tables, \<open>sec\<close> seconds for the heartbeats in Redis.
\<close>

section \<open>Requests\<close>

definition query_or :: "(string \<times> string) list \<Rightarrow> string \<Rightarrow> string \<Rightarrow> string" where
  "query_or q k dflt = (case map_of q k of Some v \<Rightarrow> v | None \<Rightarrow> dflt)"

section \<open>Public token endpoints\<close>

definition createToken :: "(token, 'd) dbtable \<Rightarrow> nat list option \<Rightarrow> int \<Rightarrow> string \<Rightarrow> 'd \<Rightarrow> response \<times> 'd" where
  "createToken T bytes now body d =
     (let name = struct_str (struct_body body) ''name'' in
      case Generate T bytes now name 0 d of
        (Inl _, d1) \<Rightarrow> (MetricsErrorResponse ErrChatInternalError, d1)
      | (Inr tok, d1) \<Rightarrow> (json_ok [(''token'', JStr tok)], d1))"

definition validateToken ::
    "(token, 'd) dbtable \<Rightarrow> 's redis \<Rightarrow> int \<Rightarrow> int \<Rightarrow> string \<Rightarrow> 'd \<Rightarrow> 's \<Rightarrow> response \<times> 'd \<times> 's" where
  "validateToken T R now sec body d s =
     (let j = struct_body body in
      if j = None \<or> struct_str_err j ''token'' then (MetricsErrorResponse ErrChatInvalidReq, d, s)
      else
        let tok = struct_str j ''token'' in
        (case Validate T now tok d of
           (valid, d1) \<Rightarrow>
             (case (if valid then IsBotConnected R sec tok s else (False, s)) of
                (connected, s1) \<Rightarrow>
                  (json_ok [(''valid'', JBool valid), (''bot_connected'', JBool connected)], d1, s1))))"

section \<open>The administrator\<close>

definition session_cookie :: "string \<Rightarrow> response" where
  "session_cookie tok = (json_ok [])\<lparr>rs_cookies := [(''admin_session'', tok, 86400)]\<rparr>"

definition adminAuthStatus ::
    "(admin_config, 'd) dbtable \<Rightarrow> 's redis \<Rightarrow> string \<Rightarrow> 'd \<Rightarrow> 's \<Rightarrow> response \<times> 'd \<times> 's" where
  "adminAuthStatus T R adminSession d s =
     (case IsPasswordSet T d of
        (r, d1) \<Rightarrow>
          let needSetup = (case r of Inr isSet \<Rightarrow> \<not> isSet | Inl _ \<Rightarrow> True) in
          (case ValidateSession R adminSession s of
             (authenticated, s1) \<Rightarrow>
               (json_ok [(''need_setup'', JBool needSetup), (''authenticated'', JBool authenticated)], d1, s1)))"

definition adminAuthSetup ::
    "bcrypt \<Rightarrow> (admin_config, 'd) dbtable \<Rightarrow> ('d, unit) dbcall \<Rightarrow> 's redis \<Rightarrow> nat list option \<Rightarrow> string \<Rightarrow> 'd \<Rightarrow> 's \<Rightarrow>
     response \<times> 'd \<times> 's" where
  "adminAuthSetup B T commit R bytes body d s =
     (case IsPasswordSet T d of
        (Inl _, d1) \<Rightarrow> (MetricsErrorResponse ErrChatInternalError, d1, s)
      | (Inr True, d1) \<Rightarrow> (MetricsErrorResponse ErrAdminPasswordExists, d1, s)
      | (Inr False, d1) \<Rightarrow>
          let j = struct_body body in
          if j = None \<or> struct_str_err j ''password'' then (MetricsErrorResponse ErrChatInvalidReq, d1, s)
          else
            let password = struct_str j ''password'' in
            if length password < 8 then (MetricsErrorResponse ErrAdminPasswordShort, d1, s)
            else
              (case SetPassword B T commit R password d1 s of
                 (Inl _, d2, s2) \<Rightarrow> (MetricsErrorResponse ErrChatInternalError, d2, s2)
               | (Inr _, d2, s2) \<Rightarrow>
                   (case CreateAdminSession R bytes s2 of
                      (Inl _, s3) \<Rightarrow> (MetricsErrorResponse ErrChatInternalError, d2, s3)
                    | (Inr tok, s3) \<Rightarrow> (session_cookie tok, d2, s3))))"

definition adminAuthLogin ::
    "bcrypt \<Rightarrow> (admin_config, 'd) dbtable \<Rightarrow> ('d, unit) dbcall \<Rightarrow> 's redis \<Rightarrow> nat list option \<Rightarrow> string \<Rightarrow> 'd \<Rightarrow> 's \<Rightarrow>
     response \<times> 'd \<times> 's" where
  "adminAuthLogin B T commit R bytes body d s =
     (let j = struct_body body in
      if j = None \<or> struct_str_err j ''password'' then (MetricsErrorResponse ErrChatInvalidReq, d, s)
      else
        (case VerifyPassword B T commit R (struct_str j ''password'') d s of
           (Inl _, d1, s1) \<Rightarrow> (MetricsErrorResponse ErrChatInternalError, d1, s1)
         | (Inr False, d1, s1) \<Rightarrow> (MetricsErrorResponse ErrAuthWrongPassword, d1, s1)
         | (Inr True, d1, s1) \<Rightarrow>
             (case CreateAdminSession R bytes s1 of
                (Inl _, s2) \<Rightarrow> (MetricsErrorResponse ErrChatInternalError, d1, s2)
              | (Inr tok, s2) \<Rightarrow> (session_cookie tok, d1, s2))))"

definition adminAuthLogout :: "'s redis \<Rightarrow> string \<Rightarrow> 's \<Rightarrow> response \<times> 's" where
  "adminAuthLogout R adminSession s =
     ((json_ok [])\<lparr>rs_cookies := [(''admin_session'', '''', -1)]\<rparr>, RemoveSession R adminSession s)"

definition adminAuthMiddleware :: "'s redis \<Rightarrow> string \<Rightarrow> 's \<Rightarrow> (response + unit) \<times> 's" where
  "adminAuthMiddleware R adminSession s =
     (case ValidateSession R adminSession s of
        (False, s1) \<Rightarrow> (Inl (MetricsErrorResponse ErrAuthUnauthorized), s1)
      | (True, s1) \<Rightarrow> (Inr (), s1))"

section \<open>Token administration\<close>

record token_info =
  tf_token :: string
  tf_name :: string
  tf_created :: int
  tf_expires :: int
  tf_online :: bool

definition token_info_of :: "string list \<Rightarrow> token_item \<Rightarrow> token_info" where
  "token_info_of online t =
     \<lparr>tf_token = ti_token t, tf_name = ti_name t, tf_created = ti_created t, tf_expires = ti_expires t,
      tf_online = (ti_token t \<in> set online)\<rparr>"

definition token_info_json :: "token_info \<Rightarrow> json" where
  "token_info_json t = JObj [(''token'', JStr (tf_token t)), (''name'', JStr (tf_name t)),
     (''created_at'', JInt (tf_created t)), (''expires_at'', JInt (tf_expires t)), (''bot_online'', JBool (tf_online t))]"

definition token_list_reply :: "token_info list \<Rightarrow> int \<Rightarrow> int \<Rightarrow> int \<Rightarrow> int \<Rightarrow> int \<Rightarrow> response" where
  "token_list_reply items all page pageSize online tokens = json_ok
     [(''tokens'', JArr (map token_info_json items)), (''total'', JInt all), (''page'', JInt page),
      (''page_size'', JInt pageSize), (''online_bots'', JInt online), (''total_tokens'', JInt tokens)]"

text \<open>The order \<open>less\<close> of \<open>listTokensWithBotSort\<close>.\<close>

definition bot_less :: "bool \<Rightarrow> token_info \<Rightarrow> token_info \<Rightarrow> bool" where
  "bot_less reverse a b =
     (if tf_online a \<noteq> tf_online b then (if reverse then tf_online a else tf_online b)
      else if reverse then tf_created a > tf_created b else tf_created a < tf_created b)"

text \<open>Go's \<open>xs[i:j]\<close>, which panics out of range.\<close>

definition go_slice :: "int \<Rightarrow> int \<Rightarrow> 'a list \<Rightarrow> 'a list option" where
  "go_slice i j xs =
     (if 0 \<le> i \<and> i \<le> j \<and> j \<le> int (length xs) then Some (take (nat (j - i)) (drop (nat i) xs)) else None)"

definition page_slice :: "int \<Rightarrow> int \<Rightarrow> 'a list \<Rightarrow> 'a list option" where
  "page_slice page pageSize xs =
     (let n = int (length xs);
          offset = wrap64 (wrap64 (page - 1) * pageSize);
          end1 = wrap64 (offset + pageSize);
          offset1 = (if offset > n then n else offset);
          end2 = (if end1 > n then n else end1)
      in go_slice offset1 end2 xs)"

text \<open>\<open>sort.Slice\<close> is the parameter \<open>srt\<close>: what it does with equal elements is not specified. A panic,
  which gin recovers into an empty reply of status 500, is \<open>None\<close>.\<close>

definition listTokensWithBotSort ::
    "((token_info \<Rightarrow> token_info \<Rightarrow> bool) \<Rightarrow> token_info list \<Rightarrow> token_info list) \<Rightarrow> (token, 'd) dbtable \<Rightarrow> 's redis \<Rightarrow>
     (string \<Rightarrow> string \<Rightarrow> bool) \<Rightarrow> int \<Rightarrow> int \<Rightarrow> int \<Rightarrow> int \<Rightarrow> string \<Rightarrow> string \<Rightarrow> string \<Rightarrow> 'd \<Rightarrow> 's \<Rightarrow>
     response option \<times> 'd \<times> 's" where
  "listTokensWithBotSort srt T R collate now sec page pageSize search sortOrder botStatus d s =
     (case ListPaged T collate now 1 5000 search ''created_at'' ''desc'' d of
        (Inl _, d1) \<Rightarrow> (Some (MetricsErrorResponse ErrChatInternalError), d1, s)
      | (Inr dat, d1) \<Rightarrow>
          (case BulkCheckBotOnline R sec (map ti_token (tl_items dat)) s of
             (online, s1) \<Rightarrow>
               let allTokens = map (token_info_of online) (tl_items dat);
                   globalOnline = length (filter tf_online allTokens);
                   filtered = (if botStatus = ''online'' then filter tf_online allTokens else allTokens);
                   sorted = srt (bot_less (sortOrder = ''desc'')) filtered
               in (map_option (\<lambda>items. token_list_reply items (int (length sorted)) page pageSize
                     (int globalOnline) (int (length allTokens))) (page_slice page pageSize sorted), d1, s1)))"

definition clamp_page :: "int \<Rightarrow> int" where
  "clamp_page page = (if page < 1 then 1 else page)"

definition clamp_size :: "int \<Rightarrow> int" where
  "clamp_size pageSize =
     (let p1 = (if pageSize < 1 then 20 else pageSize) in if p1 > 100 then 100 else p1)"

definition listTokens ::
    "((token_info \<Rightarrow> token_info \<Rightarrow> bool) \<Rightarrow> token_info list \<Rightarrow> token_info list) \<Rightarrow> (token, 'd) dbtable \<Rightarrow> 's redis \<Rightarrow>
     (string \<Rightarrow> string \<Rightarrow> bool) \<Rightarrow> int \<Rightarrow> int \<Rightarrow> (string \<times> string) list \<Rightarrow> 'd \<Rightarrow> 's \<Rightarrow> response option \<times> 'd \<times> 's" where
  "listTokens srt T R collate now sec q d s =
     (let page = clamp_page (fst (atoi (query_or q ''page'' ''1'')));
          pageSize = clamp_size (fst (atoi (query_or q ''page_size'' ''20'')));
          search = query_or q ''search'' '''';
          sortBy = query_or q ''sort_by'' ''created_at'';
          sortOrder = query_or q ''sort_order'' ''desc'';
          botStatus = query_or q ''bot_status'' ''''
      in if sortBy = ''bot_online''
         then listTokensWithBotSort srt T R collate now sec page pageSize search sortOrder botStatus d s
         else
           (case ListPaged T collate now page pageSize search sortBy sortOrder d of
              (Inl _, d1) \<Rightarrow> (Some (MetricsErrorResponse ErrChatInternalError), d1, s)
            | (Inr dat, d1) \<Rightarrow>
                (case BulkCheckBotOnline R sec (map ti_token (tl_items dat)) s of
                   (online, s1) \<Rightarrow>
                     let pageItems = map (token_info_of online) (tl_items dat);
                         shown = (if botStatus = ''online'' then filter tf_online pageItems else pageItems)
                     in (case CountOnlineBots R sec s1 of
                           (globalOnline, s2) \<Rightarrow>
                             (case CountAllActive T now d1 of
                                (totalTokens, d2) \<Rightarrow>
                                  (Some (token_list_reply shown (tl_total dat) page pageSize (int globalOnline)
                                     (int totalTokens)), d2, s2))))))"

definition adminCreateToken :: "(token, 'd) dbtable \<Rightarrow> nat list option \<Rightarrow> int \<Rightarrow> string \<Rightarrow> 'd \<Rightarrow> response \<times> 'd" where
  "adminCreateToken T bytes now body d =
     (let j = struct_body body;
          name = struct_str j ''name'';
          expiresIn = struct_int j ''expires_in'' 86400
      in case Generate T bytes now name expiresIn d of
           (Inl _, d1) \<Rightarrow> (MetricsErrorResponse ErrChatInternalError, d1)
         | (Inr tok, d1) \<Rightarrow> (json_ok [(''token'', JStr tok)], d1))"

definition adminDeleteToken ::
    "(token, 'd) dbtable \<Rightarrow> (chat_session, 'd) dbtable \<Rightarrow> 's redis \<Rightarrow> 's mq \<Rightarrow> string \<Rightarrow> bridge \<Rightarrow> 'd \<Rightarrow> 's \<Rightarrow>
     response \<times> bridge \<times> 'd \<times> 's" where
  "adminDeleteToken T S R Q tokenValue b d s =
     (case Remove T R tokenValue d s of
        (Inl _, d1, s1) \<Rightarrow> (MetricsErrorResponse ErrChatInternalError, b, d1, s1)
      | (Inr _, d1, s1) \<Rightarrow>
          (case RemoveBotSessions S R Q tokenValue b d1 s1 of
             (_, b2, d2, s2) \<Rightarrow> (json_ok [], b2, d2, InvalidateTokenCache R tokenValue s2)))"

text \<open>The body is decoded into a map: its values are those of the members as they are named.\<close>

definition map_body :: "string \<Rightarrow> gomap option" where
  "map_body body =
     (case first_json body of
        Some (JObj m) \<Rightarrow> if doubles_ok (JObj m) then Some m else None
      | Some JNull \<Rightarrow> Some []
      | _ \<Rightarrow> None)"

definition adminUpdateToken :: "(token, 'd) dbtable \<Rightarrow> int \<Rightarrow> string \<Rightarrow> string \<Rightarrow> 'd \<Rightarrow> response \<times> 'd" where
  "adminUpdateToken T now tokenValue body d =
     (case map_body body of
        None \<Rightarrow> (MetricsErrorResponse ErrChatInvalidReq, d)
      | Some m \<Rightarrow>
          let name = jfield_str m ''name'';
              expiresIn = (case map_of m ''expires_in'' of Some v \<Rightarrow> json_int v | None \<Rightarrow> None)
          in (case Update T now tokenValue name expiresIn d of
                (Inl _, d1) \<Rightarrow> (MetricsErrorResponse ErrChatInternalError, d1)
              | (Inr False, d1) \<Rightarrow> (MetricsErrorResponse ErrTokenNotFound, d1)
              | (Inr True, d1) \<Rightarrow> (json_ok [], d1)))"

definition adminCleanup ::
    "(token, 'd) dbtable \<Rightarrow> (chat_session, 'd) dbtable \<Rightarrow> 's redis \<Rightarrow> int \<Rightarrow> int \<Rightarrow> 'd \<Rightarrow> 's \<Rightarrow> response \<times> 'd \<times> 's" where
  "adminCleanup T S R now1 now2 d s =
     (case CleanupExpired T now1 d of
        (Inl _, d1) \<Rightarrow> (MetricsErrorResponse ErrChatInternalError, d1, s)
      | (Inr tokenCount, d1) \<Rightarrow>
          (case BridgeCleanupOldSessions S R now2 30 d1 s of
             (Inl _, d2, s2) \<Rightarrow> (MetricsErrorResponse ErrChatInternalError, d2, s2)
           | (Inr sessionCount, d2, s2) \<Rightarrow>
               (json_ok [(''removed_tokens'', JInt (int tokenCount)), (''removed_sessions'', JInt (int sessionCount))],
                d2, s2)))"

section \<open>Chat sessions\<close>

definition session_json :: "session_info \<Rightarrow> json" where
  "session_json x = jobj [(''id'', JStr (si_id x)), (''number'', JInt (si_number x))]"

definition listSessions ::
    "(chat_session, 'd) dbtable \<Rightarrow> 's redis \<Rightarrow> string \<Rightarrow> 'd \<Rightarrow> 's \<Rightarrow> response \<times> 'd \<times> 's" where
  "listSessions S R token d s =
     (case BridgeGetSessions S R token d s of
        (Inl _, d1, s1) \<Rightarrow> (MetricsErrorResponse ErrChatInternalError, d1, s1)
      | (Inr sessions, d1, s1) \<Rightarrow> (json_ok [(''sessions'', JArr (map session_json sessions))], d1, s1))"

definition createSession ::
    "(chat_session, 'd) dbtable \<Rightarrow> 's redis \<Rightarrow> int \<Rightarrow> string \<Rightarrow> string \<Rightarrow> 'd \<Rightarrow> 's \<Rightarrow> response \<times> 'd \<times> 's" where
  "createSession S R now uuid token d s =
     (case BridgeCreateSession S R now uuid token d s of
        (Inl _, d1, s1) \<Rightarrow> (MetricsErrorResponse ErrSessionCreateFailed, d1, s1)
      | (Inr (sessionID, sessionNumber), d1, s1) \<Rightarrow>
          (case BridgeGetSessions S R token d1 s1 of
             (Inl _, d2, s2) \<Rightarrow> (MetricsErrorResponse ErrChatInternalError, d2, s2)
           | (Inr sessions, d2, s2) \<Rightarrow>
               (json_ok [(''sessionId'', JStr sessionID), (''sessionNumber'', JInt sessionNumber),
                  (''sessions'', JArr (map session_json sessions))], d2, s2)))"

section \<open>Health\<close>

definition defaultHealthCheckTimeout :: int where "defaultHealthCheckTimeout = 1000000000"
definition healthDeadlineSlack :: int where "healthDeadlineSlack = 50000000"

text \<open>How long a dependency's check may take: \<open>deadline\<close> is the request's, when it has one.\<close>

definition newHealthCheckContext :: "int \<Rightarrow> int option \<Rightarrow> int" where
  "newHealthCheckContext now deadline =
     (case deadline of
        None \<Rightarrow> defaultHealthCheckTimeout
      | Some dl \<Rightarrow>
          let remaining = dl - now - healthDeadlineSlack
          in if remaining > 0 \<and> remaining < defaultHealthCheckTimeout then remaining else defaultHealthCheckTimeout)"

text \<open>A ping answers within the time it is given, or not.\<close>

definition checkDependencyHealth :: "int \<Rightarrow> int option \<Rightarrow> (int \<Rightarrow> bool) \<Rightarrow> bool" where
  "checkDependencyHealth now deadline ping = ping (newHealthCheckContext now deadline)"

text \<open>The ping of MySQL is none when the connection pool cannot be had.\<close>

definition healthCheck :: "int \<Rightarrow> int option \<Rightarrow> (int \<Rightarrow> bool) option \<Rightarrow> (int \<Rightarrow> bool) \<Rightarrow> response" where
  "healthCheck now deadline mysql redis =
     (let mysqlOK = (case mysql of None \<Rightarrow> False | Some ping \<Rightarrow> checkDependencyHealth now deadline ping);
          redisOK = checkDependencyHealth now deadline redis;
          ok = mysqlOK \<and> redisOK
      in \<lparr>rs_reply = json_reply (if ok then 200 else 503)
            (jobj [(''code'', JInt 0), (''status'', JStr (if ok then ''ok'' else ''degraded'')),
                   (''mysql'', JBool mysqlOK), (''redis'', JBool redisOK)]),
          rs_code = None, rs_cookies = []\<rparr>)"

end
