(* ===== verification/Routes.thy ===== *)
theory Routes
  imports Handlers
begin

text \<open>
  The router of \<open>internal/router/router.go\<close> and the bot's socket of \<open>websocket.go\<close>: which handler a
  request reaches, after which checks, and the life of one bot connection. gin, the CORS library and
  the websocket library are not modelled beyond what the code asks of them.
\<close>

section \<open>Routes\<close>

datatype route =
    HealthCheck | CreateToken | ValidateToken
  | AuthStatus | AuthSetup | AuthLogin | AuthLogout
  | ListTokens | AdminCreateToken | AdminUpdateToken string | AdminDeleteToken string | AdminCleanup
  | UploadMedia | ChatSSE | ListSessions | CreateChatSession | WsBot

definition static_routes :: "((string \<times> string) \<times> route) list" where
  "static_routes =
     [((''GET'', ''/api/health''), HealthCheck),
      ((''POST'', ''/api/token''), CreateToken),
      ((''POST'', ''/api/token/validate''), ValidateToken),
      ((''GET'', ''/api/admin/auth/status''), AuthStatus),
      ((''POST'', ''/api/admin/auth/setup''), AuthSetup),
      ((''POST'', ''/api/admin/auth/login''), AuthLogin),
      ((''POST'', ''/api/admin/auth/logout''), AuthLogout),
      ((''GET'', ''/api/admin/tokens''), ListTokens),
      ((''POST'', ''/api/admin/tokens''), AdminCreateToken),
      ((''POST'', ''/api/admin/cleanup''), AdminCleanup),
      ((''POST'', ''/api/media/upload''), UploadMedia),
      ((''POST'', ''/bridge/chat''), ChatSSE),
      ((''GET'', ''/bridge/chat/sessions''), ListSessions),
      ((''POST'', ''/bridge/chat/sessions''), CreateChatSession),
      ((''GET'', ''/bridge/bot''), WsBot)]"

text \<open>\<open>:token\<close> is one segment that is not empty.\<close>

definition SetupRouter :: "string \<Rightarrow> string \<Rightarrow> route option" where
  "SetupRouter meth path =
     (case map_of static_routes (meth, path) of
        Some r \<Rightarrow> Some r
      | None \<Rightarrow>
          if has_prefix path ''/api/admin/tokens/'' then
            let tok = drop (length ''/api/admin/tokens/'') path in
            if tok = '''' \<or> CHR ''/'' \<in> set tok then None
            else if meth = ''PATCH'' then Some (AdminUpdateToken tok)
            else if meth = ''DELETE'' then Some (AdminDeleteToken tok)
            else None
          else None)"

text \<open>The routes of the group behind \<open>adminAuthMiddleware\<close>.\<close>

definition admin_group :: "route \<Rightarrow> bool" where
  "admin_group r = (case r of
     ListTokens \<Rightarrow> True | AdminCreateToken \<Rightarrow> True | AdminUpdateToken _ \<Rightarrow> True | AdminDeleteToken _ \<Rightarrow> True
   | AdminCleanup \<Rightarrow> True | _ \<Rightarrow> False)"

section \<open>Which handler runs\<close>

text \<open>A request is answered by a middleware, has no route, or reaches a handler, with the token the
  check left in the context. \<open>cors\<close> is the answer of the CORS library when it ends the request.\<close>

datatype admission = Answered response | NoRoute | Run route "string option"

definition admit ::
    "(token, 'd) dbtable \<Rightarrow> 's redis \<Rightarrow> response option \<Rightarrow> int \<Rightarrow> string \<Rightarrow> string \<Rightarrow> string \<Rightarrow> string \<Rightarrow> string \<Rightarrow> 'd \<Rightarrow> 's \<Rightarrow>
     admission \<times> 'd \<times> 's" where
  "admit T R cors now meth path apiKey auth cookie d s =
     (case cors of
        Some r \<Rightarrow> (Answered r, d, s)
      | None \<Rightarrow>
          (case TokenAuth T R now path apiKey auth d s of
             (Inl r, d1, s1) \<Rightarrow> (Answered r, d1, s1)
           | (Inr tok, d1, s1) \<Rightarrow>
               (case SetupRouter meth path of
                  None \<Rightarrow> (NoRoute, d1, s1)
                | Some rt \<Rightarrow>
                    if admin_group rt then
                      (case adminAuthMiddleware R cookie s1 of
                         (Inl r, s2) \<Rightarrow> (Answered r, d1, s2)
                       | (Inr _, s2) \<Rightarrow> (Run rt tok, d1, s2))
                    else (Run rt tok, d1, s1))))"

section \<open>The bot's socket\<close>

datatype ws_outcome = WsUpgradeFailed | WsRejected int string | WsNotRegistered | WsOpen string

text \<open>\<open>upgraded\<close> is whether the upgrade succeeds, \<open>c\<close> the new connection.\<close>

definition ws_open ::
    "(token, 'd) dbtable \<Rightarrow> 's redis \<Rightarrow> int \<Rightarrow> int \<Rightarrow> string \<Rightarrow> string \<Rightarrow> bool \<Rightarrow> conn \<Rightarrow> bridge \<Rightarrow> 'd \<Rightarrow> 's \<Rightarrow>
     ws_outcome \<times> bridge \<times> 'd \<times> 's" where
  "ws_open T R now sec query header upgraded c b d s =
     (let botToken = (if query = '''' then header else query) in
      case Validate T now botToken d of
        (False, d1) \<Rightarrow>
          (if \<not> upgraded then WsUpgradeFailed
           else WsRejected (ae_status ErrWSInvalidToken) (ae_message ErrWSInvalidToken), b, d1, s)
      | (True, d1) \<Rightarrow>
          if \<not> upgraded then (WsUpgradeFailed, b, d1, s)
          else
            (case RegisterBot R sec botToken c b s of
               (Inl _, b1, s1) \<Rightarrow> (WsNotRegistered, b1, d1, s1)
             | (Inr _, b1, s1) \<Rightarrow> (WsOpen botToken, b1, d1, s1)))"

text \<open>The read loop, on the messages that come before the read fails.\<close>

fun ws_read :: "'s redis \<Rightarrow> 's mq \<Rightarrow> string \<Rightarrow> string list \<Rightarrow> bridge \<Rightarrow> 's \<Rightarrow> bridge \<times> 's" where
  "ws_read R Q token [] b s = (b, s)"
| "ws_read R Q token (m # ms) b s =
     (case HandleBotMessage R Q token m b s of (b1, s1) \<Rightarrow> ws_read R Q token ms b1 s1)"

text \<open>A connection from its request to its end.\<close>

definition wsBot ::
    "(token, 'd) dbtable \<Rightarrow> 's redis \<Rightarrow> 's mq \<Rightarrow> int \<Rightarrow> int \<Rightarrow> string \<Rightarrow> string \<Rightarrow> bool \<Rightarrow> conn \<Rightarrow> string list \<Rightarrow>
     bridge \<Rightarrow> 'd \<Rightarrow> 's \<Rightarrow> ws_outcome \<times> bridge \<times> 'd \<times> 's" where
  "wsBot T R Q now sec query header upgraded c msgs b d s =
     (case ws_open T R now sec query header upgraded c b d s of
        (WsOpen token, b1, d1, s1) \<Rightarrow>
          (case ws_read R Q token msgs b1 s1 of
             (b2, s2) \<Rightarrow>
               (case UnregisterBot R token (Some c) b2 s2 of (b3, s3) \<Rightarrow> (WsOpen token, b3, d1, s3)))
      | r \<Rightarrow> r)"

end
