(* ===== verification/Access.thy ===== *)
theory Access
  imports Routes
begin

text \<open>
  Who gets at what: the lemmas on the routes and the handlers of \<open>Handlers\<close> and \<open>Routes\<close>. A handler
  runs only for a request its checks admit; deleting a token ends its access, its sessions and its
  bot's registration; the token list is bounded; the administrator's password is set up once.
\<close>

section \<open>Guards\<close>

text \<open>The routes that need a token.\<close>

definition token_route :: "route \<Rightarrow> bool" where
  "token_route r = (case r of UploadMedia \<Rightarrow> True | ChatSSE \<Rightarrow> True | ListSessions \<Rightarrow> True | CreateChatSession \<Rightarrow> True | _ \<Rightarrow> False)"

lemma SetupRouter_cases:
  assumes "SetupRouter meth path = Some rt"
  obtains "((meth, path), rt) \<in> set static_routes"
  | tok where "path = ''/api/admin/tokens/'' @ tok" "tok \<noteq> ''''" "CHR ''/'' \<notin> set tok"
      "meth = ''PATCH'' \<and> rt = AdminUpdateToken tok \<or> meth = ''DELETE'' \<and> rt = AdminDeleteToken tok"
proof (cases "map_of static_routes (meth, path)")
  case (Some r)
  with assms that(1) map_of_SomeD [OF Some] show ?thesis by (simp add: SetupRouter_def)
next
  case None
  with assms have p: "has_prefix path ''/api/admin/tokens/''"
    by (simp add: SetupRouter_def split: if_splits)
  then obtain tok where "path = ''/api/admin/tokens/'' @ tok"
    by (metis has_prefix_def append_take_drop_id)
  with assms None that(2) [of tok] show ?thesis by (auto simp: SetupRouter_def Let_def split: if_splits)
qed

lemma admin_unprotected:
  assumes "SetupRouter meth path = Some rt" "admin_group rt"
  shows "\<not> isProtected path"
  using assms(1)
proof (rule SetupRouter_cases)
  assume "((meth, path), rt) \<in> set static_routes"
  with assms(2) show ?thesis
    by (auto simp: static_routes_def admin_group_def isProtected_def excludedPaths_def protectedPrefixes_def has_prefix_def)
next
  fix tok assume "path = ''/api/admin/tokens/'' @ tok"
  then show ?thesis by (simp add: isProtected_def excludedPaths_def protectedPrefixes_def has_prefix_def)
qed

lemma token_protected:
  assumes "SetupRouter meth path = Some rt" "token_route rt"
  shows "isProtected path"
  using assms(1)
proof (rule SetupRouter_cases)
  assume "((meth, path), rt) \<in> set static_routes"
  with assms(2) show ?thesis
    by (auto simp: static_routes_def token_route_def isProtected_def excludedPaths_def protectedPrefixes_def has_prefix_def)
next
  fix tok assume "meth = ''PATCH'' \<and> rt = AdminUpdateToken tok \<or> meth = ''DELETE'' \<and> rt = AdminDeleteToken tok"
  with assms(2) show ?thesis by (auto simp: token_route_def)
qed

text \<open>The token a request carries.\<close>

definition request_token :: "string \<Rightarrow> string \<Rightarrow> string" where
  "request_token apiKey auth = extractBearer (if apiKey = '''' then auth else apiKey)"

lemma adminAuthMiddleware_reply:
  "redis_up R view \<Longrightarrow> (\<exists>u. fst (adminAuthMiddleware R cookie s) = Inr u) \<longleftrightarrow> session_live (view s) cookie"
  "redis_up R view \<Longrightarrow> view (snd (adminAuthMiddleware R cookie s)) = view s"
proof -
  assume up: "redis_up R view"
  obtain v s1 where v: "ValidateSession R cookie s = (v, s1)" by (cases "ValidateSession R cookie s")
  show "(\<exists>u. fst (adminAuthMiddleware R cookie s) = Inr u) \<longleftrightarrow> session_live (view s) cookie"
    "view (snd (adminAuthMiddleware R cookie s)) = view s"
    using redis_up.ValidateSession_reply [OF up, of cookie s] v by (cases v; simp add: adminAuthMiddleware_def)+
qed

context auth_backend begin

lemma admit_token_route:
  assumes ok: "auth_cache_ok (rows d) now (view s)" and rt: "SetupRouter meth path = Some rt" "token_route rt"
  shows "(\<exists>tok. fst (admit T R None now meth path apiKey auth cookie d s) = Run rt tok) \<longleftrightarrow>
      valid_token (rows d) now (request_token apiKey auth)"
    and "fst (admit T R None now meth path apiKey auth cookie d s) = Run rt tok \<Longrightarrow>
      tok = Some (request_token apiKey auth)"
proof -
  obtain r d1 s1 where ta: "TokenAuth T R now path apiKey auth d s = (r, d1, s1)" by (metis prod_cases3)
  note A = TokenAuth_ok [OF ok token_protected [OF rt] ta, folded request_token_def]
  have "\<not> admin_group rt" using rt(2) by (auto simp: token_route_def admin_group_def split: route.splits)
  then show "(\<exists>tok. fst (admit T R None now meth path apiKey auth cookie d s) = Run rt tok) \<longleftrightarrow>
      valid_token (rows d) now (request_token apiKey auth)"
    "fst (admit T R None now meth path apiKey auth cookie d s) = Run rt tok \<Longrightarrow>
      tok = Some (request_token apiKey auth)"
    using A(1,2) ta rt(1) by (auto simp: admit_def split: sum.splits)
qed

lemma admit_admin_route:
  assumes rt: "SetupRouter meth path = Some rt" "admin_group rt"
  shows "(\<exists>tok. fst (admit T R None now meth path apiKey auth cookie d s) = Run rt tok) \<longleftrightarrow>
      session_live (view s) cookie"
proof -
  obtain r s2 where m: "adminAuthMiddleware R cookie s = (r, s2)" by (cases "adminAuthMiddleware R cookie s")
  have "TokenAuth T R now path apiKey auth d s = (Inr None, d, s)"
    using admin_unprotected [OF rt] by (simp add: TokenAuth_def)
  then show ?thesis
    using adminAuthMiddleware_reply(1) [OF redis_up_axioms, of cookie s] m rt
    by (auto simp: admit_def split: sum.splits)
qed

end

text \<open>A request ended by the CORS library reaches no handler.\<close>

lemma admit_cors: "admit T R (Some r) now meth path apiKey auth cookie d s = (Answered r, d, s)"
  by (simp add: admit_def)

section \<open>Two tables of one database\<close>

text \<open>The tokens and the chat sessions: writing one leaves the other.\<close>

locale token_database = auth_backend R view T rows cast
  for R :: "'s redis" and view :: "'s \<Rightarrow> store"
    and T :: "(token, 'd) dbtable" and rows :: "'d \<Rightarrow> token list" and cast :: "token \<Rightarrow> token" +
  fixes S :: "(chat_session, 'd) dbtable" and srows :: "'d \<Rightarrow> chat_session list"
    and scast :: "chat_session \<Rightarrow> chat_session"
  assumes sessions: "session_backend R view S srows scast"
    and sessions_only: "rows (snd (tb_delete S P d)) = rows d"
    and tokens_only: "srows (snd (tb_delete T P' d)) = srows d"

text \<open>A component of a larger state, as a table of its own.\<close>

definition on_part :: "('e \<Rightarrow> 'd) \<Rightarrow> ('d \<Rightarrow> 'e \<Rightarrow> 'e) \<Rightarrow> ('d, 'a) dbcall \<Rightarrow> ('e, 'a) dbcall" where
  "on_part get put f e = (case f (get e) of (r, d) \<Rightarrow> (r, put d e))"

definition part_table :: "('e \<Rightarrow> 'd) \<Rightarrow> ('d \<Rightarrow> 'e \<Rightarrow> 'e) \<Rightarrow> ('r, 'd) dbtable \<Rightarrow> ('r, 'e) dbtable" where
  "part_table get put T = \<lparr>
     tb_create = (\<lambda>r. on_part get put (tb_create T r)),
     tb_first = (\<lambda>P. on_part get put (tb_first T P)),
     tb_find = (\<lambda>P. on_part get put (tb_find T P)),
     tb_page = (\<lambda>P le lim off. on_part get put (tb_page T P le lim off)),
     tb_count = (\<lambda>P. on_part get put (tb_count T P)),
     tb_delete = (\<lambda>P. on_part get put (tb_delete T P)),
     tb_update = (\<lambda>P f. on_part get put (tb_update T P f)) \<rparr>"

lemma part_table_up:
  assumes "table_up T rows key cast" and get: "\<And>d e. get (put d e) = d"
  shows "table_up (part_table get put T) (\<lambda>e. rows (get e)) key cast"
proof -
  note U = assms(1) [unfolded table_up_def]
  have on: "fst (on_part get put f e) = fst (f (get e))" "get (snd (on_part get put f e)) = snd (f (get e))" for f e
    by (simp_all add: on_part_def case_prod_beta get)
  show ?thesis
    using U by unfold_locales (simp_all add: part_table_def on)
qed

definition mem_tokens_table :: "(token, token list \<times> chat_session list) dbtable" where
  "mem_tokens_table = part_table fst (\<lambda>x e. (x, snd e)) (mem_table tk_token token_cast)"

definition mem_sessions_table :: "(chat_session, token list \<times> chat_session list) dbtable" where
  "mem_sessions_table = part_table snd (\<lambda>x e. (fst e, x)) (mem_table cs_id session_cast)"

interpretation mem_database: token_database mem_redis "\<lambda>s. s" mem_tokens_table fst token_cast
  mem_sessions_table snd session_cast
proof -
  have k: "tk_token (token_cast r) = tk_token r" "cs_id (session_cast x) = cs_id x" for r x
    by (simp_all add: token_cast_def session_cast_def)
  have "table_up mem_tokens_table fst tk_token token_cast"
    using part_table_up [OF mem_table_up [of tk_token token_cast, OF k(1)], of fst "\<lambda>x e. (x, snd e)"]
    by (simp add: mem_tokens_table_def)
  then have "token_backend mem_tokens_table fst token_cast"
    by (intro token_backend.intro token_backend_axioms.intro) (simp_all add: token_cast_def)
  moreover have "table_up mem_sessions_table snd cs_id session_cast"
    using part_table_up [OF mem_table_up [of cs_id session_cast, OF k(2)], of snd "\<lambda>x e. (fst e, x)"]
    by (simp add: mem_sessions_table_def)
  then have "session_backend mem_redis (\<lambda>s. s) mem_sessions_table snd session_cast"
    by (intro session_backend.intro mem.redis_up_axioms session_backend_axioms.intro) (simp_all add: session_cast_def)
  ultimately show "token_database mem_redis (\<lambda>s. s) mem_tokens_table fst token_cast mem_sessions_table snd session_cast"
    by (intro token_database.intro auth_backend.intro mem.redis_up_axioms token_database_axioms.intro)
      (simp_all add: mem_tokens_table_def mem_sessions_table_def part_table_def on_part_def case_prod_beta)
qed

section \<open>A deleted token\<close>

context auth_backend begin

lemma validateCached_uncached:
  assumes "kv (view s) (cachePrefix @ t) = None"
  shows "fst (validateCached T R now t d s) \<longleftrightarrow> valid_token (rows d) now t"
proof -
  have "fst (rd_get R (cachePrefix @ t) s) \<noteq> Inr ''1''" using assms by (simp add: get_one str_at_def)
  then show ?thesis
    by (simp add: validateCached_def Let_def case_prod_beta Validate_reply)
qed

lemma invalid_refused:
  assumes "kv (view s) (cachePrefix @ request_token apiKey auth) = None" "isProtected path"
    "\<not> valid_token (rows d) now (request_token apiKey auth)"
  shows "\<exists>r. fst (TokenAuth T R now path apiKey auth d s) = Inl r \<and> hr_status (rs_reply r) = 401"
proof -
  let ?t = "request_token apiKey auth"
  obtain v d1 s1 where v: "validateCached T R now ?t d s = (v, d1, s1)" by (metis prod_cases3)
  then have "\<not> v" using validateCached_uncached [OF assms(1), of now d] assms(3) by simp
  with v assms(2) show ?thesis by (simp add: TokenAuth_def Let_def request_token_def json_reply_def)
qed

end

context token_database begin

lemma RemoveBotSessions_rows:
  "rows (fst (snd (snd (RemoveBotSessions S R Q t b d s)))) = rows d"
  "srows (fst (snd (snd (RemoveBotSessions S R Q t b d s)))) = filter (\<lambda>x. cs_token x \<noteq> t) (srows d)"
proof -
  obtain r d1 s1 where e: "RemoveSessions S R t d s = (r, d1, s1)" by (metis prod_cases3)
  have d1: "d1 = snd (tb_delete S (of_token t) d)" using e by (auto simp: RemoveSessions_def case_prod_beta split: sum.splits)
  have st: "srows d1 = filter (\<lambda>x. cs_token x \<noteq> t) (srows d)"
    using table_up.delete_rows [OF session_backend.axioms(2) [OF sessions], of "of_token t" d] d1
    by (simp add: of_token_def)
  have "fst (snd (snd (RemoveBotSessions S R Q t b d s))) = d1"
    using e by (auto simp: RemoveBotSessions_def case_prod_beta Let_def split: sum.splits option.splits)
  then show "rows (fst (snd (snd (RemoveBotSessions S R Q t b d s)))) = rows d"
    "srows (fst (snd (snd (RemoveBotSessions S R Q t b d s)))) = filter (\<lambda>x. cs_token x \<noteq> t) (srows d)"
    using st d1 sessions_only by simp_all
qed

lemma adminDeleteToken_ok:
  assumes "adminDeleteToken T S R Q t b d s = (resp, b', d', s')"
  shows "resp = json_ok []" and "rows d' = filter (\<lambda>x. tk_token x \<noteq> t) (rows d)"
    and "srows d' = filter (\<lambda>x. cs_token x \<noteq> t) (srows d)" and "kv (view s') (cachePrefix @ t) = None"
proof -
  obtain r1 d1 s1 where rm: "Remove T R t d s = (r1, d1, s1)" by (metis prod_cases3)
  note X = removed_invalid [OF rm]
  have sd1: "srows d1 = srows d" using rm tokens_only by (auto simp: Remove_def case_prod_beta split: sum.splits)
  obtain r2 b2 d2 s2 where rb: "RemoveBotSessions S R Q t b d1 s1 = (r2, b2, d2, s2)" by (metis prod_cases4)
  have "resp = json_ok [] \<and> d' = d2 \<and> s' = InvalidateTokenCache R t s2"
    using assms rm X(1) rb by (simp add: adminDeleteToken_def)
  moreover have "kv (view (InvalidateTokenCache R t s2)) (cachePrefix @ t) = None"
    by (simp add: InvalidateTokenCache_def sem_del_def)
  ultimately show "resp = json_ok []" "rows d' = filter (\<lambda>x. tk_token x \<noteq> t) (rows d)"
    "srows d' = filter (\<lambda>x. cs_token x \<noteq> t) (srows d)" "kv (view s') (cachePrefix @ t) = None"
    using RemoveBotSessions_rows [of Q t b d1 s1] rb X(2) sd1 by simp_all
qed

lemma deleted_refused:
  assumes "adminDeleteToken T S R Q t b d s = (resp, b', d', s')" and "isProtected path" "request_token apiKey auth = t"
  shows "\<exists>r. fst (TokenAuth T R now path apiKey auth d' s') = Inl r \<and> hr_status (rs_reply r) = 401"
proof (rule invalid_refused [OF _ assms(2)])
  note D = adminDeleteToken_ok [OF assms(1)]
  show "kv (view s') (cachePrefix @ request_token apiKey auth) = None"
    "\<not> valid_token (rows d') now (request_token apiKey auth)" using D(2,4) assms(3) by (auto simp: valid_token_def)
qed

text \<open>A bot held by another worker, or by none, is forgotten with its token.\<close>

lemma token_cache_shared:
  "shared_of (snd (sem_del [cachePrefix @ t] st)) = shared_of st \<and> bots_ok (snd (sem_del [cachePrefix @ t] st)) = bots_ok st"
  by (rule shared_cong) (simp_all add: sem_del_def drop_key_def cachePrefix_def key_defs)

lemma deleted_unregistered:
  assumes e: "adminDeleteToken T S R (NewRedisStreamQueue R n) t b d s = (resp, b', d', s')"
    and ok: "bots_ok (view s)" and no: "map_of (b_bots b) t = None"
  shows "shared_of (view s') = sh_forget {t} (shared_of (view s))"
proof -
  let ?Q = "NewRedisStreamQueue R n"
  obtain r1 d1 s1 where rm: "Remove T R t d s = (r1, d1, s1)" by (metis prod_cases3)
  have s1: "view s1 = snd (sem_del [cachePrefix @ t] (view s))"
    using rm removed_invalid(1) [OF rm] by (auto simp: Remove_def cachePrefix_def case_prod_beta split: sum.splits)
  obtain r2 b2 d2 s2 where rb: "RemoveBotSessions S R ?Q t b d1 s1 = (r2, b2, d2, s2)" by (metis prod_cases4)
  have ok1: "bots_ok (view s1)" using token_cache_shared [of t "view s"] ok s1 by simp
  have "\<exists>k. fst (tb_delete S (of_token t) d1) = Inr k"
    using table_up.delete [OF session_backend.axioms(2) [OF sessions], of "of_token t" d1] by simp
  note F = RemoveBotSessions_remote [OF ok1 no this rb]
  have "s' = InvalidateTokenCache R t s2" using e rm removed_invalid(1) [OF rm] rb by (simp add: adminDeleteToken_def)
  then have "shared_of (view s') = shared_of (view s2)"
    using token_cache_shared [of t "view s2"] by (simp add: InvalidateTokenCache_def)
  with F s1 token_cache_shared [of t "view s"] show ?thesis by simp
qed

end

section \<open>The token list\<close>

lemma page_slice_window:
  assumes "1 \<le> p" "0 \<le> n" "fits64 (p * n)" "fits64 p"
  shows "page_slice p n xs = Some (take (nat n) (drop (nat ((p - 1) * n)) xs))"
proof -
  have le: "(p - 1) * n \<le> p * n" "0 \<le> (p - 1) * n" using assms by (simp_all add: mult_right_mono)
  have f: "fits64 (p - 1)" "fits64 ((p - 1) * n)"
    using assms le unfolding fits64_def min_int64_def by (intro conjI; linarith)+
  have pn: "(p - 1) * n + n = p * n" by (simp add: algebra_simps)
  have w: "wrap64 (wrap64 (p - 1) * n) = (p - 1) * n" "wrap64 ((p - 1) * n + n) = p * n"
    using f assms(3) by (simp_all only: wrap64_id pn)
  let ?off = "(p - 1) * n" and ?len = "int (length xs)"
  have s: "page_slice p n xs = go_slice (min ?off ?len) (min (p * n) ?len) xs"
    by (simp only: page_slice_def Let_def w) (simp add: min_def)
  have "take (nat (min (p * n) ?len - min ?off ?len)) (drop (nat (min ?off ?len)) xs) = take (nat n) (drop (nat ?off) xs)"
  proof (cases "?off \<le> ?len")
    case False
    then have "length xs \<le> nat ?off" by linarith
    with False le pn show ?thesis by (simp add: min_def)
  next
    case True
    show ?thesis
    proof (cases "p * n \<le> ?len")
      case True
      moreover have "p * n - ?off = n" using pn by simp
      ultimately show ?thesis using le by (simp add: min_def)
    next
      case False
      then have "length (drop (nat ?off) xs) \<le> nat n" "length (drop (nat ?off) xs) \<le> nat (?len - ?off)"
        using True pn le by auto
      with True False show ?thesis by (simp add: min_def)
    qed
  qed
  moreover have "0 \<le> min ?off ?len \<and> min ?off ?len \<le> min (p * n) ?len \<and> min (p * n) ?len \<le> ?len" using le by simp
  ultimately show ?thesis by (simp add: s go_slice_def)
qed

text \<open>Past the range of \<open>int\<close> the offset is negative, and the slice panics.\<close>

lemma page_slice_overflow: "page_slice max_int64 100 xs = None"
proof -
  have "wrap64 (wrap64 (max_int64 - 1) * 100) = - 200" by code_simp
  then show ?thesis by (simp add: page_slice_def Let_def go_slice_def)
qed

lemma clamp_bounds: "1 \<le> clamp_page p" "1 \<le> clamp_size n" "clamp_size n \<le> 100"
  by (simp_all add: clamp_page_def clamp_size_def Let_def)

context token_backend begin

lemma listTokens_bounded:
  assumes c: "\<And>a b. collate a b \<or> collate b a" "\<And>a b c. collate a b \<Longrightarrow> collate b c \<Longrightarrow> collate a c"
    and srt: "\<And>l xs. length (srt l xs) = length xs"
    and p: "clamp_page (fst (atoi (query_or q ''page'' ''1''))) * 100 \<le> max_int64"
  shows "\<exists>items all page n online tokens.
    fst (listTokens srt T R collate now sec q d s) = Some (token_list_reply items all page n online tokens) \<and>
    int (length items) \<le> n \<and> n \<le> 100"
proof -
  define page where "page = clamp_page (fst (atoi (query_or q ''page'' ''1'')))"
  define n where "n = clamp_size (fst (atoi (query_or q ''page_size'' ''20'')))"
  note B = clamp_bounds(1) [of "fst (atoi (query_or q ''page'' ''1''))", folded page_def]
    clamp_bounds(2,3) [of "fst (atoi (query_or q ''page_size'' ''20''))", folded n_def]
  have "page * n \<le> page * 100" using B by (intro mult_left_mono) simp_all
  then have pn: "page * n \<le> max_int64" using p by (simp add: page_def)
  have pos: "0 \<le> page * n" using B by simp
  have "page * 1 \<le> page * n" using B by (intro mult_left_mono) simp_all
  then have f: "fits64 page" "fits64 (page * n)"
    using B pn pos unfolding fits64_def min_int64_def mult_1_right by (intro conjI; linarith)+
  have "(page - 1) * n \<le> page * n" "0 \<le> (page - 1) * n" using B by (simp_all add: mult_right_mono)
  then have f2: "fits64 ((page - 1) * n)"
    using pn unfolding fits64_def min_int64_def by (intro conjI; linarith)
  let ?search = "query_or q ''search'' ''''" and ?sb = "query_or q ''sort_by'' ''created_at''"
    and ?so = "query_or q ''sort_order'' ''desc''" and ?bs = "query_or q ''bot_status'' ''''"
  have window: "\<exists>res rs. fst (ListPaged T collate now p n search sb so d) = Inr res \<and>
      tl_items res = map token_item_of (take (nat n) (drop (nat ((p - 1) * n)) rs))"
    if "1 \<le> p" "0 \<le> n" "fits64 p" "fits64 ((p - 1) * n)" for p n search sb so
  proof -
    have "\<exists>rs res. ordered_rows (list_filter now search) (order_of collate sb so) (rows d) rs \<and>
        fst (ListPaged T collate now p n search sb so d) = Inr res \<and>
        tl_items res = map token_item_of (take (nat n) (drop (nat ((p - 1) * n)) rs)) \<and>
        tl_total res = int (length rs)"
      by (rule ListPaged_window) (use c that in \<open>blast+\<close>)
    then show ?thesis by blast
  qed
  show ?thesis
  proof (cases "?sb = ''bot_online''")
    case True
    obtain res where res: "fst (ListPaged T collate now 1 5000 ?search ''created_at'' ''desc'' d) = Inr res"
      using window [of 1 5000 ?search "''created_at''" "''desc''"] by (auto simp: fits64_def min_int64_def max_int64_def)
    define xs where "xs = map (token_info_of (fst (BulkCheckBotOnline R sec (map ti_token (tl_items res)) s))) (tl_items res)"
    define ys where "ys = srt (bot_less (?so = ''desc'')) (if ?bs = ''online'' then filter tf_online xs else xs)"
    have "fst (listTokens srt T R collate now sec q d s) =
        map_option (\<lambda>items. token_list_reply items (int (length ys)) page n (int (length (filter tf_online xs))) (int (length xs)))
          (page_slice page n ys)"
      using True res
      by (simp add: listTokens_def listTokensWithBotSort_def Let_def case_prod_beta page_def n_def xs_def ys_def)
    moreover have "page_slice page n ys = Some (take (nat n) (drop (nat ((page - 1) * n)) ys))"
      using B f by (intro page_slice_window) simp_all
    ultimately have "fst (listTokens srt T R collate now sec q d s) =
        Some (token_list_reply (take (nat n) (drop (nat ((page - 1) * n)) ys)) (int (length ys)) page n
          (int (length (filter tf_online xs))) (int (length xs)))"
      by simp
    moreover have "int (length (take (nat n) (drop (nat ((page - 1) * n)) ys))) \<le> n" using B by simp
    ultimately show ?thesis using B(3) by blast
  next
    case False
    obtain rs res where res: "fst (ListPaged T collate now page n ?search ?sb ?so d) = Inr res"
        "tl_items res = map token_item_of (take (nat n) (drop (nat ((page - 1) * n)) rs))"
      using window [of page n ?search ?sb ?so] B f f2 by auto
    define xs where "xs = map (token_info_of (fst (BulkCheckBotOnline R sec (map ti_token (tl_items res)) s))) (tl_items res)"
    define ys where "ys = (if ?bs = ''online'' then filter tf_online xs else xs)"
    have "length xs \<le> nat n" by (simp add: xs_def res(2))
    moreover have "length ys \<le> length xs" by (simp add: ys_def)
    ultimately have len: "int (length ys) \<le> n" using B by linarith
    have "\<exists>all online tokens. fst (listTokens srt T R collate now sec q d s) =
        Some (token_list_reply ys all page n online tokens)"
      using False res(1)
      by (auto simp: listTokens_def Let_def case_prod_beta page_def [symmetric] n_def [symmetric]
          xs_def [symmetric] ys_def)
    with len B(3) show ?thesis by blast
  qed
qed

end

section \<open>Setting up the administrator\<close>

context admin_backend begin

lemma IsPasswordSet_reply:
  "fst (IsPasswordSet T d) = Inr (config_value (rows d) ''password_hash'' \<noteq> None)" "rows (snd (IsPasswordSet T d)) = rows d"
proof -
  have "length (filter (has_name k) rs) > 0 \<longleftrightarrow> find (has_name k) rs \<noteq> None" for k rs
    by (induction rs) auto
  then show "fst (IsPasswordSet T d) = Inr (config_value (rows d) ''password_hash'' \<noteq> None)"
    by (simp add: IsPasswordSet_def case_prod_beta config_value_def)
  show "rows (snd (IsPasswordSet T d)) = rows d"
    by (simp add: IsPasswordSet_def case_prod_beta split: sum.splits)
qed

lemma setup_refused:
  assumes "config_value (rows d) ''password_hash'' \<noteq> None"
    and "adminAuthSetup B T commit R bytes body d s = (resp, d', s')"
  shows "resp = MetricsErrorResponse ErrAdminPasswordExists" "rows d' = rows d" "s' = s"
proof -
  obtain r d1 where i: "IsPasswordSet T d = (r, d1)" by (cases "IsPasswordSet T d")
  with IsPasswordSet_reply [of d] assms(1) have "r = Inr True" "rows d1 = rows d" by simp_all
  with assms(2) i show "resp = MetricsErrorResponse ErrAdminPasswordExists" "rows d' = rows d" "s' = s"
    by (simp_all add: adminAuthSetup_def)
qed

lemma setup_effective:
  assumes "config_value (rows d) ''password_hash'' = None" and "sessions_indexed (view s)" and "bs \<noteq> []"
    and j: "struct_body body = Some j" "struct_field (Some j) ''password'' = Some (JStr p)"
    and len: "8 \<le> length p" "length p \<le> 72"
    and e: "adminAuthSetup B T commit R (Some bs) body d s = (resp, d', s')"
  shows "resp = session_cookie (hex_encode bs)" and "session_live (view s') t \<longleftrightarrow> t = hex_encode bs"
    and "fst (VerifyPassword B T commit R p d' s2) = Inr True"
    and "config_value (rows d') ''password_hash'' \<noteq> None"
proof -
  obtain r d1 where i: "IsPasswordSet T d = (r, d1)" by (cases "IsPasswordSet T d")
  with IsPasswordSet_reply [of d] assms(1) have r: "r = Inr False" "rows d1 = rows d" by simp_all
  obtain h where h: "bc_hash B p = Inr h" using hash_short len(2) by blast
  obtain r2 d2 s2' where sp: "SetPassword B T commit R p d1 s = (r2, d2, s2')" by (metis prod_cases3)
  note S = SetPassword_ok [OF len(2) h, of d1 s, unfolded sp]
  note E = SetPassword_ends_sessions [OF len(2) assms(2), of d1, unfolded sp]
  have ix: "sessions_indexed (view s2')" using E(2) by simp
  obtain r3 s3 where cs: "CreateAdminSession R (Some bs) s2' = (r3, s3)" by (cases "CreateAdminSession R (Some bs) s2'")
  note C = CreateAdminSession_ok [OF ix, of bs, unfolded cs]
  have res: "resp = session_cookie (hex_encode bs) \<and> d' = d2 \<and> s' = s3"
    using e i r j len sp S(1) cs C(1)
    by (simp add: adminAuthSetup_def Let_def struct_str_def struct_str_err_def)
  then show "resp = session_cookie (hex_encode bs)" by simp
  have "hex_encode bs \<noteq> []" using assms(3) by (cases bs) (simp_all add: hex_encode_def hex_byte_def)
  then show "session_live (view s') t \<longleftrightarrow> t = hex_encode bs" using C(2) [of t] E(1) [of t] res by auto
  show "fst (VerifyPassword B T commit R p d' s2) = Inr True"
    using set_then_verify(2) [OF len(2), of d1 s s2] res sp by simp
  show "config_value (rows d') ''password_hash'' \<noteq> None" using S(2) res by simp
qed

end

end
