(* ===== verification/Gateway.thy ===== *)
theory Gateway
  imports Storage Float64
begin

text \<open>
  The iFlytek gateway provider (\<open>internal/infra/storage/ifly_gateway.go\<close>): the signed upload request
  and the reading of its answer. Base64, HMAC-SHA256 and the HTTP date of Go's standard library are
  written out; the HTTP client is a parameter.
\<close>

unbundle bit_operations_syntax

section \<open>From the standard library\<close>

definition word_bytes :: "w32 \<Rightarrow> nat list" where
  "word_bytes w = (let n = unat w in [n div 2 ^ 24 mod 256, n div 2 ^ 16 mod 256, n div 2 ^ 8 mod 256, n mod 256])"

definition sha256_bytes :: "nat list \<Rightarrow> nat list" where
  "sha256_bytes bs = (let ps = sha_pad bs in concat (map word_bytes (sha_blocks (length ps div 64) sha_init ps)))"

definition hmac_sha256 :: "nat list \<Rightarrow> nat list \<Rightarrow> nat list" where
  "hmac_sha256 key msg =
     (let k0 = (if length key > 64 then sha256_bytes key else key);
          k = k0 @ replicate (64 - length k0) 0
      in sha256_bytes (map (\<lambda>b. b XOR 0x5C) k @ sha256_bytes (map (\<lambda>b. b XOR 0x36) k @ msg)))"

definition b64_char :: "nat \<Rightarrow> char" where
  "b64_char n =
     (if n < 26 then char_of (65 + n) else if n < 52 then char_of (97 + (n - 26))
      else if n < 62 then char_of (48 + (n - 52)) else if n = 62 then CHR ''+'' else CHR ''/'')"

fun base64 :: "nat list \<Rightarrow> string" where
  "base64 [] = []"
| "base64 [a] = [b64_char (a div 4), b64_char (a mod 4 * 16), CHR ''='', CHR ''='']"
| "base64 [a, b] = [b64_char (a div 4), b64_char (a mod 4 * 16 + b div 16), b64_char (b mod 16 * 4), CHR ''='']"
| "base64 (a # b # c # rest) =
     b64_char (a div 4) # b64_char (a mod 4 * 16 + b div 16) # b64_char (b mod 16 * 4 + c div 64) #
     b64_char (c mod 64) # base64 rest"

text \<open>Year, month and day of a number of days since 1970, in the Gregorian calendar.\<close>

definition civil :: "int \<Rightarrow> int \<times> int \<times> int" where
  "civil days =
     (let z = days + 719468; era = z div 146097; doe = z - era * 146097;
          yoe = (doe - doe div 1460 + doe div 36524 - doe div 146096) div 365;
          doy = doe - (365 * yoe + yoe div 4 - yoe div 100);
          mp = (5 * doy + 2) div 153;
          m = (if mp < 10 then mp + 3 else mp - 9)
      in (yoe + era * 400 + (if m \<le> 2 then 1 else 0), m, doy - (153 * mp + 2) div 5 + 1))"

definition two_digits :: "int \<Rightarrow> string" where
  "two_digits n = (if n < 10 then ''0'' @ itoa n else itoa n)"

definition month_names :: "string list" where
  "month_names = [''Jan'', ''Feb'', ''Mar'', ''Apr'', ''May'', ''Jun'', ''Jul'', ''Aug'', ''Sep'', ''Oct'', ''Nov'', ''Dec'']"

definition day_names :: "string list" where
  "day_names = [''Sun'', ''Mon'', ''Tue'', ''Wed'', ''Thu'', ''Fri'', ''Sat'']"

text \<open>\<open>http.TimeFormat\<close>, for years of four digits.\<close>

definition http_date :: "int \<Rightarrow> string" where
  "http_date sec =
     (let days = sec div 86400; t = sec mod 86400 in
      case civil days of (y, m, d) \<Rightarrow>
        day_names ! nat ((days + 4) mod 7) @ '', '' @ two_digits d @ '' '' @ month_names ! nat (m - 1) @ '' '' @
        itoa y @ '' '' @ two_digits (t div 3600) @ '':'' @ two_digits (t div 60 mod 60) @ '':'' @
        two_digits (t mod 60) @ '' GMT'')"

definition query_escape :: "string \<Rightarrow> string" where
  "query_escape s = concat (map (\<lambda>c.
     if is_alnum c \<or> c \<in> set ''-_.~'' then [c] else if c = CHR '' '' then ''+'' else pct c) s)"

text \<open>\<open>url.Values.Encode\<close>, on the entries in the order of their keys.\<close>

definition values_encode :: "(string \<times> string) list \<Rightarrow> string" where
  "values_encode kvs = str_join ''&'' (map (\<lambda>(k, v). query_escape k @ ''='' @ query_escape v) kvs)"

definition url_hostname :: "url \<Rightarrow> string" where
  "url_hostname u =
     (let h = (case cut_last (CHR '':'') (u_host u) of
                 Some (a, b) \<Rightarrow> if valid_optional_port ('':'' @ b) then a else u_host u
               | None \<Rightarrow> u_host u)
      in if has_prefix h ''['' \<and> has_suffix h '']'' then butlast (tl h) else h)"

section \<open>The signature\<close>

definition LF1 :: string where "LF1 = [CHR 0x0A]"

definition signature_text :: "string \<Rightarrow> string \<Rightarrow> string \<Rightarrow> string \<Rightarrow> string \<Rightarrow> string" where
  "signature_text host date meth path digest =
     ''host: '' @ host @ LF1 @ ''date: '' @ date @ LF1 @ meth @ '' '' @ path @ '' HTTP/1.1'' @ LF1 @ ''digest: '' @ digest"

definition buildAuthHeader ::
    "int \<Rightarrow> string \<Rightarrow> string \<Rightarrow> string \<Rightarrow> string \<Rightarrow> string + (string \<times> string) list" where
  "buildAuthHeader now rawURL meth apiKey apiSecret =
     (case url_parse rawURL of
        None \<Rightarrow> Inl ''parse URL''
      | Some u \<Rightarrow>
          let host = url_hostname u;
              path = u_path u;
              date = http_date now;
              digest = ''SHA256='' @ base64 (sha256_bytes []);
              signatureStr = signature_text host date meth path digest;
              sign = base64 (hmac_sha256 (map of_char apiSecret) (map of_char signatureStr));
              q = [CHR 0x22];
              authHeader = ''api_key='' @ q @ apiKey @ q @ '', algorithm='' @ q @ ''hmac-sha256'' @ q @ '', headers='' @ q @
                ''host date request-line digest'' @ q @ '', signature='' @ q @ sign @ q
          in Inr [(''Method'', meth), (''Host'', host), (''Date'', date), (''Digest'', digest),
                  (''Authorization'', authHeader)])"

section \<open>Uploading\<close>

record http_request =
  hq_method :: string
  hq_url :: string
  hq_headers :: "(string \<times> string) list"
  hq_body :: string

definition gateway_url :: "storage_config \<Rightarrow> string \<Rightarrow> string" where
  "gateway_url cfg filename =
     sc_endpoint cfg @ ''/api/v1/'' @ sc_bucket cfg @ ''?'' @
     values_encode [(''expose'', ''true''), (''filename'', filename), (''get_link'', ''true''), (''link_ttl'', itoa (sc_ttl cfg))]"

definition key_filename :: "string \<Rightarrow> string" where
  "key_filename key = (case cut_last (CHR ''/'') key of Some (_, f) \<Rightarrow> f | None \<Rightarrow> key)"

text \<open>What is made of the answer.\<close>

definition gateway_answer :: "int \<times> string \<Rightarrow> string + string" where
  "gateway_answer resp =
     (case resp of (status, body) \<Rightarrow>
        if status \<noteq> 200 then
          Inl (''iFlytek Gateway upload failed: status='' @ itoa status @ '', body='' @ take 500 body)
        else
          let j = (case json_unmarshal body of Some (JObj m) \<Rightarrow> Some (JObj m) | Some JNull \<Rightarrow> Some JNull | _ \<Rightarrow> None);
              dat = struct_field j ''data'';
              badData = (case dat of None \<Rightarrow> False | Some JNull \<Rightarrow> False | Some (JObj _) \<Rightarrow> struct_str_err dat ''link'' | _ \<Rightarrow> True);
              code = struct_int j ''code'' 0;
              link = struct_str dat ''link''
          in if j = None \<or> struct_int_err j ''code'' \<or> badData then Inl ''parse response''
             else if code \<noteq> 0 then Inl (''iFlytek Gateway rejected: code='' @ itoa code @ '', body='' @ body)
             else if link = '''' then Inl ''iFlytek Gateway response missing link field''
             else Inr link)"

text \<open>\<open>send\<close> is the HTTP client, \<open>now\<close> the second of the request.\<close>

definition IFlyPutObject ::
    "(http_request \<Rightarrow> 'o \<Rightarrow> (string + int \<times> string) \<times> 'o) \<Rightarrow> int \<Rightarrow> storage_config \<Rightarrow> 'o put_object" where
  "IFlyPutObject send now cfg key body contentType contentLength st =
     (let reqURL = gateway_url cfg (key_filename key) in
      case buildAuthHeader now reqURL ''POST'' (sc_access_key cfg) (sc_secret_key cfg) of
        Inl e \<Rightarrow> (Inl (''build auth header: '' @ e), st)
      | Inr headers \<Rightarrow>
          (case send \<lparr>hq_method = ''POST'', hq_url = reqURL,
                 hq_headers = headers @ [(''X-TTL'', itoa (sc_ttl cfg)), (''Content-Length'', itoa (int (length body)))],
                 hq_body = body\<rparr> st of
             (Inl e, st1) \<Rightarrow> (Inl (''http request: '' @ e), st1)
           | (Inr resp, st1) \<Rightarrow> (gateway_answer resp, st1)))"

section \<open>Laws\<close>

text \<open>An upload succeeds only on an answer of status 200 that carries a link and no error code.\<close>

lemma gateway_link:
  assumes "gateway_answer (status, body) = Inr link"
  shows "status = 200" "link \<noteq> ''''"
  using assms by (auto simp: gateway_answer_def Let_def split: if_splits)

lemma base64_length: "length (base64 bs) = 4 * ((length bs + 2) div 3)"
proof (induction bs rule: base64.induct)
  case (4 a b c rest)
  have "(length rest + 3 + 2) div 3 = Suc ((length rest + 2) div 3)"
    using div_add_self2 [of 3 "length rest + 2"] by (simp add: algebra_simps)
  with 4 show ?case by simp
qed simp_all

end
