(* ===== verification/Media.thy ===== *)
theory Media
  imports Gateway Middleware
begin

text \<open>
  Media uploads: \<open>internal/service/media_manager.go\<close> and the handler of \<open>internal/router/media.go\<close>.
  \<open>http.DetectContentType\<close> (the sniffing table of the WHATWG standard) and the storage provider are
  parameters.

  The lemmas show what is refused, that what is accepted arrives in the storage whole and under a key
  made of the session and a plain file name, and that the caller's own name cannot leave it.
\<close>

section \<open>The manager\<close>

definition MaxFileSize :: int where "MaxFileSize = 500 * 1024 * 1024"

datatype media_error = FileTooLarge | FileEmpty | MIMERejected | MediaFail string

definition allowedMIMEPrefixes :: "string list" where
  "allowedMIMEPrefixes =
     [''image/'', ''audio/'', ''video/'', ''application/pdf'', ''application/zip'', ''application/octet-stream'', ''text/'']"

definition isMIMEAllowed :: "string \<Rightarrow> bool" where
  "isMIMEAllowed mimeType = (if mimeType = '''' then False else list_ex (has_prefix mimeType) allowedMIMEPrefixes)"

record media_result =
  mr_file_name :: string
  mr_mime :: string
  mr_size :: int
  mr_session :: string
  mr_url :: string

text \<open>A body: its bytes, how many the first read of at most 512 returns, whether it can be rewound
  (none when it is no seeker, else whether \<open>Seek\<close> succeeds), and the error that ends reading, if any.\<close>

record upload_body =
  ub_data :: string
  ub_chunk :: nat
  ub_seek :: "bool option"
  ub_error :: "string option"

definition first_read :: "upload_body \<Rightarrow> string + string" where
  "first_read body =
     (let n = min 512 (max 1 (ub_chunk body)) in
      if ub_data body = '''' then Inl (case ub_error body of Some e \<Rightarrow> e | None \<Rightarrow> ''EOF'')
      else Inr (take n (ub_data body)))"

text \<open>What the storage reads: the whole body, from its start.\<close>

definition rewindForStorage :: "upload_body \<Rightarrow> string \<Rightarrow> string + string" where
  "rewindForStorage body sniffed =
     (case ub_seek body of
        Some True \<Rightarrow> Inr (ub_data body)
      | Some False \<Rightarrow> Inl ''rewind seekable body''
      | None \<Rightarrow>
          (case ub_error body of
             Some e \<Rightarrow> Inl (''buffer non-seekable body: '' @ e)
           | None \<Rightarrow> Inr (sniffed @ drop (length sniffed) (ub_data body))))"

text \<open>\<open>filepath.Base\<close> on a Unix path.\<close>

definition path_base :: "string \<Rightarrow> string" where
  "path_base p =
     (if p = '''' then ''.''
      else
        let q = rev (dropWhile (\<lambda>c. c = CHR ''/'') (rev p)) in
        if q = '''' then ''/''
        else (case cut_last (CHR ''/'') q of Some (_, b) \<Rightarrow> b | None \<Rightarrow> q))"

definition safe_name :: "string \<Rightarrow> string" where
  "safe_name fileName =
     (let b = path_base fileName in if b = '''' \<or> b = ''.'' \<or> has_prefix b ''.'' then ''unnamed'' else b)"

definition Store ::
    "(string \<Rightarrow> string) \<Rightarrow> 'o put_object \<Rightarrow> string \<Rightarrow> upload_body \<Rightarrow> string \<Rightarrow> int \<Rightarrow> string \<Rightarrow> string \<Rightarrow> 'o \<Rightarrow>
     (media_error + media_result) \<times> 'o" where
  "Store detect put uuid body fileName fileSize mimeType sessionID st =
     (if fileSize > MaxFileSize then (Inl FileTooLarge, st)
      else if fileSize = 0 then (Inl FileEmpty, st)
      else
        (case first_read body of
           Inl e \<Rightarrow> (Inl (MediaFail (''read for MIME detection: '' @ e)), st)
         | Inr buf \<Rightarrow>
             let mime = (if mimeType = '''' \<or> mimeType = ''application/octet-stream'' then detect buf else mimeType) in
             if \<not> isMIMEAllowed mime then (Inl MIMERejected, st)
             else
               (case rewindForStorage body buf of
                  Inl e \<Rightarrow> (Inl (MediaFail e), st)
                | Inr content \<Rightarrow>
                    let safeName = safe_name fileName;
                        sid = (if sessionID = '''' then uuid else sessionID);
                        key = sid @ ''/'' @ safeName
                    in (case put key content mime fileSize st of
                          (Inl e, st1) \<Rightarrow> (Inl (MediaFail e), st1)
                        | (Inr downloadURL, st1) \<Rightarrow>
                            (Inr \<lparr>mr_file_name = safeName, mr_mime = mime, mr_size = fileSize, mr_session = sid,
                                  mr_url = downloadURL\<rparr>, st1)))))"

section \<open>The handler\<close>

text \<open>The form's file: its name, size, declared type and body; none when the form has none.\<close>

definition uploadMedia ::
    "(string \<Rightarrow> string) \<Rightarrow> 'o put_object \<Rightarrow> string \<Rightarrow> (string \<times> int \<times> string \<times> upload_body) option \<Rightarrow> string \<Rightarrow> 'o \<Rightarrow>
     response \<times> 'o" where
  "uploadMedia detect put uuid file sessionID st =
     (case file of
        None \<Rightarrow> (MetricsErrorResponse ErrMediaInvalidFile, st)
      | Some (name, fileSize, ctype, body) \<Rightarrow>
          if fileSize > MaxFileSize then (MetricsErrorResponse ErrMediaFileTooLarge, st)
          else
            let mimeType = (if ctype = '''' then ''application/octet-stream'' else ctype);
                fileName = (if name = '''' then ''unnamed'' else name)
            in (case Store detect put uuid body fileName fileSize mimeType sessionID st of
                  (Inl FileTooLarge, st1) \<Rightarrow> (MetricsErrorResponse ErrMediaFileTooLarge, st1)
                | (Inl FileEmpty, st1) \<Rightarrow> (MetricsErrorResponse ErrMediaInvalidFile, st1)
                | (Inl MIMERejected, st1) \<Rightarrow> (MetricsErrorResponse ErrMediaInvalidFile, st1)
                | (Inl (MediaFail _), st1) \<Rightarrow> (MetricsErrorResponse ErrChatInternalError, st1)
                | (Inr r, st1) \<Rightarrow>
                    (json_ok [(''fileName'', JStr (mr_file_name r)), (''mimeType'', JStr (mr_mime r)),
                       (''fileSize'', JInt (mr_size r)), (''sessionId'', JStr (mr_session r)),
                       (''downloadUrl'', JStr (mr_url r))], st1)))"

section \<open>Laws\<close>

lemma rewound_whole:
  assumes "first_read body = Inr buf" "rewindForStorage body buf = Inr content"
  shows "content = ub_data body"
proof -
  obtain n where "buf = take n (ub_data body)"
    using assms(1) by (auto simp: first_read_def Let_def split: if_splits)
  then have "buf @ drop (length buf) (ub_data body) = ub_data body"
    by (cases "n \<le> length (ub_data body)") simp_all
  with assms(2) show ?thesis by (auto simp: rewindForStorage_def split: option.splits bool.splits)
qed

lemma path_base_plain: "path_base p \<noteq> ''/'' \<Longrightarrow> CHR ''/'' \<notin> set (path_base p)"
proof -
  assume ne: "path_base p \<noteq> ''/''"
  have "CHR ''/'' \<notin> set b" if "cut_last (CHR ''/'') q = Some (a, b)" for q a b
    using that by (auto simp: cut_last_def Let_def split: if_splits dest: set_takeWhileD)
  moreover have "CHR ''/'' \<notin> set q" if "cut_last (CHR ''/'') (rev q) = None" for q
    using that by (auto simp: cut_last_def Let_def split: if_splits)
  ultimately show ?thesis using ne by (auto simp: path_base_def Let_def split: if_splits option.splits)
qed

lemma safe_name_plain:
  "safe_name f \<noteq> '''' \<and> \<not> has_prefix (safe_name f) ''.'' \<and> (safe_name f = ''/'' \<or> CHR ''/'' \<notin> set (safe_name f))"
  using path_base_plain [of f] by (auto simp: safe_name_def Let_def has_prefix_def)

text \<open>A name of at least one character that is no slash is never the name \<open>/\<close>.\<close>

lemma safe_name_file: "\<exists>c\<in>set f. c \<noteq> CHR ''/'' \<Longrightarrow> CHR ''/'' \<notin> set (safe_name f)"
proof -
  assume c: "\<exists>c\<in>set f. c \<noteq> CHR ''/''"
  have "path_base f \<noteq> ''/''"
  proof
    assume b: "path_base f = ''/''"
    let ?q = "rev (dropWhile (\<lambda>c. c = CHR ''/'') (rev f))"
    have q: "?q \<noteq> ''''" using c by (auto simp: dropWhile_eq_Nil_conv)
    have "dropWhile (\<lambda>c. c = CHR ''/'') (rev f) \<noteq> []" using q by (simp only: rev_is_Nil_conv not_False_eq_True)
    from dropWhile_hd [OF this] have l: "last ?q \<noteq> CHR ''/''" by (simp only: last_rev not_False_eq_True)
    show False
    proof (cases "cut_last (CHR ''/'') ?q")
      case None
      with b q have "?q = ''/''" by (auto simp: path_base_def Let_def split: if_splits)
      with l show False by simp
    next
      case (Some ab)
      obtain a x where ab: "ab = (a, x)" by (cases ab)
      with Some b q have "x = ''/''" by (auto simp: path_base_def Let_def split: if_splits)
      with Some ab have t: "takeWhile (\<lambda>c. c \<noteq> CHR ''/'') (dropWhile (\<lambda>c. c = CHR ''/'') (rev f)) = ''/''"
        by (auto simp: cut_last_def Let_def split: if_splits)
      have "CHR ''/'' \<in> set ''/''" by simp
      from set_takeWhileD [OF this [folded t]] show False by simp
    qed
  qed
  then show ?thesis using path_base_plain [of f] by (auto simp: safe_name_def Let_def)
qed

context object_storage begin

lemma Store_ok:
  assumes "Store detect put uuid body fileName fileSize mimeType sessionID st = (Inr r, st')"
  shows "fileSize \<le> MaxFileSize" "fileSize \<noteq> 0" "isMIMEAllowed (mr_mime r)"
    and "objects st' = (objects st)(mr_session r @ ''/'' @ mr_file_name r \<mapsto> ub_data body)"
    and "mr_url r = url_of (mr_session r @ ''/'' @ mr_file_name r)" and "mr_file_name r = safe_name fileName"
    and "mr_session r = (if sessionID = '''' then uuid else sessionID)"
  using assms rewound_whole [of body]
  by (auto simp: Store_def Let_def split: if_splits sum.splits prod.splits dest!: put_ok)

lemma Store_refused:
  assumes "Store detect put uuid body fileName fileSize mimeType sessionID st = (Inl e, st')"
  shows "objects st' = objects st"
  using assms by (auto simp: Store_def Let_def split: if_splits sum.splits prod.splits dest: put_err)

end

end
