(* ===== verification/Config.thy ===== *)
theory Config
  imports Middleware Storage
begin

text \<open>
  The configuration (\<open>internal/config/config.go\<close>): environment variables with their defaults, and the
  choices made from it when the Redis client (\<open>internal/infra/cache.go\<close>) and the storage
  (\<open>internal/infra/storage/storage.go\<close>) are built. \<open>env\<close> is the environment after \<open>.env\<close> was loaded; an
  unset variable is the empty string, as \<open>os.Getenv\<close> returns it.
\<close>

section \<open>Environment variables\<close>

definition getEnv :: "(string \<Rightarrow> string) \<Rightarrow> string \<Rightarrow> string \<Rightarrow> string" where
  "getEnv env key defaultVal = (if env key \<noteq> '''' then env key else defaultVal)"

definition getEnvInt :: "(string \<Rightarrow> string) \<Rightarrow> string \<Rightarrow> int \<Rightarrow> int" where
  "getEnvInt env key defaultVal =
     (if env key \<noteq> '''' then (case atoi (env key) of (n, None) \<Rightarrow> n | _ \<Rightarrow> defaultVal) else defaultVal)"

definition getEnvBool :: "(string \<Rightarrow> string) \<Rightarrow> string \<Rightarrow> bool \<Rightarrow> bool" where
  "getEnvBool env key defaultVal = (if env key \<noteq> '''' then to_lower (env key) = ''true'' else defaultVal)"

definition buildOtlpEndpoint :: "(string \<Rightarrow> string) \<Rightarrow> string" where
  "buildOtlpEndpoint env =
     (let port = getEnv env ''OTLP_PORT'' ''4317''; host = getEnv env ''POD_IP'' ''localhost''
      in host @ '':'' @ port)"

definition splitCSV :: "string \<Rightarrow> string list" where
  "splitCSV s = filter (\<lambda>p. p \<noteq> '''') (map trim_space (split_on (CHR '','') s))"

section \<open>The configuration\<close>

record mysql_config =
  my_host :: string
  my_port :: int
  my_user :: string
  my_password :: string
  my_database :: string

record redis_config =
  rc_password :: string
  rc_db :: int
  rc_addrs :: "string list"
  rc_cluster :: bool
  rc_pool_size :: int
  rc_min_idle :: int

record server_config =
  sv_host :: string
  sv_port :: int
  sv_workers :: int
  sv_log_level :: string
  sv_access_log :: bool
  sv_ws_ping_interval :: int
  sv_ws_ping_timeout :: int
  sv_secure_cookie :: bool
  sv_inbox_consumers :: int

record queue_config =
  qc_type :: string
  qc_max_len :: int
  qc_block_ms :: int

record otlp_config =
  oc_enabled :: bool
  oc_service :: string
  oc_endpoint :: string
  oc_insecure :: bool
  oc_metrics :: bool
  oc_traces :: bool
  oc_logs :: bool

record db_pool_config =
  dp_max_idle :: int
  dp_max_open :: int
  dp_lifetime :: int

record app_config =
  cf_mysql :: mysql_config
  cf_redis :: redis_config
  cf_server :: server_config
  cf_queue :: queue_config
  cf_storage :: storage_config
  cf_otlp :: otlp_config
  cf_cors :: cors_config
  cf_pool :: db_pool_config

text \<open>What the MySQL driver's \<open>FormatDSN\<close> is given; the driver is a library.\<close>

record dsn_config =
  dn_user :: string
  dn_passwd :: string
  dn_net :: string
  dn_addr :: string
  dn_db :: string
  dn_native :: bool
  dn_params :: "(string \<times> string) list"

definition dsn_params :: "(string \<times> string) list" where
  "dsn_params = [(''charset'', ''utf8mb4''), (''parseTime'', ''True''), (''loc'', ''UTC'')]"

definition DSN :: "(dsn_config \<Rightarrow> string) \<Rightarrow> mysql_config \<Rightarrow> string" where
  "DSN formatDSN c = formatDSN
     \<lparr>dn_user = my_user c, dn_passwd = my_password c, dn_net = ''tcp'', dn_addr = my_host c @ '':'' @ itoa (my_port c),
      dn_db = my_database c, dn_native = True, dn_params = dsn_params\<rparr>"

definition DSNWithoutDB :: "(dsn_config \<Rightarrow> string) \<Rightarrow> mysql_config \<Rightarrow> string" where
  "DSNWithoutDB formatDSN c = formatDSN
     \<lparr>dn_user = my_user c, dn_passwd = my_password c, dn_net = ''tcp'', dn_addr = my_host c @ '':'' @ itoa (my_port c),
      dn_db = '''', dn_native = True, dn_params = dsn_params\<rparr>"

definition IsCluster :: "redis_config \<Rightarrow> bool" where
  "IsCluster c = (rc_cluster c \<or> length (rc_addrs c) > 1)"

definition validOSSTypes :: "string list" where
  "validOSSTypes = [''s3'', ''ifly_gateway'']"

text \<open>\<open>procs\<close> and \<open>cpus\<close> are \<open>runtime.GOMAXPROCS\<close> and \<open>runtime.NumCPU\<close>. None is the fatal exit on an
  unknown storage type.\<close>

definition Load :: "int \<Rightarrow> int \<Rightarrow> (string \<Rightarrow> string) \<Rightarrow> app_config option" where
  "Load procs cpus env =
     (let ossType = getEnv env ''OSS_TYPE'' ''s3'' in
      if ossType \<notin> set validOSSTypes then None
      else
        let publicEndpoint = (if env ''OSS_PUBLIC_ENDPOINT'' = ''''
              then getEnv env ''OSS_ENDPOINT'' ''http://localhost:9000'' else env ''OSS_PUBLIC_ENDPOINT'')
        in Some \<lparr>
          cf_mysql = \<lparr>my_host = getEnv env ''MYSQL_HOST'' ''127.0.0.1'', my_port = getEnvInt env ''MYSQL_PORT'' 3306,
            my_user = getEnv env ''MYSQL_USER'' ''root'', my_password = getEnv env ''MYSQL_PASSWORD'' '''',
            my_database = getEnv env ''MYSQL_DATABASE'' ''astron_claw''\<rparr>,
          cf_redis = \<lparr>rc_password = getEnv env ''REDIS_PASSWORD'' '''', rc_db = getEnvInt env ''REDIS_DB'' 0,
            rc_addrs = splitCSV (getEnv env ''REDIS_ADDRS'' ''127.0.0.1:6379''),
            rc_cluster = getEnvBool env ''REDIS_CLUSTER'' False,
            rc_pool_size = getEnvInt env ''REDIS_POOL_SIZE'' (procs * 10),
            rc_min_idle = getEnvInt env ''REDIS_MIN_IDLE_CONNS'' 10\<rparr>,
          cf_server = \<lparr>sv_host = getEnv env ''SERVER_HOST'' ''0.0.0.0'', sv_port = getEnvInt env ''SERVER_PORT'' 8765,
            sv_workers = getEnvInt env ''SERVER_WORKERS'' (cpus + 1),
            sv_log_level = getEnv env ''SERVER_LOG_LEVEL'' ''info'',
            sv_access_log = getEnvBool env ''SERVER_ACCESS_LOG'' True,
            sv_ws_ping_interval = getEnvInt env ''WS_PING_INTERVAL'' 10,
            sv_ws_ping_timeout = getEnvInt env ''WS_PING_TIMEOUT'' 10,
            sv_secure_cookie = getEnvBool env ''COOKIE_SECURE'' False,
            sv_inbox_consumers = getEnvInt env ''WORKER_INBOX_CONSUMERS'' 4\<rparr>,
          cf_queue = \<lparr>qc_type = getEnv env ''QUEUE_TYPE'' ''redis_stream'',
            qc_max_len = getEnvInt env ''QUEUE_MAX_STREAM_LEN'' 1000,
            qc_block_ms = getEnvInt env ''QUEUE_BLOCK_MS'' 5000\<rparr>,
          cf_storage = \<lparr>sc_type = ossType, sc_endpoint = getEnv env ''OSS_ENDPOINT'' ''http://localhost:9000'',
            sc_public_endpoint = publicEndpoint,
            sc_access_key = getEnv env ''OSS_ACCESS_KEY'' ''minioadmin'',
            sc_secret_key = getEnv env ''OSS_SECRET_KEY'' ''minioadmin'',
            sc_bucket = getEnv env ''OSS_BUCKET'' ''astron-claw-media'',
            sc_region = getEnv env ''OSS_REGION'' ''us-east-1'', sc_ttl = getEnvInt env ''OSS_TTL'' 157788000,
            sc_public_read = getEnvBool env ''OSS_PUBLIC_READ'' True,
            sc_path_style = getEnvBool env ''OSS_PATH_STYLE'' True\<rparr>,
          cf_otlp = \<lparr>oc_enabled = getEnvBool env ''OTLP_ENABLED'' False,
            oc_service = getEnv env ''OTLP_SERVICE_NAME'' ''astron-claw'', oc_endpoint = buildOtlpEndpoint env,
            oc_insecure = getEnvBool env ''OTLP_INSECURE'' False,
            oc_metrics = getEnvBool env ''OTLP_METRICS_ENABLED'' True,
            oc_traces = getEnvBool env ''OTLP_TRACES_ENABLED'' False,
            oc_logs = getEnvBool env ''OTLP_LOGS_ENABLED'' False\<rparr>,
          cf_cors = \<lparr>cc_enabled = getEnvBool env ''CORS_ENABLED'' True,
            cc_origins = splitCSV (getEnv env ''CORS_ORIGINS'' ''*'')\<rparr>,
          cf_pool = \<lparr>dp_max_idle = getEnvInt env ''DB_MAX_IDLE_CONNS'' 10,
            dp_max_open = getEnvInt env ''DB_MAX_OPEN_CONNS'' 15,
            dp_lifetime = getEnvInt env ''DB_CONN_MAX_LIFETIME'' 3600\<rparr> \<rparr>)"

section \<open>Clients\<close>

datatype redis_options =
    ClusterClient "string list" string int int
  | SingleClient string string int int int

text \<open>The client's options, none when there is no address to take, which panics.\<close>

definition redis_client :: "redis_config \<Rightarrow> redis_options option" where
  "redis_client cfg =
     (if IsCluster cfg then Some (ClusterClient (rc_addrs cfg) (rc_password cfg) (rc_pool_size cfg) (rc_min_idle cfg))
      else case rc_addrs cfg of
             [] \<Rightarrow> None
           | a # _ \<Rightarrow> Some (SingleClient a (rc_password cfg) (rc_db cfg) (rc_pool_size cfg) (rc_min_idle cfg)))"

datatype init_result = InitPanics | InitFails string | InitDone redis_options string

text \<open>\<open>ping\<close> is the first call to the server. The result names the mode that is logged; a cluster without
  addresses panics there.\<close>

definition InitRedis :: "(redis_options \<Rightarrow> string + unit) \<Rightarrow> redis_config \<Rightarrow> init_result" where
  "InitRedis ping cfg =
     (case redis_client cfg of
        None \<Rightarrow> InitPanics
      | Some opts \<Rightarrow>
          (case ping opts of
             Inl e \<Rightarrow> InitFails (''redis ping: '' @ e)
           | Inr _ \<Rightarrow>
               if rc_addrs cfg = [] then InitPanics
               else InitDone opts (if IsCluster cfg then ''cluster'' else ''standalone'')))"

datatype provider = S3Provider | GatewayProvider

definition NewStorage :: "storage_config \<Rightarrow> provider option" where
  "NewStorage cfg =
     (if sc_type cfg = ''s3'' then Some S3Provider
      else if sc_type cfg = ''ifly_gateway'' then Some GatewayProvider else None)"

section \<open>Laws\<close>

lemma splitCSV_entries: "p \<in> set (splitCSV s) \<Longrightarrow> p \<noteq> '''' \<and> trim_space p = p"
proof -
  assume "p \<in> set (splitCSV s)"
  then obtain q where q: "p = trim_space q" "p \<noteq> ''''" by (auto simp: splitCSV_def)
  have "trim_space (trim_space q) = trim_space q"
    using q by (metis trim_space_id trim_space_ends)
  with q show ?thesis by simp
qed

text \<open>What was loaded can be built: every storage type that passes \<open>Load\<close> has a provider.\<close>

lemma Load_storage: "Load procs cpus env = Some cfg \<Longrightarrow> NewStorage (cf_storage cfg) \<noteq> None"
  by (auto simp: Load_def NewStorage_def validOSSTypes_def Let_def split: if_splits)

lemma getEnvInt_fits: "fits64 dflt \<Longrightarrow> fits64 (getEnvInt env k dflt)"
  using parse_int_fits [of "env k"]
  by (auto simp: getEnvInt_def atoi_def split: prod.splits option.splits)

text \<open>An address list of commas and blanks only leaves no address, and the start panics.\<close>

lemma no_address_panics:
  assumes "rc_addrs cfg = []" "\<not> rc_cluster cfg"
  shows "InitRedis ping cfg = InitPanics"
  using assms by (simp add: InitRedis_def redis_client_def IsCluster_def)

end
