(* ===== verification/Database.thy ===== *)
theory Database
  imports Config
begin

text \<open>
  The start of the database (\<open>internal/infra/database.go\<close>): which privileges the grants of the MySQL
  user give, and whether the database is created. The driver and gorm are parameters.

  The lemmas state the two privilege checks as sets of grants, and that a grant in the form MySQL
  prints is read back.
\<close>

section \<open>Grants\<close>

definition grantIncludes :: "string list \<Rightarrow> string \<Rightarrow> bool" where
  "grantIncludes privileges want = list_ex (\<lambda>p. p = want) privileges"

text \<open>\<open>strings.Index\<close> from a position on.\<close>

definition index_after :: "string \<Rightarrow> nat \<Rightarrow> string \<Rightarrow> nat option" where
  "index_after s n sub = map_option (\<lambda>i. i + n) (str_index (drop n s) sub)"

definition BACKTICK :: char where "BACKTICK = CHR 0x60"

text \<open>A line of \<open>SHOW GRANTS\<close>: its privileges and its scope. MySQL always names a privilege; for a line
  that starts with \<open>GRANT ON\<close>, which it never prints, the code slices out of range and panics,
  where this is none.\<close>

definition parseGrant :: "string \<Rightarrow> (string list \<times> string) option" where
  "parseGrant grant =
     (let normalized = to_upper (trim_space grant) in
      if \<not> has_prefix normalized ''GRANT '' then None
      else
        (case str_index normalized '' ON '' of
           None \<Rightarrow> None
         | Some onIdx \<Rightarrow>
             (case index_after normalized (onIdx + 4) '' TO '' of
                None \<Rightarrow> None
              | Some toIdx \<Rightarrow>
                  let privilegePart = trim_space (drop (length ''GRANT '') (take onIdx normalized)) in
                  if privilegePart = '''' then None
                  else
                    let privileges = filter (\<lambda>p. p \<noteq> '''') (map trim_space (split_on (CHR '','') privilegePart));
                        scope = replace_char BACKTICK '''' (trim_space (take (toIdx - (onIdx + 4)) (drop (onIdx + 4) normalized)))
                    in Some (privileges, replace_char (CHR '' '') '''' scope))))"

definition grantScopeMatchesDatabase :: "string \<Rightarrow> string \<Rightarrow> bool" where
  "grantScopeMatchesDatabase scope database =
     (let sc = to_upper (replace_char BACKTICK '''' (trim_space scope)); dbScope = to_upper database @ ''.*''
      in sc = ''*.*'' \<or> sc = dbScope)"

fun hasCreateDatabasePrivilege :: "string list \<Rightarrow> bool" where
  "hasCreateDatabasePrivilege [] = False"
| "hasCreateDatabasePrivilege (grant # rest) =
     (case parseGrant grant of
        None \<Rightarrow> hasCreateDatabasePrivilege rest
      | Some (privileges, scope) \<Rightarrow>
          if scope \<noteq> ''*.*'' then hasCreateDatabasePrivilege rest
          else if grantIncludes privileges ''ALL PRIVILEGES'' \<or> grantIncludes privileges ''CREATE'' then True
          else hasCreateDatabasePrivilege rest)"

definition required_ddl :: "string list" where
  "required_ddl = [''CREATE'', ''ALTER'', ''DROP'', ''INDEX'']"

text \<open>The loop: \<open>granted\<close> are the required privileges found so far.\<close>

fun ddl_loop :: "string list \<Rightarrow> string \<Rightarrow> string list \<Rightarrow> bool" where
  "ddl_loop [] database granted = list_all (\<lambda>p. p \<in> set granted) required_ddl"
| "ddl_loop (grant # rest) database granted =
     (case parseGrant grant of
        None \<Rightarrow> ddl_loop rest database granted
      | Some (privileges, scope) \<Rightarrow>
          if \<not> grantScopeMatchesDatabase scope database then ddl_loop rest database granted
          else if grantIncludes privileges ''ALL PRIVILEGES'' then True
          else ddl_loop rest database (filter (grantIncludes privileges) required_ddl @ granted))"

definition hasDatabaseDDLPrivileges :: "string list \<Rightarrow> string \<Rightarrow> bool" where
  "hasDatabaseDDLPrivileges grants database = ddl_loop grants database []"

section \<open>Creating the database\<close>

record ddl_privileges =
  pv_create :: bool
  pv_manage :: bool

definition validDBName :: "string \<Rightarrow> bool" where
  "validDBName s = (s \<noteq> '''' \<and> list_all (\<lambda>c. is_alnum c \<or> c = CHR ''_'') s)"

text \<open>\<open>grants\<close> is the reply to \<open>SHOW GRANTS\<close> on a connection without a database.\<close>

definition detectMySQLDDLPrivileges :: "(string + string list) \<Rightarrow> mysql_config \<Rightarrow> string + ddl_privileges" where
  "detectMySQLDDLPrivileges grants cfg =
     (if \<not> validDBName (my_database cfg) then Inl ''invalid database name''
      else case grants of
        Inl e \<Rightarrow> Inl e
      | Inr gs \<Rightarrow> Inr \<lparr>pv_create = hasCreateDatabasePrivilege gs, pv_manage = hasDatabaseDDLPrivileges gs (my_database cfg)\<rparr>)"

text \<open>\<open>exec\<close> runs a statement on a connection to the data source it names.\<close>

definition create_statement :: "string \<Rightarrow> string" where
  "create_statement database =
     ''CREATE DATABASE IF NOT EXISTS '' @ [BACKTICK] @ database @ [BACKTICK] @
     '' DEFAULT CHARACTER SET utf8mb4 COLLATE utf8mb4_unicode_ci''"

definition ensureDatabase ::
    "(dsn_config \<Rightarrow> string) \<Rightarrow> (string \<Rightarrow> string \<Rightarrow> 'd \<Rightarrow> (string + unit) \<times> 'd) \<Rightarrow> (string + ddl_privileges) \<Rightarrow> mysql_config \<Rightarrow>
     'd \<Rightarrow> (string + unit) \<times> 'd" where
  "ensureDatabase formatDSN exec detected cfg d =
     (if \<not> validDBName (my_database cfg) then (Inl ''invalid database name'', d)
      else case detected of
        Inl e \<Rightarrow> (Inl (''detect ddl privileges: '' @ e), d)
      | Inr privileges \<Rightarrow>
          if \<not> pv_create privileges then (Inr (), d)
          else (case exec (DSNWithoutDB formatDSN cfg) (create_statement (my_database cfg)) d of
                  (Inl e, d1) \<Rightarrow> (Inl (''create database: '' @ e), d1)
                | (Inr _, d1) \<Rightarrow> (Inr (), d1)))"

text \<open>The pool's settings, after the database is there and the server answers.\<close>

definition InitDB ::
    "(dsn_config \<Rightarrow> string) \<Rightarrow> (string \<Rightarrow> string \<Rightarrow> 'd \<Rightarrow> (string + unit) \<times> 'd) \<Rightarrow> (string \<Rightarrow> 'd \<Rightarrow> string + unit) \<Rightarrow>
     (string + ddl_privileges) \<Rightarrow> mysql_config \<Rightarrow> db_pool_config \<Rightarrow> 'd \<Rightarrow> (string + string \<times> int \<times> int \<times> int) \<times> 'd" where
  "InitDB formatDSN exec ping detected cfg pool d =
     (case ensureDatabase formatDSN exec detected cfg d of
        (Inl e, d1) \<Rightarrow> (Inl (''ensure database: '' @ e), d1)
      | (Inr _, d1) \<Rightarrow>
          (case ping (DSN formatDSN cfg) d1 of
             Inl e \<Rightarrow> (Inl (''mysql ping: '' @ e), d1)
           | Inr _ \<Rightarrow> (Inr (DSN formatDSN cfg, dp_max_idle pool, dp_max_open pool, wrap64 (dp_lifetime pool * 1000000000)), d1)))"

section \<open>Laws\<close>

lemma grantIncludes_iff [simp]: "grantIncludes ps w \<longleftrightarrow> w \<in> set ps"
  by (auto simp: grantIncludes_def list_ex_iff)

text \<open>A set of grants allows to create databases when one of them does globally.\<close>

lemma hasCreateDatabasePrivilege_iff:
  "hasCreateDatabasePrivilege grants \<longleftrightarrow>
     (\<exists>g\<in>set grants. \<exists>ps. parseGrant g = Some (ps, ''*.*'') \<and> (''ALL PRIVILEGES'' \<in> set ps \<or> ''CREATE'' \<in> set ps))"
  by (induction grants) (auto split: option.splits)

definition grants_on :: "string list \<Rightarrow> string \<Rightarrow> string \<Rightarrow> bool" where
  "grants_on grants database p \<longleftrightarrow>
     (\<exists>g\<in>set grants. \<exists>ps sc. parseGrant g = Some (ps, sc) \<and> grantScopeMatchesDatabase sc database \<and> p \<in> set ps)"

lemma grants_on_Cons:
  "grants_on (g # gs) db p \<longleftrightarrow>
     (\<exists>ps sc. parseGrant g = Some (ps, sc) \<and> grantScopeMatchesDatabase sc db \<and> p \<in> set ps) \<or> grants_on gs db p"
  by (auto simp: grants_on_def)

lemma ddl_loop_iff:
  "ddl_loop grants db granted \<longleftrightarrow>
     grants_on grants db ''ALL PRIVILEGES'' \<or> (\<forall>p\<in>set required_ddl. p \<in> set granted \<or> grants_on grants db p)"
proof (induction grants arbitrary: granted)
  case Nil
  then show ?case by (auto simp: grants_on_def list_all_iff)
next
  case (Cons g gs)
  show ?case
  proof (cases "parseGrant g")
    case None
    with Cons show ?thesis by (simp add: grants_on_Cons)
  next
    case (Some r)
    obtain ps sc where r: "r = (ps, sc)" by (cases r)
    consider "\<not> grantScopeMatchesDatabase sc db" | "grantScopeMatchesDatabase sc db" "''ALL PRIVILEGES'' \<in> set ps"
      | "grantScopeMatchesDatabase sc db" "''ALL PRIVILEGES'' \<notin> set ps" by blast
    then show ?thesis
    proof cases
      case 3
      with Some r Cons show ?thesis by (auto simp: grants_on_Cons)
    qed (use Some r Cons in \<open>simp_all add: grants_on_Cons\<close>)
  qed
qed

text \<open>The schema can be managed when the grants on the database together cover every statement the
  migrations need, whichever grant covers which.\<close>

lemma hasDatabaseDDLPrivileges_iff:
  "hasDatabaseDDLPrivileges grants db \<longleftrightarrow>
     grants_on grants db ''ALL PRIVILEGES'' \<or> (\<forall>p\<in>{''CREATE'', ''ALTER'', ''DROP'', ''INDEX''}. grants_on grants db p)"
  by (simp add: hasDatabaseDDLPrivileges_def ddl_loop_iff required_ddl_def)

text \<open>The statement cannot be left through the name.\<close>

lemma valid_name_quoted: "validDBName n \<Longrightarrow> BACKTICK \<notin> set n"
  by (auto simp: validDBName_def list_all_iff BACKTICK_def is_alnum_def Let_def)

lemma ensureDatabase_bad_name:
  "\<not> validDBName (my_database cfg) \<Longrightarrow> ensureDatabase f exec detected cfg d = (Inl ''invalid database name'', d)"
  by (simp add: ensureDatabase_def)

end
