(* ===== verification/Migrate.thy ===== *)
theory Migrate
  imports Database Registry
begin

text \<open>
  Schema migrations at start (\<open>internal/infra/migrate.go\<close>): one worker takes a lock in Redis and runs
  them, the others wait for its mark. golang-migrate is a parameter.

  The lemmas show that only the holder of the lock touches the schema, what a finished run leaves for
  the workers that wait, and that waiting ends; and where the marks of an earlier run mislead.
\<close>

section \<open>Keys\<close>

definition migrateLockKey :: string where "migrateLockKey = ''migrate:lock''"
definition migrateDoneKey :: string where "migrateDoneKey = ''migrate:done''"
definition migrateFailKey :: string where "migrateFailKey = ''migrate:failed''"
definition migrateLockTTL :: int where "migrateLockTTL = 60"
definition migrateDoneTTL :: int where "migrateDoneTTL = 300"
definition migrateWaitTimeout :: int where "migrateWaitTimeout = 60"

lemma migrate_keys [simp]:
  "migrateLockKey \<noteq> migrateDoneKey" "migrateLockKey \<noteq> migrateFailKey" "migrateDoneKey \<noteq> migrateFailKey"
  "migrateDoneKey \<noteq> migrateLockKey" "migrateFailKey \<noteq> migrateLockKey" "migrateFailKey \<noteq> migrateDoneKey"
  by (simp_all add: migrateLockKey_def migrateDoneKey_def migrateFailKey_def)

definition releaseLockLua :: "string \<Rightarrow> store \<Rightarrow> int \<times> store" where
  "releaseLockLua owner st =
     (if str_at st migrateLockKey = Some owner then (1, drop_key migrateLockKey st) else (0, st))"

section \<open>The library\<close>

datatype version_error = NilVersion | VersionFail string
datatype up_error = NoChange | UpFail string

text \<open>\<open>Version\<close> reports the version and whether its migration failed half way.\<close>

record 'd migrator =
  mg_version :: "'d \<Rightarrow> (version_error + nat \<times> bool) \<times> 'd"
  mg_force :: "nat \<Rightarrow> 'd \<Rightarrow> (string + unit) \<times> 'd"
  mg_up :: "'d \<Rightarrow> (up_error + unit) \<times> 'd"

section \<open>Running\<close>

definition runMigrate :: "'d migrator \<Rightarrow> 'd \<Rightarrow> (string + unit) \<times> 'd" where
  "runMigrate M d =
     (case mg_up M d of
        (Inl NoChange, d1) \<Rightarrow> (Inr (), d1)
      | (Inl (UpFail e), d1) \<Rightarrow> (Inl (''migration failed: '' @ e), d1)
      | (Inr _, d1) \<Rightarrow> (Inr (), d1))"

text \<open>One round of waiting: the clock, whether the context is cancelled in the pause that follows, and
  what other workers do to Redis in it. None is still waiting.\<close>

fun waitForMigration ::
    "'s redis \<Rightarrow> int \<Rightarrow> (int \<times> bool \<times> ('s \<Rightarrow> 's)) list \<Rightarrow> 's \<Rightarrow> (string + unit) option \<times> 's" where
  "waitForMigration R deadline [] s = (None, s)"
| "waitForMigration R deadline ((now, cancelled, others) # rest) s =
     (if \<not> now < deadline then (Some (Inl ''timed out waiting for migration''), s)
      else
        (case rd_exists R migrateDoneKey s of
           (r1, s1) \<Rightarrow>
             if (case r1 of Inr n \<Rightarrow> n > 0 | Inl _ \<Rightarrow> False) then (Some (Inr ()), s1)
             else
               (case rd_get R migrateFailKey s1 of
                  (r2, s2) \<Rightarrow>
                    let failMsg = (case r2 of Inr v \<Rightarrow> v | Inl _ \<Rightarrow> '''') in
                    if failMsg \<noteq> '''' then (Some (Inl (''migration failed on another worker: '' @ failMsg)), s2)
                    else if cancelled then (Some (Inl ''context canceled''), s2)
                    else waitForMigration R deadline rest (others s2))))"

definition release_lock :: "'s redis \<Rightarrow> string \<Rightarrow> 's \<Rightarrow> 's" where
  "release_lock R owner s = snd (rd_eval R (releaseLockLua owner) s)"

text \<open>What the holder of the lock does.\<close>

definition run_locked :: "'d migrator \<Rightarrow> 's redis \<Rightarrow> string \<Rightarrow> 'd \<Rightarrow> 's \<Rightarrow> (string + unit) \<times> 'd \<times> 's" where
  "run_locked M R owner d s =
     (case mg_version M d of
        (Inl (VersionFail e), d1) \<Rightarrow> (Inl (''get migration version: '' @ e), d1, release_lock R owner s)
      | (v, d1) \<Rightarrow>
          (case (case v of Inr (version, True) \<Rightarrow> mg_force M version d1 | _ \<Rightarrow> (Inr (), d1)) of
             (Inl e, d2) \<Rightarrow> (Inl (''force version: '' @ e), d2, release_lock R owner s)
           | (Inr _, d2) \<Rightarrow>
               (case runMigrate M d2 of
                  (Inl e, d3) \<Rightarrow> (Inl e, d3, release_lock R owner (snd (rd_set R migrateFailKey e migrateDoneTTL s)))
                | (Inr _, d3) \<Rightarrow>
                    (Inr (), d3, release_lock R owner (snd (rd_set R migrateDoneKey ''1'' migrateDoneTTL s))))))"

text \<open>\<open>opened\<close> is the outcome of opening the connection, the sources and the driver; \<open>start\<close> the second at
  which waiting starts.\<close>

definition RunMigrations ::
    "(string + ddl_privileges) \<Rightarrow> (string + unit) \<Rightarrow> 'd migrator \<Rightarrow> 's redis \<Rightarrow> string \<Rightarrow> int \<Rightarrow>
     (int \<times> bool \<times> ('s \<Rightarrow> 's)) list \<Rightarrow> 'd \<Rightarrow> 's \<Rightarrow> (string + unit) option \<times> 'd \<times> 's" where
  "RunMigrations detected opened M R owner start rounds d s =
     (case detected of
        Inl e \<Rightarrow> (Some (Inl (''detect ddl privileges: '' @ e)), d, s)
      | Inr privileges \<Rightarrow>
          if \<not> pv_manage privileges then (Some (Inr ()), d, s)
          else
            (case opened of
               Inl e \<Rightarrow> (Some (Inl e), d, s)
             | Inr _ \<Rightarrow>
                 (case rd_setnx R migrateLockKey owner migrateLockTTL s of
                    (Inl e, s1) \<Rightarrow> (Some (Inl (''acquire migration lock: '' @ err_text e)), d, s1)
                  | (Inr True, s1) \<Rightarrow>
                      (case run_locked M R owner d s1 of (r, d1, s2) \<Rightarrow> (Some r, d1, s2))
                  | (Inr False, s1) \<Rightarrow>
                      (case waitForMigration R (start + migrateWaitTimeout) rounds s1 of (r, s2) \<Rightarrow> (r, d, s2)))))"

section \<open>Laws\<close>

text \<open>The documented behaviour of the library: \<open>Force\<close> runs no migration and marks the version clean;
  \<open>Up\<close> runs the migrations above the version, in order, until one fails.\<close>

locale migrate_library =
  fixes M :: "'d migrator"
    and version :: "'d \<Rightarrow> nat"
    and dirty :: "'d \<Rightarrow> bool"
    and ran :: "'d \<Rightarrow> nat list"
    and source :: "nat list"
  assumes version_reads: "mg_version M d = (r, d') \<Longrightarrow>
      d' = d \<and> (r = Inr (version d, dirty d) \<or> (\<exists>e. r = Inl e) \<and> \<not> dirty d)"
    and force: "mg_force M v d = (Inr (), d') \<Longrightarrow> version d' = v \<and> \<not> dirty d' \<and> ran d' = ran d"
    and up: "\<not> dirty d \<Longrightarrow> mg_up M d = (ru, d') \<Longrightarrow>
      \<exists>n. ran d' = ran d @ take n (filter (\<lambda>v. version d < v) source)"
begin

lemma runMigrate_ran:
  "\<not> dirty d \<Longrightarrow> runMigrate M d = (r, d') \<Longrightarrow> \<exists>n. ran d' = ran d @ take n (filter (\<lambda>v. version d < v) source)"
  using up [of d] by (auto simp: runMigrate_def split: prod.splits sum.splits up_error.splits)

text \<open>A migration that failed half way is not run again: its version is marked clean and the run goes
  on with the next.\<close>

lemma dirty_not_retried:
  assumes "dirty d" and "mg_version M d = (Inr (v, True), d)" and "run_locked M R owner d s = (r, d', s')"
    and "mg_force M v d = (Inr (), d1)"
  shows "\<exists>vs. ran d' = ran d @ vs \<and> v \<notin> set vs"
proof -
  obtain r2 d2 where m: "runMigrate M d1 = (r2, d2)" by (cases "runMigrate M d1")
  note F = force [OF assms(4)]
  have "d' = d2" using assms(2-4) m by (auto simp: run_locked_def split: sum.splits)
  moreover from F runMigrate_ran [OF _ m] obtain n where
    "ran d2 = ran d @ take n (filter (\<lambda>x. v < x) source)" by auto
  moreover have "v \<notin> set (take n (filter (\<lambda>x. v < x) source))" by (auto dest: in_set_takeD)
  ultimately show ?thesis by blast
qed

end

text \<open>An instance: the state is the version, the dirty mark and the migrations run so far.\<close>

definition mem_migrator :: "nat list \<Rightarrow> (nat \<times> bool \<times> nat list) migrator" where
  "mem_migrator src = \<lparr>
     mg_version = (\<lambda>(v, dirt, rs). (if v = 0 \<and> \<not> dirt then Inl NilVersion else Inr (v, dirt), (v, dirt, rs))),
     mg_force = (\<lambda>n (v, dirt, rs). (Inr (), (n, False, rs))),
     mg_up = (\<lambda>(v, dirt, rs).
        if dirt then (Inl (UpFail ''Dirty database version''), (v, dirt, rs))
        else (let todo = filter (\<lambda>x. v < x) src in
              if todo = [] then (Inl NoChange, (v, dirt, rs)) else (Inr (), (last todo, False, rs @ todo))))\<rparr>"

interpretation mem_migrations: migrate_library "mem_migrator src" fst "\<lambda>d. fst (snd d)" "\<lambda>d. snd (snd d)" src for src
proof
  fix d :: "nat \<times> bool \<times> nat list" and r d'
  assume "mg_version (mem_migrator src) d = (r, d')"
  then show "d' = d \<and> (r = Inr (fst d, fst (snd d)) \<or> (\<exists>e. r = Inl e) \<and> \<not> fst (snd d))"
    by (auto simp: mem_migrator_def split: prod.splits if_splits)
next
  fix v and d d' :: "nat \<times> bool \<times> nat list"
  assume "mg_force (mem_migrator src) v d = (Inr (), d')"
  then show "fst d' = v \<and> \<not> fst (snd d') \<and> snd (snd d') = snd (snd d)"
    by (auto simp: mem_migrator_def split: prod.splits)
next
  fix d d' :: "nat \<times> bool \<times> nat list" and r
  assume "\<not> fst (snd d)" "mg_up (mem_migrator src) d = (r, d')"
  then show "\<exists>n. snd (snd d') = snd (snd d) @ take n (filter (\<lambda>v. fst d < v) src)"
    by (auto simp: mem_migrator_def Let_def split: prod.splits if_splits) (metis order_refl take_all)
qed

lemma dirty_migration_skipped:
  "snd (snd (fst (snd (run_locked (mem_migrator [1, 2]) R w (1, True, []) s)))) = [2]"
  by (simp add: run_locked_def mem_migrator_def runMigrate_def)

section \<open>Leader and waiters\<close>

context redis_up begin

lemma release_lock_kv:
  "kv (view (release_lock R owner s)) k =
     (if k = migrateLockKey \<and> str_at (view s) migrateLockKey = Some owner then None else kv (view s) k)"
  by (simp add: release_lock_def sem_eval_def releaseLockLua_def)

text \<open>While another worker holds the lock the schema is not touched.\<close>

lemma waiter_leaves_schema:
  assumes "kv (view s) migrateLockKey \<noteq> None"
    and "RunMigrations detected opened M R owner start rounds d s = (r, d', s')"
  shows "d' = d"
proof -
  obtain b s1 where nx: "rd_setnx R migrateLockKey owner migrateLockTTL s = (b, s1)"
    by (cases "rd_setnx R migrateLockKey owner migrateLockTTL s")
  have "b = Inr False" using arg_cong [OF nx, of fst] assms(1) by (simp add: sem_setnx_def)
  with assms(2) nx show ?thesis
    by (auto simp: RunMigrations_def split: sum.splits prod.splits if_splits)
qed

text \<open>A worker that takes the lock runs the migrations, leaves its mark, and the lock is free again.\<close>

lemma leader_marks:
  assumes free: "kv (view s) migrateLockKey = None" and pv: "pv_manage p"
    and v: "mg_version M d = (v, d1)" "v = Inl NilVersion \<or> (\<exists>n. v = Inr (n, False))"
    and m: "runMigrate M d1 = (r, d2)"
    and e: "RunMigrations (Inr p) (Inr u) M R owner start rounds d s = (res, d', s')"
  shows "res = Some r" "d' = d2" "kv (view s') migrateLockKey = None"
    and "r = Inr () \<Longrightarrow> kv (view s') migrateDoneKey = Some (VStr ''1'')"
    and "r = Inl msg \<Longrightarrow> kv (view s') migrateFailKey = Some (VStr msg)"
proof -
  obtain b s1 where nx: "rd_setnx R migrateLockKey owner migrateLockTTL s = (b, s1)"
    by (cases "rd_setnx R migrateLockKey owner migrateLockTTL s")
  have b: "b = Inr True" using arg_cong [OF nx, of fst] free by (simp add: sem_setnx_def)
  have "view s1 = snd (sem_setnx migrateLockKey owner migrateLockTTL (view s))"
    using arg_cong [OF nx, of "\<lambda>x. view (snd x)"] by simp
  then have kv1: "kv (view s1) = (kv (view s))(migrateLockKey \<mapsto> VStr owner)"
    using free by (simp add: sem_setnx_def)
  define s2 where "s2 = (case r of Inl e \<Rightarrow> snd (rd_set R migrateFailKey e migrateDoneTTL s1)
    | Inr _ \<Rightarrow> snd (rd_set R migrateDoneKey ''1'' migrateDoneTTL s1))"
  have rl: "run_locked M R owner d s1 = (r, d2, release_lock R owner s2)"
    using v m by (auto simp: run_locked_def s2_def split: sum.splits)
  have res: "res = Some r \<and> d' = d2 \<and> s' = release_lock R owner s2"
    using e pv nx b rl by (simp add: RunMigrations_def)
  then show "res = Some r" "d' = d2" by simp_all
  have own: "str_at (view s2) migrateLockKey = Some owner"
    using kv1 by (simp add: s2_def str_at_def sem_set_def split: sum.splits)
  show "kv (view s') migrateLockKey = None" using res own by (simp add: release_lock_kv)
  show "r = Inr () \<Longrightarrow> kv (view s') migrateDoneKey = Some (VStr ''1'')"
    "r = Inl msg \<Longrightarrow> kv (view s') migrateFailKey = Some (VStr msg)"
    using res by (simp_all add: release_lock_kv s2_def sem_set_def)
qed

text \<open>A waiter goes on as soon as the mark of a finished run is there, whichever run left it.\<close>

lemma waiter_sees_done:
  assumes "kv (view s) migrateDoneKey \<noteq> None" "now < deadline"
  shows "fst (waitForMigration R deadline ((now, c, f) # rounds) s) = Some (Inr ())"
  using assms by (auto simp: case_prod_beta sem_exists_def)

lemma waiter_sees_failure:
  assumes "kv (view s) migrateDoneKey = None" "kv (view s) migrateFailKey = Some (VStr msg)" "msg \<noteq> ''''" "now < deadline"
  shows "fst (waitForMigration R deadline ((now, c, f) # rounds) s) =
    Some (Inl (''migration failed on another worker: '' @ msg))"
  using assms by (simp add: case_prod_beta sem_exists_def sem_get_def Let_def)

end

text \<open>Waiting ends, whatever Redis answers and the other workers do: at the latest in the first round
  at or after the deadline.\<close>

lemma waiting_ends:
  "\<exists>(now, c, f)\<in>set rounds. deadline \<le> now \<Longrightarrow> \<exists>r. fst (waitForMigration R deadline rounds s) = Some r"
proof (induction rounds arbitrary: s)
  case (Cons x rounds)
  obtain now c f where x: "x = (now, c, f)" by (cases x)
  show ?case
  proof (cases "now < deadline")
    case True
    with Cons.prems x have "\<exists>(now, c, f)\<in>set rounds. deadline \<le> now" by auto
    with Cons.IH True x show ?thesis by (auto simp: case_prod_beta Let_def)
  qed (simp add: x)
qed simp

lemma migration_ends:
  assumes "RunMigrations detected opened M R owner start rounds d s = (res, d', s')"
    and "\<exists>(now, c, f)\<in>set rounds. start + migrateWaitTimeout \<le> now"
  shows "res \<noteq> None"
proof -
  have "\<exists>r. fst (waitForMigration R (start + migrateWaitTimeout) rounds s1) = Some r" for s1
    using waiting_ends [OF assms(2)] .
  then have "fst (waitForMigration R (start + migrateWaitTimeout) rounds s1) \<noteq> None" for s1
    by (metis option.distinct(1))
  with assms(1) show ?thesis
    by (auto simp: RunMigrations_def case_prod_beta split: sum.splits if_splits bool.splits)
qed

end
