(* ===== verification/Telemetry.thy ===== *)
theory Telemetry
  imports Tokens Config
begin

text \<open>
  What the telemetry and the logger decide (\<open>internal/infra/telemetry\<close>, \<open>internal/infra/logger.go\<close>):
  the gauge of online bots, the record of a finished chat request, which exporters are started and
  stopped, and which writers a log line reaches. OpenTelemetry and zerolog themselves are libraries.
\<close>

section \<open>The gauge of online bots\<close>

text \<open>\<open>None\<close> is the client before \<open>SetRedisForMetrics\<close>.\<close>

definition botAliveCountCallback :: "'s redis option \<Rightarrow> int \<Rightarrow> 's \<Rightarrow> nat \<times> 's" where
  "botAliveCountCallback rdb now s =
     (case rdb of
        None \<Rightarrow> (0, s)
      | Some R \<Rightarrow>
          let cutoff = now - 30 in
          (case rd_zcount R BotAliveKey (Excl cutoff) PosInf s of
             (Inl _, s1) \<Rightarrow> (0, s1)
           | (Inr n, s1) \<Rightarrow> (n, s1)))"

text \<open>The gauge and the admin page count the same bots.\<close>

lemma gauge_is_count: "botAliveCountCallback (Some R) now s = CountOnlineBots R now s"
  by (simp add: botAliveCountCallback_def CountOnlineBots_def Let_def)

section \<open>The chat log\<close>

text \<open>Milliseconds are whole numbers in every record the code makes.\<close>

record chat_log_record =
  cl_type :: string
  cl_app :: string
  cl_session :: string
  cl_falr :: int
  cl_fafr :: int
  cl_ret :: string
  cl_ip :: string
  cl_trace :: string
  cl_func :: string
  cl_service :: string

definition chat_log_json :: "chat_log_record \<Rightarrow> json" where
  "chat_log_json r = JObj [(''log_type'', JStr (cl_type r)), (''appid'', JStr (cl_app r)),
     (''session_id'', JStr (cl_session r)), (''falr'', JInt (cl_falr r)), (''fafr'', JInt (cl_fafr r)),
     (''Ret'', JStr (cl_ret r)), (''ip'', JStr (cl_ip r)), (''trace_id'', JStr (cl_trace r)),
     (''func'', JStr (cl_func r)), (''service_name'', JStr (cl_service r))]"

text \<open>The body of the record that is emitted.\<close>

definition EmitChatLog :: "chat_log_record \<Rightarrow> string" where
  "EmitChatLog rc =
     (let rc1 = (if cl_type rc = '''' then rc\<lparr>cl_type := ''server_log''\<rparr> else rc) in json_marshal (chat_log_json rc1))"

section \<open>Exporters\<close>

text \<open>Bucket bounds in milliseconds. A meter exports every ten seconds, with the bounds of the
  instruments it has a view for; a tracer and a logger are the service name they carry.\<close>

definition RequestDurationBuckets :: "int list" where
  "RequestDurationBuckets = [5, 10, 25, 50, 100, 250, 500, 1000, 2500, 5000, 10000]"

definition StreamDurationBuckets :: "int list" where
  "StreamDurationBuckets = [1000, 5000, 10000, 30000, 60000, 120000, 300000]"

record meter =
  mt_service :: string
  mt_interval :: int
  mt_views :: "(string \<times> int list) list"

record providers =
  pr_meter :: "meter option"
  pr_tracer :: "string option"
  pr_logger :: "string option"

definition no_providers :: providers where
  "no_providers = \<lparr>pr_meter = None, pr_tracer = None, pr_logger = None\<rparr>"

text \<open>\<open>start\<close> opens the exporter of the kind it names at the endpoint, insecurely or not.\<close>

type_synonym start_exporter = "string \<Rightarrow> string \<Rightarrow> bool \<Rightarrow> string + unit"

definition initMetrics :: "start_exporter \<Rightarrow> otlp_config \<Rightarrow> providers \<Rightarrow> (string + unit) \<times> providers" where
  "initMetrics start cfg p =
     (case start ''metrics'' (oc_endpoint cfg) (oc_insecure cfg) of
        Inl e \<Rightarrow> (Inl e, p)
      | Inr _ \<Rightarrow> (Inr (), p\<lparr>pr_meter := Some \<lparr>mt_service = oc_service cfg, mt_interval = 10,
            mt_views = [(''bridge.chat.request.duration'', RequestDurationBuckets),
                        (''bridge.chat.stream.duration'', StreamDurationBuckets)]\<rparr>\<rparr>))"

definition initTraces :: "start_exporter \<Rightarrow> otlp_config \<Rightarrow> providers \<Rightarrow> (string + unit) \<times> providers" where
  "initTraces start cfg p =
     (case start ''traces'' (oc_endpoint cfg) (oc_insecure cfg) of
        Inl e \<Rightarrow> (Inl e, p)
      | Inr _ \<Rightarrow> (Inr (), p\<lparr>pr_tracer := Some (oc_service cfg)\<rparr>))"

definition initLogs :: "start_exporter \<Rightarrow> otlp_config \<Rightarrow> providers \<Rightarrow> (string + unit) \<times> providers" where
  "initLogs start cfg p =
     (case start ''logs'' (oc_endpoint cfg) (oc_insecure cfg) of
        Inl e \<Rightarrow> (Inl e, p)
      | Inr _ \<Rightarrow> (Inr (), p\<lparr>pr_logger := Some (oc_service cfg)\<rparr>))"

definition TelemetryInit :: "start_exporter \<Rightarrow> otlp_config \<Rightarrow> providers \<Rightarrow> (string + unit) \<times> providers" where
  "TelemetryInit start cfg p =
     (if \<not> oc_enabled cfg then (Inr (), p)
      else case if oc_metrics cfg then initMetrics start cfg p else (Inr (), p) of
        (Inl e, p1) \<Rightarrow> (Inl e, p1)
      | (Inr _, p1) \<Rightarrow>
          (case if oc_traces cfg then initTraces start cfg p1 else (Inr (), p1) of
             (Inl e, p2) \<Rightarrow> (Inl e, p2)
           | (Inr _, p2) \<Rightarrow> if oc_logs cfg then initLogs start cfg p2 else (Inr (), p2)))"

text \<open>The providers that are shut down, and what is left.\<close>

definition TelemetryShutdown :: "providers \<Rightarrow> string list \<times> providers" where
  "TelemetryShutdown p =
     ((if pr_meter p \<noteq> None then [''metrics''] else []) @ (if pr_tracer p \<noteq> None then [''traces''] else []) @
      (if pr_logger p \<noteq> None then [''logs''] else []),
      p\<lparr>pr_meter := None, pr_tracer := None, pr_logger := None\<rparr>)"

text \<open>Initialised with nothing running, exactly the enabled exporters run, and shutting down stops
  each of them.\<close>

lemma TelemetryInit_enabled:
  assumes "\<And>k e i. start k e i = Inr ()" "TelemetryInit start cfg no_providers = (r, p)"
  shows "r = Inr ()" "pr_meter p \<noteq> None \<longleftrightarrow> oc_enabled cfg \<and> oc_metrics cfg"
    "pr_tracer p \<noteq> None \<longleftrightarrow> oc_enabled cfg \<and> oc_traces cfg" "pr_logger p \<noteq> None \<longleftrightarrow> oc_enabled cfg \<and> oc_logs cfg"
  using assms
  by (auto simp: TelemetryInit_def initMetrics_def initTraces_def initLogs_def no_providers_def split: if_splits)

text \<open>A histogram's bounds have to ascend.\<close>

lemma buckets_ascend: "sorted_wrt (<) RequestDurationBuckets" "sorted_wrt (<) StreamDurationBuckets"
  by (simp_all add: RequestDurationBuckets_def StreamDurationBuckets_def)

lemma TelemetryShutdown_all: "snd (TelemetryShutdown p) = no_providers"
  by (simp add: TelemetryShutdown_def no_providers_def)

section \<open>Logging\<close>

text \<open>Levels as zerolog numbers them: trace -1, debug 0, info 1, warn 2, error 3, fatal 4, panic 5.
  \<open>parse\<close> is zerolog's \<open>ParseLevel\<close>; \<open>mkdir\<close> says whether a directory can be made, without which the
  process ends.\<close>

record log_setup =
  lg_dir :: string
  lg_json :: bool
  lg_level :: int

definition SetupLogger ::
    "(string \<Rightarrow> int option) \<Rightarrow> (string \<Rightarrow> bool) \<Rightarrow> (string \<Rightarrow> string) \<Rightarrow> string \<Rightarrow> log_setup option" where
  "SetupLogger parse mkdir env level =
     (let logDir = (if env ''LOG_DIR'' = '''' then ''logs'' else env ''LOG_DIR'') in
      if \<not> mkdir logDir then None
      else Some \<lparr>lg_dir = logDir,
        lg_json = (to_lower (env ''LOG_FORMAT_JSON'') = ''true''),
        lg_level = (case parse (to_lower level) of Some l \<Rightarrow> l | None \<Rightarrow> 1)\<rparr>)"

datatype log_sink = Console | ServerLog | ErrorLog

text \<open>\<open>WriteLevel\<close> of the filter in front of the error log: whether the line is passed on.\<close>

definition WriteLevel :: "int \<Rightarrow> int \<Rightarrow> bool" where
  "WriteLevel minLevel level = (level \<ge> minLevel)"

definition log_sinks :: "log_setup \<Rightarrow> int \<Rightarrow> log_sink list" where
  "log_sinks cfg level =
     (if level < lg_level cfg then []
      else [Console, ServerLog] @ (if WriteLevel 2 level then [ErrorLog] else []))"

end
