(* ===== verification/Probe.thy ===== *)
theory Probe
  imports Handlers Gateway ChatFlow
begin

text \<open>
  The probe (\<open>src/probe\<close>): it logs in, creates a token, connects a bot that answers every prompt with a
  fixed text, chats through the backend and reports whether the text came back. HTTP and the socket
  are parameters; \<open>SseWire\<close> holds the reader of its chat stream.

  The lemmas show that the bot's answers translate to the events the probe waits for, so that a
  stream that shows them ends in success.
\<close>

section \<open>Answers of the backend\<close>

text \<open>Status, body and cookies; the body is decoded up to the first value.\<close>

type_synonym http_answer = "int \<times> string \<times> (string \<times> string) list"
type_synonym 'w http_do = "http_request \<Rightarrow> 'w \<Rightarrow> (string + http_answer) \<times> 'w"

definition json_header :: "(string \<times> string) list" where
  "json_header = [(''Content-Type'', ''application/json'')]"

definition session_header :: "string \<Rightarrow> (string \<times> string) list" where
  "session_header session = [(''Cookie'', ''admin_session='' @ session)]"

text \<open>A body with a \<open>code\<close>, an \<open>error\<close> and maybe further string fields: none when it does not decode.\<close>

definition code_body :: "string list \<Rightarrow> string \<Rightarrow> json option" where
  "code_body extra body =
     (let j = struct_body body in
      if j = None \<or> struct_int_err j ''code'' \<or> list_ex (struct_str_err j) (''error'' # extra) then None else j)"

definition AdminLogin :: "'w http_do \<Rightarrow> string \<Rightarrow> string \<Rightarrow> 'w \<Rightarrow> (code_error + string) \<times> 'w" where
  "AdminLogin send baseURL password w =
     (case send \<lparr>hq_method = ''POST'', hq_url = baseURL @ ''/api/admin/auth/login'', hq_headers = json_header,
            hq_body = json_marshal (jobj [(''password'', JStr password)])\<rparr> w of
        (Inl _, w1) \<Rightarrow> (Inl (-1, ''request failed''), w1)
      | (Inr (status, body, cookies), w1) \<Rightarrow>
          (if status \<noteq> 200 then Inl (status, ''http'')
           else case code_body [] body of
             None \<Rightarrow> Inl (-1, ''decode'')
           | Some j \<Rightarrow>
               if struct_int (Some j) ''code'' 0 \<noteq> 0 then Inl (struct_int (Some j) ''code'' 0, struct_str (Some j) ''error'')
               else (case map_of cookies ''admin_session'' of
                       Some v \<Rightarrow> Inr v
                     | None \<Rightarrow> Inl (-1, ''admin_session cookie not found'')), w1))"

definition CreateProbeToken :: "'w http_do \<Rightarrow> string \<Rightarrow> string \<Rightarrow> int \<Rightarrow> 'w \<Rightarrow> (code_error + string) \<times> 'w" where
  "CreateProbeToken send baseURL session expiresIn w =
     (case send \<lparr>hq_method = ''POST'', hq_url = baseURL @ ''/api/admin/tokens'',
            hq_headers = json_header @ session_header session,
            hq_body = json_marshal (jobj [(''name'', JStr ''probe-test''), (''expires_in'', JInt expiresIn)])\<rparr> w of
        (Inl _, w1) \<Rightarrow> (Inl (-1, ''request failed''), w1)
      | (Inr (status, body, _), w1) \<Rightarrow>
          (if status \<noteq> 200 then Inl (status, ''http'')
           else case code_body [''token''] body of
             None \<Rightarrow> Inl (-1, ''decode'')
           | Some j \<Rightarrow>
               if struct_int (Some j) ''code'' 0 \<noteq> 0 then Inl (struct_int (Some j) ''code'' 0, struct_str (Some j) ''error'')
               else if struct_str (Some j) ''token'' = '''' then Inl (-1, ''empty token in response'')
               else Inr (struct_str (Some j) ''token''), w1))"

definition DeleteProbeToken :: "'w http_do \<Rightarrow> string \<Rightarrow> string \<Rightarrow> string \<Rightarrow> 'w \<Rightarrow> (code_error + unit) \<times> 'w" where
  "DeleteProbeToken send baseURL token session w =
     (case send \<lparr>hq_method = ''DELETE'', hq_url = baseURL @ ''/api/admin/tokens/'' @ token,
            hq_headers = session_header session, hq_body = ''''\<rparr> w of
        (Inl _, w1) \<Rightarrow> (Inl (-1, ''request failed''), w1)
      | (Inr (status, _, _), w1) \<Rightarrow> (if status \<noteq> 200 then Inl (status, ''http'') else Inr (), w1))"

text \<open>The error code of an answer that is no stream.\<close>

definition refused_chat :: "int \<Rightarrow> string \<Rightarrow> code_error" where
  "refused_chat status body =
     (let j = struct_body body; code = struct_int j ''code'' 0
      in (if code = 0 then status else code, struct_str j ''error''))"

definition ProbeChat :: "'w http_do \<Rightarrow> string \<Rightarrow> string \<Rightarrow> string \<Rightarrow> 'w \<Rightarrow> (code_error + chat_result) \<times> 'w" where
  "ProbeChat send baseURL token message w =
     (case send \<lparr>hq_method = ''POST'', hq_url = baseURL @ ''/bridge/chat'',
            hq_headers = json_header @ [(''Authorization'', ''Bearer '' @ token)],
            hq_body = json_marshal (jobj [(''content'', JStr message)])\<rparr> w of
        (Inl _, w1) \<Rightarrow> (Inl (-1, ''request failed''), w1)
      | (Inr (status, body, _), w1) \<Rightarrow>
          (if status \<noteq> 200 then Inl (refused_chat status body) else read_chat_stream body, w1))"

section \<open>The bot\<close>

definition probeReply :: string where "probeReply = ''astron-claw-probe-ok''"

text \<open>A prompt: its id, its method and the session it names.\<close>

record rpc_request =
  rq_id :: string
  rq_method :: string
  rq_session :: string

definition content_item_ok :: "json \<Rightarrow> bool" where
  "content_item_ok j =
     (case j of JNull \<Rightarrow> True
      | JObj m \<Rightarrow> \<not> struct_str_err (Some (JObj m)) ''type'' \<and> \<not> struct_str_err (Some (JObj m)) ''content''
      | _ \<Rightarrow> False)"

definition prompt_ok :: "json option \<Rightarrow> bool" where
  "prompt_ok j =
     (case j of None \<Rightarrow> True | Some JNull \<Rightarrow> True
      | Some (JObj m) \<Rightarrow>
          (case struct_field (Some (JObj m)) ''content'' of
             None \<Rightarrow> True | Some JNull \<Rightarrow> True | Some (JArr js) \<Rightarrow> list_all content_item_ok js | _ \<Rightarrow> False)
      | _ \<Rightarrow> False)"

definition decode_request :: "string \<Rightarrow> rpc_request option" where
  "decode_request msg =
     (let j = (case json_unmarshal msg of Some (JObj m) \<Rightarrow> Some (JObj m) | Some JNull \<Rightarrow> Some JNull | _ \<Rightarrow> None);
          params = struct_field j ''params'';
          params_ok = (case params of None \<Rightarrow> True | Some JNull \<Rightarrow> True
            | Some (JObj m) \<Rightarrow> \<not> struct_str_err params ''sessionId'' \<and> prompt_ok (struct_field params ''prompt'')
            | _ \<Rightarrow> False)
      in if j = None \<or> list_ex (struct_str_err j) [''jsonrpc'', ''id'', ''method''] \<or> \<not> params_ok then None
         else Some \<lparr>rq_id = struct_str j ''id'', rq_method = struct_str j ''method'',
                rq_session = struct_str params ''sessionId''\<rparr>)"

definition session_update :: "string \<Rightarrow> string \<Rightarrow> json" where
  "session_update kind sessionID = JObj [(''method'', JStr ''session/update''),
     (''params'', JObj [(''sessionId'', JStr sessionID),
       (''update'', JObj [(''sessionUpdate'', JStr kind),
          (''content'', JObj [(''type'', JStr ''text''), (''text'', JStr probeReply)])])])]"

definition handlePrompt :: "rpc_request \<Rightarrow> json list" where
  "handlePrompt rq =
     [session_update ''agent_message_chunk'' (rq_session rq), session_update ''agent_message_final'' (rq_session rq),
      JObj [(''jsonrpc'', JStr ''2.0''), (''id'', JStr (rq_id rq)), (''sessionId'', JStr (rq_session rq)),
            (''result'', JObj [(''stopReason'', JStr ''end_turn'')])]]"

text \<open>What the bot sends for the messages it reads, until the read fails.\<close>

fun readLoop :: "string list \<Rightarrow> json list" where
  "readLoop [] = []"
| "readLoop (msg # rest) =
     (case decode_request msg of
        None \<Rightarrow> readLoop rest
      | Some rq \<Rightarrow> (if rq_method rq = ''session/prompt'' then handlePrompt rq else []) @ readLoop rest)"

section \<open>A run\<close>

text \<open>\<open>connect\<close> dials and waits until the bot reads, \<open>close_bot\<close> closes it. The result is the code and
  the step that failed; the deferred calls run in reverse order.\<close>

definition probe_run ::
    "'w http_do \<Rightarrow> (string \<Rightarrow> 'w \<Rightarrow> (string + string + unit) \<times> 'w) \<Rightarrow> ('w \<Rightarrow> 'w) \<Rightarrow> string \<Rightarrow> string \<Rightarrow> 'w \<Rightarrow>
     (int \<times> string) \<times> 'w" where
  "probe_run send connect close_bot domain adminPassword w =
     (let baseURL = ''http://'' @ domain; wsURL = ''ws://'' @ domain in
      case AdminLogin send baseURL adminPassword w of
        (Inl (code, _), w1) \<Rightarrow> ((code, ''admin_login''), w1)
      | (Inr session, w1) \<Rightarrow>
          (case CreateProbeToken send baseURL session 3600 w1 of
             (Inl (code, _), w2) \<Rightarrow> ((code, ''create_token''), w2)
           | (Inr token, w2) \<Rightarrow>
               let cleanup = (\<lambda>w. snd (DeleteProbeToken send baseURL token session w)) in
               (case connect (wsURL @ ''/bridge/bot?token='' @ token) w2 of
                  (Inl _, w3) \<Rightarrow> ((-1, ''bot_connect''), cleanup w3)
                | (Inr (Inl _), w3) \<Rightarrow> ((-1, ''bot_ready''), cleanup (close_bot w3))
                | (Inr (Inr _), w3) \<Rightarrow>
                    (case ProbeChat send baseURL token ''probe-ping'' w3 of
                       (r, w4) \<Rightarrow>
                         ((case r of
                             Inl (code, _) \<Rightarrow> (code, ''chat'')
                           | Inr res \<Rightarrow>
                               if cr_has_error res then (-1, ''chat_error'')
                               else if \<not> str_contains (cr_content res) probeReply then (-1, ''unexpected_reply'')
                               else (0, ''success'')), cleanup (close_bot w4))))))"

section \<open>Lemmas\<close>

text \<open>The bot's two notifications, as the backend reads them, are the events the probe waits for.\<close>

definition reply_event :: "string \<Rightarrow> gomap" where
  "reply_event t = gomap_of [(''type'', JStr t), (''content'', JStr probeReply)]"

lemma probe_update_translated:
  assumes "(kind, t) \<in> {(''agent_message_chunk'', ''chunk''), (''agent_message_final'', ''done'')}"
  shows "\<exists>msg. canon (session_update kind sid) = JObj msg \<and> jfield_str msg ''method'' = Some ''session/update'' \<and>
    getNestedString (jfield_obj msg ''params'') ''sessionId'' = Some sid \<and>
    TranslateBotEvent ''session/update'' (jfield_obj msg ''params'') = Some (reply_event t)"
proof -
  have "canon (session_update kind sid) = JObj
    [(''method'', JStr ''session/update''),
     (''params'', JObj [(''sessionId'', JStr sid),
       (''update'', JObj [(''content'', JObj [(''text'', JStr probeReply), (''type'', JStr ''text'')]),
          (''sessionUpdate'', JStr kind)])])]"
    by (simp add: session_update_def jobj_def obj_of_def)
  then show ?thesis using assms
    by (auto simp: TranslateBotEvent_def getNestedString_def jfield_str_def jfield_obj_def reply_event_def Let_def)
qed

lemma reply_event_type: "t \<in> {''chunk'', ''done''} \<Longrightarrow> event_type (reply_event t) = t"
  by (auto simp: reply_event_def event_type_def jfield_str_def map_of_gomap_of)

text \<open>A stream of intact frames that shows the bot's last event, and neither an error nor another end
  ahead of it, is read as its reply.\<close>

definition quiet_frame :: "sse_frame \<Rightarrow> bool" where
  "quiet_frame f = (case f of Event t j \<Rightarrow> t \<noteq> ''done'' \<and> t \<noteq> ''error'' | Heartbeat \<Rightarrow> True)"

lemma quiet_outcome:
  "\<forall>f\<in>set fs. quiet_frame f \<Longrightarrow> cr_has_error r = False \<Longrightarrow>
   \<exists>r'. stream_outcome (fs @ gs) r = stream_outcome gs r' \<and> cr_has_error r' = False"
proof (induction fs arbitrary: r)
  case (Cons f fs)
  show ?case
  proof (cases f)
    case (Event t j)
    with Cons.prems have "t \<noteq> ''done''" "t \<noteq> ''error''" by (auto simp: quiet_frame_def)
    then show ?thesis using Event Cons.prems Cons.IH by (cases "t = ''session''") (auto simp: Let_def)
  next
    case Heartbeat
    then show ?thesis using Cons by simp
  qed
qed auto

lemma probe_reply_read:
  assumes "\<forall>f\<in>set fs. frame_ok f \<and> quiet_frame f"
  shows "\<exists>res. read_chat_stream (concat (map frame_text (fs @ [event_frame (reply_event ''done'')]))) = Inr res \<and>
    \<not> cr_has_error res \<and> cr_content res = probeReply"
proof -
  let ?d = "event_frame (reply_event ''done'')"
  have d: "?d = Event ''done'' (JObj [(''content'', JStr probeReply)])"
    by (simp add: event_frame_def reply_event_type) (simp add: reply_event_def gomap_of_def obj_of_def obj_del_def)
  have "frame_ok ?d" unfolding d by (simp add: frame_ok_def probeReply_def) code_simp
  then have "read_chat_stream (concat (map frame_text (fs @ [?d]))) = stream_outcome (fs @ [?d]) empty_chat_result"
    using assms by (intro read_stream_outcome) auto
  moreover obtain r' where "stream_outcome (fs @ [?d]) empty_chat_result = stream_outcome [?d] r'" "\<not> cr_has_error r'"
    using quiet_outcome [of fs empty_chat_result "[?d]"] assms by (auto simp: empty_chat_result_def)
  ultimately show ?thesis
    unfolding d by (simp add: Let_def struct_str_def struct_field_def probeReply_def jobj_def obj_of_def)
qed

text \<open>Once the token was created, a run ends with its deletion, whatever else happened.\<close>

lemma probe_deletes_token:
  assumes "AdminLogin send (''http://'' @ domain) pw w = (Inr session, w1)"
    and "CreateProbeToken send (''http://'' @ domain) session 3600 w1 = (Inr token, w2)"
  shows "\<exists>w3. snd (probe_run send connect close_bot domain pw w) =
    snd (DeleteProbeToken send (''http://'' @ domain) token session w3)"
  using assms by (auto simp: probe_run_def Let_def split: prod.splits sum.splits)

lemma probe_succeeds:
  assumes "AdminLogin send (''http://'' @ domain) pw w = (Inr session, w1)"
    and "CreateProbeToken send (''http://'' @ domain) session 3600 w1 = (Inr token, w2)"
    and "connect (''ws://'' @ domain @ ''/bridge/bot?token='' @ token) w2 = (Inr (Inr ()), w3)"
    and "ProbeChat send (''http://'' @ domain) token ''probe-ping'' w3 = (read_chat_stream body, w4)"
    and "body = concat (map frame_text (fs @ [event_frame (reply_event ''done'')]))"
    and "\<forall>f\<in>set fs. frame_ok f \<and> quiet_frame f"
  shows "fst (probe_run send connect close_bot domain pw w) = (0, ''success'')"
proof -
  obtain res where r: "read_chat_stream body = Inr res" "\<not> cr_has_error res" "cr_content res = probeReply"
    using probe_reply_read [OF assms(6)] assms(5) by blast
  have "str_contains probeReply probeReply" by (simp add: probeReply_def) code_simp
  then show ?thesis using assms(1-4) r by (simp add: probe_run_def Let_def)
qed

end
