(* ===== verification/BotLoad.thy ===== *)
theory BotLoad
  imports SseWire Url
begin

text \<open>
  The load generator \<open>cmd/botload/main.go\<close>: its configuration, the address it dials, its token file,
  the batches in which it starts the bots, and the bots themselves, which share the counters of
  \<open>stats\<close>. Every atomic operation on a counter is a step of its own, so the step relation has all
  the interleavings of the bots. \<open>flag\<close>, the dialer and the terminal are not modelled.

  The lemmas bound the normalised configuration, show that the batches start every token once and in
  order, and that \<open>connected_now\<close> counts the open connections in every reachable state.
\<close>

section \<open>Configuration\<close>

record load_config =
  lc_host :: string
  lc_token_file :: string
  lc_ws_url :: string
  lc_target :: int
  lc_batch_size :: int
  lc_batch_interval :: int
  lc_ping_interval :: int
  lc_report_interval :: int
  lc_handshake_timeout :: int
  lc_reconnect_delay :: int

datatype load_error =
  HostRequired | TokenFileRequired | TokenFileEmpty | TargetNegative
| EmptyHost | HostUnparsable | HostMissing | UnsupportedScheme string | LineTooLong

text \<open>\<open>path.Clean\<close>: the components kept so far are in reverse order.\<close>

fun clean_parts :: "bool \<Rightarrow> string list \<Rightarrow> string list \<Rightarrow> string list" where
  "clean_parts rooted acc [] = rev acc"
| "clean_parts rooted acc (p # ps) =
     (if p = '''' \<or> p = ''.'' then clean_parts rooted acc ps
      else if p = ''..'' then
        (case acc of
           a # acc' \<Rightarrow> if a = ''..'' then clean_parts rooted (p # acc) ps else clean_parts rooted acc' ps
         | [] \<Rightarrow> clean_parts rooted (if rooted then [] else [p]) ps)
      else clean_parts rooted (p # acc) ps)"

definition path_clean :: "string \<Rightarrow> string" where
  "path_clean p =
     (let rooted = has_prefix p ''/'';
          body = str_join ''/'' (clean_parts rooted [] (split_on (CHR ''/'') p))
      in if rooted then ''/'' @ body else if body = '''' then ''.'' else body)"

definition path_join :: "string list \<Rightarrow> string" where
  "path_join elems =
     (let es = dropWhile (\<lambda>e. e = '''') elems in if es = [] then '''' else path_clean (str_join ''/'' es))"

definition resolveWSURL :: "string \<Rightarrow> load_error + string" where
  "resolveWSURL rawHost =
     (let h = trim_space rawHost in
      if h = '''' then Inl EmptyHost
      else case url_parse (if str_contains h ''://'' then h else ''ws://'' @ h) of
        None \<Rightarrow> Inl HostUnparsable
      | Some u \<Rightarrow>
          if u_host u = '''' then Inl HostMissing
          else if u_scheme u \<notin> set [''http'', ''https'', ''ws'', ''wss''] then Inl (UnsupportedScheme (u_scheme u))
          else
            let u1 = u\<lparr>u_scheme := (if u_scheme u = ''http'' then ''ws''
                                   else if u_scheme u = ''https'' then ''wss'' else u_scheme u)\<rparr>;
                p = u_path u;
                trimmed = rev (dropWhile (\<lambda>c. c = CHR ''/'') (rev p));
                p1 = (if p = '''' \<or> p = ''/'' then ''/bridge/bot''
                      else if \<not> has_suffix trimmed ''/bridge/bot'' then
                        (let j = path_join [p, ''bridge/bot''] in if has_prefix j ''/'' then j else ''/'' @ j)
                      else p)
            in Inr (url_string (u1\<lparr>u_path := p1\<rparr>)))"

definition or_positive :: "int \<Rightarrow> int \<Rightarrow> int" where
  "or_positive n d = (if n \<le> 0 then d else n)"

definition normalizeConfig :: "load_config \<Rightarrow> int \<Rightarrow> load_error + load_config" where
  "normalizeConfig cfg tokenCount =
     (if trim_space (lc_host cfg) = '''' then Inl HostRequired
      else if trim_space (lc_token_file cfg) = '''' then Inl TokenFileRequired
      else if tokenCount \<le> 0 then Inl TokenFileEmpty
      else if lc_target cfg < 0 then Inl TargetNegative
      else
        let target = (if lc_target cfg = 0 \<or> lc_target cfg > tokenCount then tokenCount else lc_target cfg);
            batch = or_positive (lc_batch_size cfg) (min target 100);
            batch1 = (if batch > target then target else batch);
            cfg1 = cfg\<lparr>lc_target := target, lc_batch_size := batch1,
              lc_batch_interval := or_positive (lc_batch_interval cfg) 500000000,
              lc_ping_interval := or_positive (lc_ping_interval cfg) 20000000000,
              lc_report_interval := or_positive (lc_report_interval cfg) 5000000000,
              lc_handshake_timeout := or_positive (lc_handshake_timeout cfg) 10000000000,
              lc_reconnect_delay := or_positive (lc_reconnect_delay cfg) 1000000000\<rparr>
        in case resolveWSURL (lc_host cfg) of
             Inl e \<Rightarrow> Inl e
           | Inr wsURL \<Rightarrow> Inr (cfg1\<lparr>lc_ws_url := wsURL\<rparr>))"

text \<open>The tokens of a file's text; a line over the scanner's buffer is its error.\<close>

definition token_line :: "string \<Rightarrow> bool" where
  "token_line line = (line \<noteq> '''' \<and> \<not> has_prefix line ''#'')"

definition loadTokens :: "string \<Rightarrow> load_error + string list" where
  "loadTokens text =
     (let ls = raw_lines text in
      if list_all line_fits ls then Inr (filter token_line (map (\<lambda>l. trim_space (strip_cr l)) ls))
      else Inl LineTooLong)"

section \<open>Batches\<close>

text \<open>The loop of \<open>run\<close>: the batches of tokens it starts from \<open>start\<close> on. \<open>stopped end\<close> says that the
  context was cancelled in the pause after the batch that ends there. A batch size of zero never
  ends, which is \<open>None\<close>; a negative one slices past the start and panics, which is \<open>Some None\<close>.\<close>

partial_function (option) run_batches ::
    "(int \<Rightarrow> bool) \<Rightarrow> int \<Rightarrow> string list \<Rightarrow> int \<Rightarrow> string list list option option" where
  [code]: "run_batches stopped batch tokens start =
     (if start \<ge> int (length tokens) then Some (Some [])
      else
        let stop = min (start + batch) (int (length tokens)) in
        if stop < start then Some None
        else
          let b = take (nat (stop - start)) (drop (nat start) tokens) in
          if stop < int (length tokens) \<and> stopped stop then Some (Some [b])
          else Option.bind (run_batches stopped batch tokens (start + batch))
                 (\<lambda>r. Some (map_option ((#) b) r)))"

section \<open>Bots and counters\<close>

record load_stats =
  ls_started :: int
  ls_connected_now :: int
  ls_connected_total :: int
  ls_reconnect_total :: int
  ls_connect_fail_total :: int
  ls_close_codes :: "(int \<times> int) list"

text \<open>Where a bot is in \<open>run\<close> and \<open>connectOnce\<close>: at the head of the loop (whether for the first
  time), in the pause, dialing, with \<open>connectedNow\<close> counted, at the head of the read loop, in
  \<open>ReadMessage\<close>, leaving with a close code (zero for none), back in \<open>run\<close>, at its last check, or returned.\<close>

datatype bot_phase =
  LoopHead bool | Pausing | BotDialing | Counted | AtRead | InRead | Leaving int | BackWith int | Checking | BotReturned

definition incCloseCode :: "int \<Rightarrow> load_stats \<Rightarrow> load_stats" where
  "incCloseCode code s =
     s\<lparr>ls_close_codes :=
         (if code \<in> fst ` set (ls_close_codes s)
          then map (\<lambda>(c, n). if c = code then (c, n + 1) else (c, n)) (ls_close_codes s)
          else ls_close_codes s @ [(code, 1)])\<rparr>"

definition closeCodeSummary :: "load_stats \<Rightarrow> string" where
  "closeCodeSummary s =
     (let pairs = sort_key fst (ls_close_codes s) in
      if pairs = [] then ''-''
      else str_join '','' (map (\<lambda>(c, n). itoa c @ '':'' @ itoa n) pairs))"

text \<open>What the environment answers a bot: a dial or a read that succeeds or fails with a close code (zero
  for any other error); in the pause, that the timer or the cancelled context was chosen. Where the
  code asks nothing the answer is ignored.\<close>

datatype bot_input = Fine | Fails int

text \<open>One step of a bot; \<open>cancelled\<close> is the context's state. Every failure of \<open>connectOnce\<close>,
  the end of an open connection included, is an error to \<open>run\<close>.\<close>

fun bot_step :: "bool \<Rightarrow> bot_input \<Rightarrow> bot_phase \<times> load_stats \<Rightarrow> bot_phase \<times> load_stats" where
  "bot_step cancelled i (LoopHead first, s) =
     (if cancelled then (BotReturned, s)
      else if first then (BotDialing, s)
      else (Pausing, s\<lparr>ls_reconnect_total := ls_reconnect_total s + 1\<rparr>))"
| "bot_step cancelled Fine (Pausing, s) = (BotDialing, s)"
| "bot_step cancelled (Fails _) (Pausing, s) = (if cancelled then BotReturned else Pausing, s)"
| "bot_step cancelled (Fails code) (BotDialing, s) = (BackWith code, s)"
| "bot_step cancelled Fine (BotDialing, s) = (Counted, s\<lparr>ls_connected_now := ls_connected_now s + 1\<rparr>)"
| "bot_step cancelled i (Counted, s) = (AtRead, s\<lparr>ls_connected_total := ls_connected_total s + 1\<rparr>)"
| "bot_step cancelled i (AtRead, s) = (if cancelled then Leaving 0 else InRead, s)"
| "bot_step cancelled Fine (InRead, s) = (AtRead, s)"
| "bot_step cancelled (Fails code) (InRead, s) = (Leaving code, s)"
| "bot_step cancelled i (Leaving code, s) = (BackWith code, s\<lparr>ls_connected_now := ls_connected_now s - 1\<rparr>)"
| "bot_step cancelled i (BackWith code, s) = (Checking, if code \<noteq> 0 then incCloseCode code s else s)"
| "bot_step cancelled i (Checking, s) =
     (LoopHead False, if cancelled then s else s\<lparr>ls_connect_fail_total := ls_connect_fail_total s + 1\<rparr>)"
| "bot_step cancelled i (BotReturned, s) = (BotReturned, s)"

text \<open>The program: the bots started so far, the counters and the context. \<open>Start\<close> is the body of the
  inner loop of \<open>run\<close>.\<close>

type_synonym load_world = "bot_phase list \<times> load_stats \<times> bool"

definition load_start :: load_world where
  "load_start = ([], \<lparr>ls_started = 0, ls_connected_now = 0, ls_connected_total = 0, ls_reconnect_total = 0,
     ls_connect_fail_total = 0, ls_close_codes = []\<rparr>, False)"

inductive load_step :: "load_world \<Rightarrow> load_world \<Rightarrow> bool" where
  Start: "load_step (bots, s, c) (bots @ [LoopHead True], s\<lparr>ls_started := ls_started s + 1\<rparr>, c)"
| Bot: "k < length bots \<Longrightarrow> bot_step c i (bots ! k, s) = (p, s') \<Longrightarrow> load_step (bots, s, c) (bots[k := p], s', c)"
| Cancel: "load_step (bots, s, c) (bots, s, True)"

inductive load_reach :: "load_world \<Rightarrow> bool" where
  Init: "load_reach load_start"
| Step: "load_reach w \<Longrightarrow> load_step w w' \<Longrightarrow> load_reach w'"

section \<open>Lemmas\<close>

lemma normalizeConfig_bounds:
  assumes "normalizeConfig cfg n = Inr cfg'"
  shows "0 < lc_target cfg'" and "lc_target cfg' \<le> n" and "0 < lc_batch_size cfg'"
    and "lc_batch_size cfg' \<le> lc_target cfg'" and "0 < lc_batch_interval cfg'" and "0 < lc_ping_interval cfg'"
    and "0 < lc_report_interval cfg'" and "0 < lc_handshake_timeout cfg'" and "0 < lc_reconnect_delay cfg'"
    and "resolveWSURL (lc_host cfg) = Inr (lc_ws_url cfg')"
proof -
  let ?t = "if lc_target cfg = 0 \<or> lc_target cfg > n then n else lc_target cfg"
  let ?b = "or_positive (lc_batch_size cfg) (min ?t 100)"
  obtain u where u: "resolveWSURL (lc_host cfg) = Inr u" and n: "0 < n" "0 \<le> lc_target cfg" and
    c: "cfg' = cfg\<lparr>lc_target := ?t, lc_batch_size := (if ?b > ?t then ?t else ?b),
              lc_batch_interval := or_positive (lc_batch_interval cfg) 500000000,
              lc_ping_interval := or_positive (lc_ping_interval cfg) 20000000000,
              lc_report_interval := or_positive (lc_report_interval cfg) 5000000000,
              lc_handshake_timeout := or_positive (lc_handshake_timeout cfg) 10000000000,
              lc_reconnect_delay := or_positive (lc_reconnect_delay cfg) 1000000000, lc_ws_url := u\<rparr>"
    using assms unfolding normalizeConfig_def Let_def by (simp split: if_split_asm sum.split_asm)
  have t: "0 < ?t" "?t \<le> n" using n by auto
  have pos: "0 < d \<Longrightarrow> 0 < or_positive m d" for m d by (simp add: or_positive_def)
  have b: "0 < ?b" using pos [of "min ?t 100"] t(1) by simp
  show "0 < lc_target cfg'" and "lc_target cfg' \<le> n" using t unfolding c by simp_all
  show "0 < lc_batch_size cfg'" and "lc_batch_size cfg' \<le> lc_target cfg'" using t b unfolding c by simp_all
  show "0 < lc_batch_interval cfg'" and "0 < lc_ping_interval cfg'" and "0 < lc_report_interval cfg'"
    and "0 < lc_handshake_timeout cfg'" and "0 < lc_reconnect_delay cfg'" unfolding c by (simp_all add: pos)
  show "resolveWSURL (lc_host cfg) = Inr (lc_ws_url cfg')" using u unfolding c by simp
qed

text \<open>A positive batch size ends, and without a cancellation starts each token once, in order.\<close>

lemma run_batches_all:
  assumes b: "0 < batch" and s: "0 \<le> start"
  shows "\<exists>bs. run_batches (\<lambda>_. False) batch tokens start = Some (Some bs) \<and> concat bs = drop (nat start) tokens \<and>
           (\<forall>x\<in>set bs. int (length x) \<le> batch)"
  using s
proof (induction "nat (int (length tokens) - start)" arbitrary: start rule: less_induct)
  case less
  show ?case
  proof (cases "start \<ge> int (length tokens)")
    case True
    then show ?thesis by (subst run_batches.simps) (auto simp: nat_le_iff)
  next
    case False
    let ?stop = "min (start + batch) (int (length tokens))"
    let ?b = "take (nat (?stop - start)) (drop (nat start) tokens)"
    have "nat (int (length tokens) - (start + batch)) < nat (int (length tokens) - start)" using False b by linarith
    moreover have "0 \<le> start + batch" using less.prems b by linarith
    ultimately obtain bs where bs: "run_batches (\<lambda>_. False) batch tokens (start + batch) = Some (Some bs)"
      "concat bs = drop (nat (start + batch)) tokens" "\<forall>x\<in>set bs. int (length x) \<le> batch"
      using less.hyps [of "start + batch"] by blast
    have "run_batches (\<lambda>_. False) batch tokens start = Some (Some (?b # bs))"
      using False b bs(1) less.prems by (subst run_batches.simps) (simp add: Let_def)
    moreover have "?b @ drop (nat (start + batch)) tokens = drop (nat start) tokens"
    proof (cases "start + batch \<le> int (length tokens)")
      case True
      have e: "nat (start + batch) = nat batch + nat start" using b less.prems by linarith
      have "nat (?stop - start) = nat batch" using True by simp
      then show ?thesis unfolding e by (metis append_take_drop_id drop_drop)
    next
      case f: False
      have "length (drop (nat start) tokens) \<le> nat (?stop - start)" using f by simp
      then show ?thesis using f by simp
    qed
    moreover have "int (length ?b) \<le> batch" using b by simp
    ultimately show ?thesis using bs by simp
  qed
qed

lemma run_batches_zero:
  assumes "tokens \<noteq> []"
  shows "run_batches (\<lambda>_. False) 0 tokens 0 = None"
proof -
  let ?P = "\<lambda>stopped batch toks start r. stopped = (\<lambda>_. False) \<longrightarrow> batch = 0 \<longrightarrow> \<not> start < int (length toks)"
  have "?P stopped batch toks start r"
    if "run_batches stopped batch toks start = Some r" for stopped batch toks start r
    using that
    by (rule run_batches.raw_induct [where P = ?P, rotated]) (fastforce simp: Let_def split: if_splits bind_splits)
  from this [of _ 0 tokens 0] show ?thesis using assms by (cases "run_batches (\<lambda>_. False) 0 tokens 0") auto
qed

text \<open>The counters a bot has moved so far, by its phase.\<close>

definition connected_part :: "bot_phase \<Rightarrow> nat" where
  "connected_part p = (case p of Counted \<Rightarrow> 1 | AtRead \<Rightarrow> 1 | InRead \<Rightarrow> 1 | Leaving _ \<Rightarrow> 1 | _ \<Rightarrow> 0)"

definition counters_true :: "load_world \<Rightarrow> bool" where
  "counters_true w = (case w of (bots, s, c) \<Rightarrow>
     ls_started s = int (length bots) \<and> ls_connected_now s = int (sum_list (map connected_part bots)))"

lemma bot_step_counts:
  "bot_step c i (p, s) = (p', s') \<Longrightarrow> ls_started s' = ls_started s \<and>
     ls_connected_now s' = ls_connected_now s + int (connected_part p') - int (connected_part p)"
  by (induction c i "(p, s)" rule: bot_step.induct)
     (auto simp: connected_part_def incCloseCode_def split: if_splits)

lemma load_step_counters: "load_step w w' \<Longrightarrow> counters_true w \<Longrightarrow> counters_true w'"
proof (induction rule: load_step.induct)
  case (Bot k bots c i s p s')
  have "sum_list (map connected_part (bots[k := p])) = sum_list (map connected_part bots) + connected_part p - connected_part (bots ! k)"
    using Bot(1) by (simp add: map_update sum_list_update)
  moreover have "connected_part (bots ! k) \<le> sum_list (map connected_part bots)"
    using Bot(1) member_le_sum_list [of "connected_part (bots ! k)" "map connected_part bots"] by simp
  ultimately show ?case using bot_step_counts [OF Bot(2)] Bot(3) by (simp add: counters_true_def)
qed (auto simp: counters_true_def connected_part_def)

lemma load_counters: "load_reach w \<Longrightarrow> counters_true w"
proof (induction rule: load_reach.induct)
  case Init
  show ?case by (simp add: counters_true_def load_start_def)
next
  case (Step w w')
  then show ?case using load_step_counters by blast
qed

end
