(* ===== verification/ServerMain.thy ===== *)
theory ServerMain
  imports Migrate Telemetry
begin

text \<open>
  \<open>cmd/server/main.go\<close>: the order in which the components are configured and started, and in which
  they are stopped. Every call that can fail ends the process there, without the stops of the end
  of \<open>main\<close>; what is outside the repository (MySQL, Redis, the collector, the object service, the
  migration library) is a field of \<open>platform\<close>. The HTTP server's loop is not modelled.

  The lemmas show what a server that serves has checked, and that a stopped one takes no bot and runs no
  exporter.
\<close>

section \<open>Start\<close>

text \<open>\<open>pf_grants\<close> is asked twice, by \<open>InitDB\<close> and by \<open>RunMigrations\<close>; \<open>pf_rounds\<close> are the rounds of a
  wait for another worker's migration.\<close>

record ('s, 'd, 'o) platform =
  pf_env :: "string \<Rightarrow> string"
  pf_procs :: int
  pf_cpus :: int
  pf_parse_level :: "string \<Rightarrow> int option"
  pf_mkdir :: "string \<Rightarrow> bool"
  pf_format_dsn :: "dsn_config \<Rightarrow> string"
  pf_exec :: "string \<Rightarrow> string \<Rightarrow> 'd \<Rightarrow> (string + unit) \<times> 'd"
  pf_db_ping :: "string \<Rightarrow> 'd \<Rightarrow> string + unit"
  pf_grants :: "'d \<Rightarrow> string + string list"
  pf_redis_ping :: "redis_options \<Rightarrow> string + unit"
  pf_redis :: "'s redis"
  pf_exporter :: start_exporter
  pf_migration_open :: "string + unit"
  pf_migrator :: "'d migrator"
  pf_owner :: string
  pf_now :: int
  pf_rounds :: "(int \<times> bool \<times> ('s \<Rightarrow> 's)) list"
  pf_s3_start :: "string + unit"
  pf_s3 :: "'o s3_client"
  pf_worker :: string

text \<open>A server that serves: its configuration, its pod address for the metrics, the queue, the bridge,
  the exporters and the address it listens on.\<close>

record 's server =
  sr_config :: app_config
  sr_log :: log_setup
  sr_pod :: string
  sr_queue :: "'s mq"
  sr_bridge :: bridge
  sr_providers :: providers
  sr_addr :: string

datatype 's start_result = Fatal string | StartPanics | StillWaiting | Serving "'s server"

definition start_storage :: "('s, 'd, 'o) platform \<Rightarrow> storage_config \<Rightarrow> 'o \<Rightarrow> (string + unit) \<times> 'o" where
  "start_storage P cfg st =
     (case NewStorage cfg of
        None \<Rightarrow> (Inl ''Unknown storage type'', st)
      | Some GatewayProvider \<Rightarrow> (Inr (), st)
      | Some S3Provider \<Rightarrow>
          (case pf_s3_start P of
             Inl _ \<Rightarrow> (Inl ''Failed to start object storage'', st)
           | Inr _ \<Rightarrow>
               (case EnsureBucket (pf_s3 P) cfg st of
                  (Inl _, st1) \<Rightarrow> (Inl ''Failed to ensure storage bucket'', st1)
                | (Inr _, st1) \<Rightarrow> (Inr (), st1))))"

text \<open>The services of \<open>main\<close>, once the stores are up.\<close>

definition start_services ::
    "('s, 'd, 'o) platform \<Rightarrow> app_config \<Rightarrow> log_setup \<Rightarrow> providers \<Rightarrow> 'o \<Rightarrow> 's start_result \<times> 'o" where
  "start_services P cfg lg pr st =
     (case start_storage P (cf_storage cfg) st of
        (Inl e, st1) \<Rightarrow> (Fatal e, st1)
      | (Inr _, st1) \<Rightarrow>
          (case NewQueue (qc_type (cf_queue cfg)) (pf_redis P) (qc_max_len (cf_queue cfg)) of
             Inl _ \<Rightarrow> (Fatal ''Failed to create message queue'', st1)
           | Inr Q \<Rightarrow>
               (Serving \<lparr>sr_config = cfg, sr_log = lg,
                  sr_pod = (if pf_env P ''POD_IP'' = '''' then ''unknown'' else pf_env P ''POD_IP''),
                  sr_queue = Q,
                  sr_bridge = SetWorkerInboxConsumers (sv_inbox_consumers (cf_server cfg)) (NewConnectionBridge (pf_worker P)),
                  sr_providers = pr,
                  sr_addr = sv_host (cf_server cfg) @ '':'' @ itoa (sv_port (cf_server cfg))\<rparr>, st1)))"

definition server_start :: "('s, 'd, 'o) platform \<Rightarrow> 'd \<Rightarrow> 's \<Rightarrow> 'o \<Rightarrow> 's start_result \<times> 'd \<times> 's \<times> 'o" where
  "server_start P d s st =
     (case Load (pf_procs P) (pf_cpus P) (pf_env P) of
        None \<Rightarrow> (Fatal ''Invalid OSS_TYPE'', d, s, st)
      | Some cfg \<Rightarrow>
          (case SetupLogger (pf_parse_level P) (pf_mkdir P) (pf_env P) (sv_log_level (cf_server cfg)) of
             None \<Rightarrow> (Fatal ''Failed to create log directory'', d, s, st)
           | Some lg \<Rightarrow>
          let detect = (\<lambda>d. detectMySQLDDLPrivileges (pf_grants P d) (cf_mysql cfg)) in
          (case InitDB (pf_format_dsn P) (pf_exec P) (pf_db_ping P) (detect d) (cf_mysql cfg) (cf_pool cfg) d of
             (Inl _, d1) \<Rightarrow> (Fatal ''Failed to initialise MySQL'', d1, s, st)
           | (Inr _, d1) \<Rightarrow>
               (case InitRedis (pf_redis_ping P) (cf_redis cfg) of
                  InitPanics \<Rightarrow> (StartPanics, d1, s, st)
                | InitFails _ \<Rightarrow> (Fatal ''Failed to initialise Redis'', d1, s, st)
                | InitDone _ _ \<Rightarrow>
                    (case TelemetryInit (pf_exporter P) (cf_otlp cfg) no_providers of
                       (Inl _, _) \<Rightarrow> (Fatal ''Failed to initialise OTLP telemetry'', d1, s, st)
                     | (Inr _, pr) \<Rightarrow>
                         (case RunMigrations (detect d1) (pf_migration_open P) (pf_migrator P) (pf_redis P)
                                 (pf_owner P) (pf_now P) (pf_rounds P) d1 s of
                            (None, d2, s2) \<Rightarrow> (StillWaiting, d2, s2, st)
                          | (Some (Inl _), d2, s2) \<Rightarrow> (Fatal ''Failed to run database migrations'', d2, s2, st)
                          | (Some (Inr _), d2, s2) \<Rightarrow>
                              (case start_services P cfg lg pr st of (r, st1) \<Rightarrow> (r, d2, s2, st1))))))))"

section \<open>Stop\<close>

text \<open>After the HTTP server: the bridge, the exporters, and the connections to Redis and MySQL, which
  the last two lists name.\<close>

definition server_stop :: "('s, 'd, 'o) platform \<Rightarrow> 's server \<Rightarrow> 's \<Rightarrow> ('s server \<times> string list) \<times> 's" where
  "server_stop P sv s =
     (case Shutdown (pf_redis P) (sr_bridge sv) s of
        (b1, s1) \<Rightarrow>
          (case TelemetryShutdown (sr_providers sv) of
             (stopped, pr) \<Rightarrow>
               ((sv\<lparr>sr_bridge := b1, sr_providers := pr\<rparr>, stopped @ [''storage'', ''redis'', ''mysql'']), s1)))"

section \<open>Laws\<close>

lemma ensureDatabase_valid: "ensureDatabase f ex dp cfg d = (Inr u, d') \<Longrightarrow> validDBName (my_database cfg)"
  by (auto simp: ensureDatabase_def split: if_splits)

text \<open>A server that serves has a valid configuration, at least one Redis address, migrations that were
  run, skipped or done elsewhere, the queue the rest of the development is about, a fresh bridge, and
  the exporters that are enabled.\<close>

lemma serving_checked:
  assumes "server_start P d s st = (Serving sv, d', s', st')"
  shows "Load (pf_procs P) (pf_cpus P) (pf_env P) = Some (sr_config sv)"
    and "validDBName (my_database (cf_mysql (sr_config sv)))"
    and "rc_addrs (cf_redis (sr_config sv)) \<noteq> []"
    and "sr_queue sv = NewRedisStreamQueue (pf_redis P) (qc_max_len (cf_queue (sr_config sv)))"
    and "bridge_inv (sr_bridge sv)" and "b_bots (sr_bridge sv) = []"
    and "NewStorage (cf_storage (sr_config sv)) \<noteq> None"
proof -
  obtain cfg lg pr st1 where H: "Load (pf_procs P) (pf_cpus P) (pf_env P) = Some cfg"
    "validDBName (my_database (cf_mysql cfg))" "rc_addrs (cf_redis cfg) \<noteq> []"
    "start_services P cfg lg pr st = (Serving sv, st1)"
    using assms
    by (auto simp: server_start_def Let_def InitDB_def InitRedis_def dest!: ensureDatabase_valid
        split: option.splits prod.splits sum.splits if_splits init_result.splits)
  have S: "sr_config sv = cfg" "sr_queue sv = NewRedisStreamQueue (pf_redis P) (qc_max_len (cf_queue cfg))"
    "sr_bridge sv = SetWorkerInboxConsumers (sv_inbox_consumers (cf_server cfg)) (NewConnectionBridge (pf_worker P))"
    "NewStorage (cf_storage cfg) \<noteq> None"
    using H(4)
    by (auto simp: start_services_def NewQueue_def start_storage_def split: prod.splits sum.splits if_splits option.splits)
  show "Load (pf_procs P) (pf_cpus P) (pf_env P) = Some (sr_config sv)"
    and "validDBName (my_database (cf_mysql (sr_config sv)))" and "rc_addrs (cf_redis (sr_config sv)) \<noteq> []"
    and "sr_queue sv = NewRedisStreamQueue (pf_redis P) (qc_max_len (cf_queue (sr_config sv)))"
    and "NewStorage (cf_storage (sr_config sv)) \<noteq> None" using H S by simp_all
  show "bridge_inv (sr_bridge sv)" and "b_bots (sr_bridge sv) = []"
    unfolding S(3) using new_bridge_inv by (auto simp: SetWorkerInboxConsumers_def bridge_inv_def NewConnectionBridge_def)
qed

lemma stopped_empty:
  "server_stop P sv s = ((sv', closed), s') \<Longrightarrow> sr_providers sv' = no_providers \<and> b_down (sr_bridge sv')"
  by (auto simp: server_stop_def Shutdown_def TelemetryShutdown_def no_providers_def bridge_simps case_prod_beta)

end
