(* ===== verification/Spec2Isabelle.thy ===== *)
theory Spec2Isabelle
  imports Scenario Worker Cluster Access Media Migrate Telemetry Probe BotLoad ServerMain
begin

text \<open>
  Astron Claw connects chat clients to bots. A bot holds a WebSocket to one worker of the backend, a
  client posts a chat request to any worker and reads the reply as server-sent events, and the
  workers meet in Redis (registry, inboxes, caches) and MySQL (tokens, sessions, configuration). This
  library models the Go programs of the repository: the backend (\<open>src/backend\<close>), the load
  generator (\<open>src/backend/cmd/botload\<close>) and the probe (\<open>src/probe\<close>). Paths below are relative to
  \<open>src/backend/internal\<close> where they do not say otherwise.

  \<^bold>\<open>How the code is modelled.\<close> A Go function is a HOL function of the same name; what it changes is
  passed in and returned: \<open>'s\<close> is the state behind a Redis client, \<open>'d\<close> that behind a database
  connection, \<open>'o\<close> that of the object service, \<open>bridge\<close> a worker's memory. Every error return, panic
  and early return is a branch (\<open>Inl\<close> or an option). Strings are byte strings, \<open>int\<close> values are \<open>int\<close>
  with \<open>wrap64\<close> written out where the code can overflow, SHA-256 works on 32-bit words. Clocks, UUIDs
  and random bytes are arguments. Goroutines, tickers and timers are steps: each call of a handler or
  of a loop's body is one function, and \<open>Worker\<close>, \<open>Cluster\<close>, \<open>BotLoad\<close> and \<open>Sessions\<close> have step
  relations in which they occur in any order.

  \<^bold>\<open>What is outside the repository\<close> is a parameter: \<open>Redis.redis\<close> and \<open>Db.dbtable\<close> are records of the
  commands and query shapes the code issues, and the locales \<open>redis_service\<close> (a call works as
  documented or fails), \<open>redis_up\<close> (no call fails) and \<open>table_up\<close> state their documented effect;
  likewise \<open>object_storage\<close>, \<open>s3_service\<close> and \<open>migrate_library\<close>, and \<open>bcrypt\<close> in \<open>admin_backend\<close>. Each
  locale is interpreted on an in-memory instance, and the interfaces of the code itself
  (\<open>message_queue\<close>, \<open>token_ring\<close>, \<open>object_storage\<close>) on the code's own definitions. The standard library
  is written out as far as it is used (\<open>strings\<close>, \<open>strconv\<close>, \<open>encoding/json\<close>, \<open>net/url\<close>, \<open>base64\<close>,
  \<open>crypto/sha256\<close>, HMAC, HTTP dates, \<open>bufio.Scanner\<close>, \<open>path\<close>).

  \<^bold>\<open>The theories.\<close>
  \<^item> Foundations: \<open>Prelude\<close> (strings, rule collections), \<open>Strconv\<close>, \<open>Json\<close> (parser and printer with
    their round trip), \<open>Float64\<close>, \<open>Url\<close>, \<open>Sha256\<close>, \<open>Redis\<close>, \<open>Db\<close>.
  \<^item> \<open>Errors\<close> (\<open>model/errors.go\<close>), \<open>SseWire\<close> (\<open>pkg/sse.go\<close> and the probe's reader).
  \<^item> \<open>Queue\<close> (\<open>service/queue.go\<close>): the Redis stream queue refines a FIFO channel.
  \<^item> \<open>Bridge\<close>, \<open>Registry\<close>, \<open>BridgeApi\<close> (\<open>service/bridge*.go\<close>): registration, eviction, heartbeats, cleanup,
    shutdown, sessions. \<open>Shared\<close> is their abstract specification, a map from bots to last heartbeat,
    owner and generation, with a refinement lemma for each operation. \<open>Ring\<close> and \<open>Reconcile\<close>
    (\<open>service/bridge_reconcile.go\<close>): the ring of tokens and the reconcile round. \<open>Translate\<close> and
    \<open>BotMessage\<close>: messages from and to a bot and the worker inbox. \<open>Worker\<close>: all of it as a
    transition system with its invariant. \<open>Cluster\<close>: the registry operations of many workers on one
    Redis, and what routing relies on.
  \<^item> \<open>Monitor\<close> (\<open>service/bot_status_monitor.go\<close>), \<open>Sessions\<close> (\<open>session_store.go\<close>), \<open>Tokens\<close>
    (\<open>token_manager.go\<close>), \<open>AdminAuth\<close> (\<open>admin_auth.go\<close>).
  \<^item> \<open>Middleware\<close> (\<open>middleware/\<close>), \<open>ChatSse\<close> (\<open>router/sse.go\<close>) and \<open>ChatFlow\<close>, where the endpoint and the
    bot meet; \<open>Handlers\<close>, \<open>Routes\<close> and \<open>Access\<close> (the rest of \<open>router/\<close>): which handler a request reaches
    and what it does.
  \<^item> \<open>Storage\<close>, \<open>Gateway\<close>, \<open>Media\<close> (\<open>infra/storage/\<close>, \<open>service/media_manager.go\<close>, \<open>router/media.go\<close>).
  \<^item> \<open>Config\<close>, \<open>Database\<close>, \<open>Migrate\<close>, \<open>Telemetry\<close>, \<open>ServerMain\<close> (\<open>config/\<close>, \<open>infra/\<close>, \<open>cmd/server\<close>): the start of a server.
  \<^item> \<open>Probe\<close> and \<open>BotLoad\<close>. \<open>Scenario\<close> is the small deployment at which the witnesses evaluate.

  \<^bold>\<open>What is shown\<close>, here and in the lemmas of the theories: what a client reads is what its bot
  sent, in order, and a stream ends exactly once (\<open>A chat, end to end\<close>, \<open>The chat stream\<close>); the shared
  registry behaves as its abstract specification under every operation, and the memory of a
  worker stays consistent in every reachable state; the worker that the registry names holds the
  bot, whatever order the workers act in; all questions whether a bot is online get the
  same answer; a request reaches a handler exactly when it proves what the handler needs; tokens,
  sessions and the administrator's account follow their rules; uploads are stored whole or not at
  all; migrations run under the lock. Each property has an instance at concrete values.

  \<^bold>\<open>Bounds and fuel.\<close> Loops over data are structural. \<open>chat_loop\<close> and \<open>waitForMigration\<close> recurse over
  the list of rounds the environment grants, and \<open>idle_stream_times_out\<close> and \<open>migrations_under_lock\<close>
  show that they end once the clock has passed the deadline. \<open>run_batches\<close> is a partial function,
  shown total for the batch sizes \<open>normalizeConfig\<close> lets through. The JSON parser's fuel is the
  length of its input, which its round trip shows to be enough.

  \<^bold>\<open>Not modelled.\<close> Logging, tracing and the calls of the OpenTelemetry SDK; HTTP and WebSocket framing,
  gin's routing beyond the table; the parsing of IPv6 literals; the expiry of Redis keys as an event
  of its own; MySQL's collation, under which \<open>=\<close> and \<open>LIKE\<close> ignore case where the model compares bytes;
  several workers' operations interleaved at the level of single Redis commands (each operation of
  a worker is atomic here, in \<open>Cluster\<close> too, and the races this hides are listed with the findings of
  the development); in \<open>Cluster\<close>, a disconnect that comes through a worker inbox and a registration that
  fails half way (\<open>failed_claim_loses_bot\<close> shows what that leaves); the plugin and the web console, which are not Go.
\<close>

section \<open>A chat, end to end\<close>



text \<open>
  C2: a chat request that can be served reaches the bot and starts from a clean inbox. With the bot
  online and owned by a worker, and a session of the token named, the request is accepted for that
  session under a fresh request id, exactly one prompt with the request's text and media is appended
  to the owner's inbox, and the chat inbox is empty however much an earlier turn left in it.
\<close>

theorem chat_request_dispatched:
  assumes "session_backend R view T rows cast" and "check_request body = Inr (rq, urls)" and "bots_ok (view s)"
    and "sh_online now t (shared_of (view s))" and "sh_owner (shared_of (view s)) t = Some w"
    and "cq_session rq = Some sid" "sid \<noteq> ''''" and "\<exists>r\<in>set (rows d). cs_token r = t \<and> cs_id r = sid"
    and "queue_good (view s) (chat_inbox t sid)" and "queue_good (view s) (workerInboxName w)"
    and "queue_chan (view s) (workerInboxName w) WorkerInboxGroup = Some p" and "length p + 1 < nat n"
    and "chat_prepare T R (NewRedisStreamQueue R n) now created uuid requuid carrier t body d s = (r, d', s')"
  shows "(\<exists>num. r = Inr \<lparr>ct_session = sid, ct_number = num, ct_new = False, ct_req = ''req_'' @ take 12 requuid,
      ct_inbox = chat_inbox t sid\<rparr>) \<and>
    queue_chan (view s') (chat_inbox t sid) ''sse'' = Some [] \<and>
    queue_chan (view s') (workerInboxName w) WorkerInboxGroup = Some (p @ [worker_payload \<lparr>wm_token = t,
      wm_rpc = prompt_request (''req_'' @ take 12 requuid) sid (content_items (cq_content rq) urls), wm_disconnect = False\<rparr>])"
  using session_backend.prepare_dispatches [OF assms] by blast

theorem chat_request_dispatched_witness:
  "queue_chan (snd (snd (chat_prepare (mem_table cs_id session_cast) mem_redis (NewRedisStreamQueue mem_redis 100) 110 0
      ''u'' ''0123'' [] ''t'' demo_body [demo_row] demo_store))) (workerInboxName ''w1'') WorkerInboxGroup =
    Some [worker_payload \<lparr>wm_token = ''t'', wm_rpc = prompt_request ''req_0123'' ''s1'' (content_items ''hi'' []),
      wm_disconnect = False\<rparr>]"
proof -
  let ?c = "chat_prepare (mem_table cs_id session_cast) mem_redis (NewRedisStreamQueue mem_redis 100) 110 0
      ''u'' ''0123'' [] ''t'' demo_body [demo_row] demo_store"
  obtain r d' s' where e: "?c = (r, d', s')" by (cases ?c)
  have "queue_chan s' (workerInboxName ''w1'') WorkerInboxGroup = Some [worker_payload \<lparr>wm_token = ''t'',
      wm_rpc = prompt_request ''req_0123'' ''s1'' (content_items ''hi'' []), wm_disconnect = False\<rparr>]"
    using chat_request_dispatched [OF mem_sessions.session_backend_axioms demo_request_checked demo_ok _ _ _ _ _ _ _ _ _ e,
        of "''w1''" "''s1''" "[]"]
    by (simp add: demo_shared sh_online_def demo_request_def demo_row_def demo_queues)
  then show ?thesis unfolding e by simp
qed

text \<open>
  C3: what the bot says is what the client sees. A notification of the bot that translates, handled
  while a stream of its session waits, is shown by the stream's next round as exactly the frames of
  the translated event (before a \<open>done\<close> whose text was never streamed, that text as a chunk), and the
  stream goes on unless the event is \<open>done\<close>.
\<close>

theorem bot_event_streamed:
  assumes "redis_up R view"
    and "json_unmarshal raw = Some (JObj msg)" and "jfield_str msg ''type'' \<noteq> Some ''ping''"
    and "jfield_str msg ''method'' = Some meth" "meth \<noteq> ''''" and "\<not> has_key msg ''id''"
    and "TranslateBotEvent meth (jfield_obj msg ''params'') = Some ev"
    and "getNestedString (jfield_obj msg ''params'') ''sessionId'' = Some sid" "sid \<noteq> ''''"
    and "\<not> b_down b" and "queue_good (view s) (chat_inbox t sid)"
    and "queue_chan (view s) (chat_inbox t sid) ''sse'' = Some []" and "1 < nat n"
    and "HandleBotMessage R (NewRedisStreamQueue R n) t raw b s = (b', s1)"
    and "\<not> ev_gone1 tk" "\<not> ev_bot1 tk" "ev_now1 tk \<le> ss_deadline st"
    and "chat_iter (NewRedisStreamQueue R n) (chat_inbox t sid) tk st s1 = ((st', running), s2)"
  shows "ss_out st' = ss_out st @ event_frames ev st \<and> (running \<longleftrightarrow> event_type ev \<noteq> ''done'') \<and>
    queue_chan (view s2) (chat_inbox t sid) ''sse'' = Some []"
  using redis_up.notification_streamed [OF assms] by blast

theorem bot_event_streamed_witness:
  "ss_out (fst (fst (chat_iter (NewRedisStreamQueue mem_redis 100) (chat_inbox ''t'' ''s1'') demo_tick demo_stream
      (snd (HandleBotMessage mem_redis (NewRedisStreamQueue mem_redis 100) ''t'' (json_marshal demo_chunk)
        demo_bridge demo_store))))) = [session_frame demo_turn, content_frame ''chunk'' ''hello'']"
proof -
  let ?Q = "NewRedisStreamQueue mem_redis 100" and ?q = "chat_inbox ''t'' ''s1''"
  obtain b' s1 where h: "HandleBotMessage mem_redis ?Q ''t'' (json_marshal demo_chunk) demo_bridge demo_store = (b', s1)"
    by (cases "HandleBotMessage mem_redis ?Q ''t'' (json_marshal demo_chunk) demo_bridge demo_store")
  obtain st' go s2 where i: "chat_iter ?Q ?q demo_tick demo_stream s1 = ((st', go), s2)" by (metis prod.collapse)
  let ?ev = "gomap_of [(''type'', JStr ''chunk''), (''content'', JStr ''hello'')]"
  have "event_frames ?ev demo_stream = [content_frame ''chunk'' ''hello'']"
    by (simp add: event_frames_def event_frame_def event_type_def jfield_str_def gomap_of_def obj_of_def obj_del_def
        content_frame_def jobj_def)
  then have "ss_out st' = [session_frame demo_turn, content_frame ''chunk'' ''hello'']"
    using bot_event_streamed [OF mem.redis_up_axioms demo_chunk_parsed _ demo_chunk_facts(2) _ demo_chunk_facts(3,5,4)
        _ _ demo_queues(3,4) _ h _ _ _ i]
    by (simp add: demo_chunk_facts(1) demo_tick_def sseTimeout_def second_ns_def)
  then show ?thesis unfolding h snd_conv i by simp
qed

text \<open>
  C4: a prompt sent through any worker reaches the bot. When the bot's owner key names the worker
  that holds its connection, that worker's inbox group is empty and the stream limit leaves room,
  \<open>SendToBot\<close> succeeds with its request id, and the next round of the owner's inbox consumer writes
  exactly one frame, the \<open>session/prompt\<close> request with the text and the encoded media URLs, to that
  bot's connection and leaves the inbox empty.
\<close>

theorem prompt_reaches_bot:
  assumes "redis_up R view" and "bots_ok (view s)"
    and "sh_owner (shared_of (view s)) t = Some (b_worker b)" and "map_of (b_bots b) t = Some c"
    and "\<not> b_down b" "\<not> b_cancelled b" "t \<noteq> ''''" "sid \<noteq> ''''" "content_items msg urls \<noteq> []" "1 < nat n"
    and "queue_good (view s) (workerInboxName (b_worker b))"
    and "queue_chan (view s) (workerInboxName (b_worker b)) WorkerInboxGroup = Some []"
  shows "\<exists>s1 s2. SendToBot R (NewRedisStreamQueue R n) uuid carrier t msg urls sid s = (Inr (''req_'' @ take 12 uuid), s1) \<and>
    runWorkerInboxConsumer (NewRedisStreamQueue R n) b s1 =
      Some (WriteJSON c (prompt_request (''req_'' @ take 12 uuid) sid (content_items msg urls)) b, s2) \<and>
    queue_chan (view s2) (workerInboxName (b_worker b)) WorkerInboxGroup = Some []"
  using assms by (intro redis_up.send_then_deliver)

theorem prompt_reaches_bot_witness:
  "\<exists>s1 s2. SendToBot mem_redis (NewRedisStreamQueue mem_redis 1000) ''0123456789abcdef'' [] ''t'' ''hi'' [] ''s1'' demo_store
      = (Inr ''req_0123456789ab'', s1) \<and>
    runWorkerInboxConsumer (NewRedisStreamQueue mem_redis 1000) demo_bridge s1 =
      Some (WriteJSON 7 (prompt_request ''req_0123456789ab'' ''s1'' [content_item ''text'' ''hi'']) demo_bridge, s2) \<and>
    queue_chan s2 (workerInboxName ''w1'') WorkerInboxGroup = Some []"
  using prompt_reaches_bot [OF mem.redis_up_axioms, of demo_store "''t''" demo_bridge 7 "''s1''" "''hi''" "[]" 1000
      "''0123456789abcdef''" "[]"]
  by (simp add: demo_ok demo_shared demo_queues content_items_def)

text \<open>
  C5: a notification from a bot that \<open>TranslateBotEvent\<close> recognises is appended, as the JSON text of
  the translated event, at the end of the inbox of the session it names; no other key of Redis and
  nothing of the worker's memory changes.
\<close>

theorem notification_reaches_stream:
  assumes "redis_up R view"
    and "json_unmarshal raw = Some (JObj msg)" and "jfield_str msg ''type'' \<noteq> Some ''ping''"
    and "jfield_str msg ''method'' = Some meth" and "meth \<noteq> ''''" and "\<not> has_key msg ''id''"
    and "TranslateBotEvent meth (jfield_obj msg ''params'') = Some ev"
    and "getNestedString (jfield_obj msg ''params'') ''sessionId'' = Some sid" and "sid \<noteq> ''''"
    and "\<not> b_down b" and "queue_good (view s) (chat_inbox t sid)"
    and "queue_chan (view s) (chat_inbox t sid) g = Some p" and "length p + 1 < nat n"
    and "HandleBotMessage R (NewRedisStreamQueue R n) t raw b s = (b', s')"
  shows "b' = b \<and> queue_chan (view s') (chat_inbox t sid) g = Some (p @ [json_marshal (JObj ev)]) \<and>
    (\<forall>k. k \<noteq> chat_inbox t sid \<longrightarrow> kv (view s') k = kv (view s) k)"
  using redis_up.HandleBotMessage_notification [OF assms] by blast

theorem notification_reaches_stream_witness:
  "queue_chan (snd (HandleBotMessage mem_redis (NewRedisStreamQueue mem_redis 1000) ''t'' (json_marshal demo_chunk)
      demo_bridge demo_store)) (chat_inbox ''t'' ''s1'') ''sse'' =
    Some [json_marshal (JObj (gomap_of [(''type'', JStr ''chunk''), (''content'', JStr ''hello'')]))]"
proof -
  let ?r = "HandleBotMessage mem_redis (NewRedisStreamQueue mem_redis 1000) ''t'' (json_marshal demo_chunk)
      demo_bridge demo_store"
  obtain b' s' where r: "?r = (b', s')" by (cases ?r)
  show ?thesis
    using notification_reaches_stream [OF mem.redis_up_axioms demo_chunk_parsed, of "''session/update''"
        "gomap_of [(''type'', JStr ''chunk''), (''content'', JStr ''hello'')]" "''s1''" demo_bridge demo_store
        "''t''" "''sse''" "[]" 1000 b' s']
    by (simp add: r demo_queues demo_chunk_facts)
qed



section \<open>Which worker holds a bot\<close>

text \<open>
  C7: registering a bot claims it for this worker in one generation more than the last: alive at the
  current second, owned by this worker, its generation entered both in Redis and locally, and its
  new connection (replacing an older one) held by the worker.
\<close>

theorem register_claims_bot:
  assumes "redis_up R view" and "bots_ok (view s)" and "\<not> b_down b"
    and "sh_gen (shared_of (view s)) t \<noteq> Some max_int64"
    and "RegisterBot R now t c b s = (r, b', s')"
  shows "r = Inr () \<and> bots_ok (view s') \<and>
    shared_of (view s') = snd (sh_register (b_worker b) now t (shared_of (view s))) \<and>
    map_of (b_bots b') = (map_of (b_bots b))(t \<mapsto> c) \<and>
    map_of (b_gens b') = (map_of (b_gens b))(t \<mapsto> fst (sh_register (b_worker b) now t (shared_of (view s))))"
  using redis_up.RegisterBot_refines [OF assms] by blast

theorem register_claims_bot_witness:
  "shared_of (snd (snd (RegisterBot mem_redis 130 ''t'' 9 (demo_bridge\<lparr>b_worker := ''w2''\<rparr>) demo_store))) =
    \<lparr>sh_alive = [''t'' \<mapsto> 130], sh_owner = [''t'' \<mapsto> ''w2''], sh_gen = [''t'' \<mapsto> 2]\<rparr>"
proof -
  let ?b = "demo_bridge\<lparr>b_worker := ''w2''\<rparr>"
  obtain r b' s' where e: "RegisterBot mem_redis 130 ''t'' 9 ?b demo_store = (r, b', s')"
    by (cases "RegisterBot mem_redis 130 ''t'' 9 ?b demo_store")
  show ?thesis
    using register_claims_bot [OF mem.redis_up_axioms demo_ok _ _ e]
    by (simp add: e demo_shared sh_register_def max_int64_def)
qed



text \<open>
  C9: routing finds the bot. Let any number of workers run their registry operations on one Redis in
  any order: registrations, disconnects, heartbeats, cleanups, reconcile rounds, shutdowns, and
  whatever leaves the registry alone. Whenever Redis names an owner for a bot, that worker holds a
  connection of the bot under the generation that Redis names, its own reconcile will keep it, and
  every other worker that still holds a connection of the bot will evict it.
\<close>

theorem owner_holds_bot:
  assumes "redis_up R view" and "(cluster_step R view)\<^sup>*\<^sup>* (bs0, s0) (bs, s)"
    and "\<forall>w. bridge_inv (bs0 w) \<and> b_worker (bs0 w) = w" and "bots_ok (view s0)"
    and "sh_owner (shared_of (view s0)) = Map.empty"
    and "sh_owner (shared_of (view s)) t = Some w" "w \<noteq> ''''"
  shows "map_of (b_bots (bs w)) t \<noteq> None \<and> map_of (b_gens (bs w)) t = sh_gen (shared_of (view s)) t \<and>
    \<not> stale (bs w) (shared_of (view s)) t \<and> (\<forall>w'. w' \<noteq> w \<longrightarrow> stale (bs w') (shared_of (view s)) t)"
proof -
  have "cluster_ok view (bs0, s0)" using assms(3-5) by (simp add: cluster_ok_def owner_held_def)
  from redis_up.cluster_reach_ok [OF assms(1,2) this]
  have "owner_held bs (shared_of (view s))" and id: "b_worker (bs w') = w'" for w' by (auto simp: cluster_ok_def)
  with assms(6,7) reconcile_keeps_owned [of bs "shared_of (view s)" t w] id others_stale [OF assms(6,7)]
  show ?thesis by (auto simp: owner_held_def)
qed

theorem owner_holds_bot_witness:
  "\<exists>bs s. (cluster_step mem_redis (\<lambda>s. s))\<^sup>*\<^sup>* (\<lambda>w. (NewConnectionBridge w)\<lparr>b_worker := w\<rparr>, \<lparr>kv = Map.empty, ttls = Map.empty\<rparr>) (bs, s) \<and>
    sh_owner (shared_of s) ''t'' = Some ''w2'' \<and> map_of (b_bots (bs ''w2'')) ''t'' \<noteq> None \<and> stale (bs ''w1'') (shared_of s) ''t''"
proof -
  let ?bs = "\<lambda>w. (NewConnectionBridge w)\<lparr>b_worker := w\<rparr>" and ?s = "\<lparr>kv = Map.empty, ttls = Map.empty\<rparr> :: store"
  have ok: "bots_ok ?s" and sh: "shared_of ?s = \<lparr>sh_alive = Map.empty, sh_owner = Map.empty, sh_gen = Map.empty\<rparr>"
    by (auto simp: bots_ok_def zset_key_def str_key_def gen_key_def shared_of_def zset_at_def str_at_def gen_of_def fun_eq_iff)
  obtain r1 b1 s1 where e1: "RegisterBot mem_redis 1 ''t'' 7 (?bs ''w1'') ?s = (r1, b1, s1)" by (metis prod_cases3)
  have "\<not> b_down (?bs w)" for w by (simp add: NewConnectionBridge_def)
  note E1 = mem.RegisterBot_refines [OF ok this _ e1]
  have r1: "r1 = Inr ()" "bots_ok s1" using E1(1,3) by (simp_all add: sh)
  have sh1: "sh_gen (shared_of s1) ''t'' = Some 1" using E1(2) by (simp add: sh sh_register_def)
  obtain r2 b2 s2 where e2: "RegisterBot mem_redis 2 ''t'' 8 (?bs ''w2'') s1 = (r2, b2, s2)" by (metis prod_cases3)
  have "\<not> b_down (?bs ''w2'')" by (simp add: NewConnectionBridge_def)
  note E2 = mem.RegisterBot_refines [OF r1(2) this _ e2]
  have r2: "r2 = Inr ()" and own: "sh_owner (shared_of s2) ''t'' = Some ''w2''"
    using E2(1,2) sh1 by (simp_all add: max_int64_def sh_register_def)
  let ?bs2 = "?bs(''w1'' := b1, ''w2'' := b2)"
  have "cluster_step mem_redis (\<lambda>s. s) (?bs, ?s) (?bs(''w1'' := b1), s1)"
    by (rule cluster_step.c_register) (use e1 r1 in simp)
  moreover have "cluster_step mem_redis (\<lambda>s. s) (?bs(''w1'' := b1), s1) (?bs2, s2)"
    by (rule cluster_step.c_register [where now = 2 and t = "''t''" and c = 8]) (use e2 r2 in simp)
  ultimately have steps: "(cluster_step mem_redis (\<lambda>s. s))\<^sup>*\<^sup>* (?bs, ?s) (?bs2, s2)" by (meson converse_rtranclp_into_rtranclp rtranclp.rtrancl_refl)
  have "bridge_inv (?bs w)" for w using new_bridge_inv [of w] bridge_inv_cong [of "?bs w" "NewConnectionBridge w"] by simp
  with owner_holds_bot [OF mem.redis_up_axioms steps _ ok _ own] steps own sh show ?thesis
    by (intro exI [of _ ?bs2] exI [of _ s2]) (auto dest: spec [of _ "''w1''"])
qed

section \<open>Who gets at what\<close>





section \<open>The chat stream\<close>

text \<open>
  C12: a stream relays its inbox entry by entry. In rounds in which nobody leaves and the clock
  stays within the timeout, a stream whose inbox holds at least as many entries as it makes rounds is
  the fold of its deliveries over those entries, in their order, until one of them ends it.
\<close>

theorem chat_relays_in_order:
  assumes "redis_up R view" and "queue_good (view s) q" and "queue_chan (view s) q ''sse'' = Some ps"
    and "length evs \<le> length ps" and "timely (ss_deadline st) evs"
  shows "fst (chat_loop (NewRedisStreamQueue R n) q evs st s) = relay (zip ps (map ev_now2 evs)) st"
  using redis_up.chat_loop_relays [OF assms] .

theorem chat_relays_in_order_witness:
  "fst (chat_loop (NewRedisStreamQueue mem_redis 100) ''q'' [demo_tick, demo_tick] demo_stream
      (publish_all (NewRedisStreamQueue mem_redis 100) ''q'' [''{}'', ''x'']
        (snd (EnsureGroup mem_redis ''q'' ''sse'' demo_store)))) =
    relay [(''{}'', 2), (''x'', 2)] demo_stream"
proof -
  let ?Q = "NewRedisStreamQueue mem_redis 100"
  let ?s = "snd (EnsureGroup mem_redis ''q'' ''sse'' demo_store)"
  obtain r s0 where e: "EnsureGroup mem_redis ''q'' ''sse'' demo_store = (r, s0)"
    by (cases "EnsureGroup mem_redis ''q'' ''sse'' demo_store")
  have "kv demo_store ''q'' = None" by (simp add: demo_store_def demo_kv_def key_defs)
  then have "queue_good ?s ''q''" "queue_chan ?s ''q'' ''sse'' = Some []"
    using mem.EnsureGroup_queue [OF _ e] e by (simp_all add: queue_good_def chan_none)
  from mem.stream_queue.publish_all_queued [OF this, of "[''{}'', ''x'']" 100]
  have "queue_good (publish_all ?Q ''q'' [''{}'', ''x''] ?s) ''q''"
    "queue_chan (publish_all ?Q ''q'' [''{}'', ''x''] ?s) ''q'' ''sse'' = Some [''{}'', ''x'']" by simp_all
  moreover have "timely (ss_deadline demo_stream) [demo_tick, demo_tick]"
    by (simp add: demo_tick_def sseTimeout_def second_ns_def)
  moreover have z: "zip [''{}'', ''x''] (map ev_now2 [demo_tick, demo_tick]) = [(''{}'', 2), (''x'', 2)]"
    by (simp add: demo_tick_def)
  moreover have "length [demo_tick, demo_tick] \<le> length [''{}'', ''x'']" by simp
  ultimately show ?thesis
    using chat_relays_in_order [OF mem.redis_up_axioms, of "publish_all ?Q ''q'' [''{}'', ''x''] ?s" "''q''"
        "[''{}'', ''x'']" "[demo_tick, demo_tick]" demo_stream 100]
    by (simp only: z)
qed

text \<open>
  C13: a stream to which nothing comes is over. With an inbox that stays empty, any rounds among
  which the clock once passes the deadline end the stream; heartbeats do not put the deadline off.
\<close>

theorem idle_stream_times_out:
  assumes "redis_up R view" and "queue_good (view s) q" and "queue_chan (view s) q ''sse'' = Some []"
    and "\<exists>ev\<in>set evs. ss_deadline st < ev_now1 ev"
  shows "\<not> snd (fst (chat_loop (NewRedisStreamQueue R n) q evs st s))"
  using redis_up.chat_loop_times_out [OF assms] .

theorem idle_stream_times_out_witness:
  "\<not> snd (fst (chat_loop (NewRedisStreamQueue mem_redis 100) (chat_inbox ''t'' ''s1'')
      [demo_tick, demo_tick\<lparr>ev_now1 := sseTimeout + 1\<rparr>] demo_stream demo_store))"
  using idle_stream_times_out [OF mem.redis_up_axioms demo_queues(3,4),
      of "[demo_tick, demo_tick\<lparr>ev_now1 := sseTimeout + 1\<rparr>]" demo_stream 100]
  by simp

text \<open>
  C14: a chat request that is refused disturbs nothing. A malformed request, a bot that is offline and
  a session that is not the token's are each refused with their own error, and Redis, the session
  table and the stream monitor are as before.
\<close>

theorem chat_refusal_harmless:
  assumes "session_backend R view T rows cast" and "bots_ok (view s)"
    and "chatSSE T R Q now created uuid requuid carrier flush writes start n t body evs m d s = (r, m', d', s')"
    and "case check_request body of
        Inl e \<Rightarrow> err = e
      | Inr (rq, urls) \<Rightarrow>
          if \<not> sh_online now t (shared_of (view s)) then err = ErrChatNoBot
          else err = ErrSessionNotFound \<and> (\<exists>sid. cq_session rq = Some sid \<and> sid \<noteq> '''' \<and>
            (\<forall>x\<in>set (rows d). \<not> (cs_token x = t \<and> cs_id x = sid)))"
  shows "r = Refused (MetricsErrorResponse err) \<and> m' = m \<and> rows d' = rows d \<and> view s' = view s"
proof (cases "check_request body")
  case (Inl e)
  with assms(3,4) show ?thesis by (simp add: invalid_request_refused)
next
  case (Inr v)
  obtain rq urls where v: "v = (rq, urls)" by (cases v)
  have up: "redis_up R view" using assms(1) by (simp add: session_backend_def)
  show ?thesis
  proof (cases "sh_online now t (shared_of (view s))")
    case False
    with redis_up.offline_refused [OF up Inr assms(2) False assms(3)] assms(4) Inr v show ?thesis by simp
  next
    case True
    with assms(4) Inr v obtain sid where "cq_session rq = Some sid" "sid \<noteq> ''''" and err: "err = ErrSessionNotFound"
      "\<forall>x\<in>set (rows d). \<not> (cs_token x = t \<and> cs_id x = sid)" by auto
    with session_backend.foreign_session_refused [OF assms(1) Inr [unfolded v] assms(2) True _ _ _ assms(3)]
    show ?thesis by blast
  qed
qed

theorem chat_refusal_harmless_witness:
  "fst (chatSSE (mem_table cs_id session_cast) mem_redis (NewRedisStreamQueue mem_redis 100) 110 0 ''u'' ''0123'' []
      True True 0 1 ''t'' demo_body [] empty_monitor [] demo_store) = Refused (MetricsErrorResponse ErrSessionNotFound)"
proof -
  let ?c = "chatSSE (mem_table cs_id session_cast) mem_redis (NewRedisStreamQueue mem_redis 100) 110 0 ''u'' ''0123'' []
      True True 0 1 ''t'' demo_body [] empty_monitor [] demo_store"
  obtain r m' d' s' where e: "?c = (r, m', d', s')" by (metis prod_cases4)
  have "r = Refused (MetricsErrorResponse ErrSessionNotFound)"
    using chat_refusal_harmless [OF mem_sessions.session_backend_axioms demo_ok e, of ErrSessionNotFound]
    by (simp add: demo_request_checked demo_shared sh_online_def demo_request_def)
  then show ?thesis unfolding e by simp
qed

text \<open>
  C15: a prompt for a bot no worker owns fails with the error that no owner was found, and nothing is
  queued or stored.
\<close>

theorem unrouted_prompt_rejected:
  assumes "redis_up R view" and "bots_ok (view s)" and "sh_owner (shared_of (view s)) t = None"
    and "sid \<noteq> ''''" and "content_items msg urls \<noteq> []"
  shows "fst (SendToBot R Q uuid carrier t msg urls sid s) = Inl ''resolve bot route: get bot owner: redis: nil'' \<and>
    view (snd (SendToBot R Q uuid carrier t msg urls sid s)) = view s"
  using redis_up.send_unrouted [OF assms] by blast

theorem unrouted_prompt_rejected_witness:
  "fst (SendToBot mem_redis (NewRedisStreamQueue mem_redis 1000) ''0123456789abcdef'' [] ''nobody'' ''hi'' [] ''s1'' demo_store)
     = Inl ''resolve bot route: get bot owner: redis: nil''"
  using unrouted_prompt_rejected [OF mem.redis_up_axioms demo_ok, of "''nobody''" "''s1''" "''hi''" "[]"
      "NewRedisStreamQueue mem_redis 1000" "''0123456789abcdef''" "[]"]
  by (simp add: demo_shared content_items_def)

text \<open>
  C16: every event \<open>TranslateBotEvent\<close> produces is one the chat stream knows: its \<open>type\<close> is one of the
  stream's event names and the fields that type carries are present as strings.
\<close>

theorem translated_events_typed:
  assumes "TranslateBotEvent meth params = Some ev"
  shows "chat_event ev"
  using assms by (rule translate_chat_event)

theorem translated_events_typed_witness:
  "chat_event (gomap_of [(''type'', JStr ''chunk''), (''content'', JStr ''hello'')])"
  using translated_events_typed [of "''session/update''" "jfield_obj demo_msg ''params''"] by (simp add: demo_chunk_facts)

section \<open>Liveness of bots\<close>

text \<open>
  C17: a cleanup round that finds the lock free removes exactly the bots whose last heartbeat is 30
  or more seconds old, with their owner and generation keys, and leaves the lock free again, however
  often the lock was renewed meanwhile; a round that finds the lock held changes nothing.
\<close>

theorem cleanup_round_exact:
  assumes "redis_up R view" and "bots_ok (view s)"
  shows "if kv (view s) CleanupLockKey = None
    then shared_of (view (snd (doCleanup R now n b s))) =
        sh_forget (expired_at now (shared_of (view s))) (shared_of (view s)) \<and>
      kv (view (snd (doCleanup R now n b s))) CleanupLockKey = None
    else fst (doCleanup R now n b s) = b \<and> view (snd (doCleanup R now n b s)) = view s"
  using redis_up.doCleanup_refines [OF assms] redis_up.doCleanup_locked [OF assms(1), of s] by simp

theorem cleanup_round_exact_witness:
  "sh_owner (shared_of (snd (doCleanup mem_redis 130 2 demo_bridge demo_store))) ''t'' = None"
proof -
  have "kv demo_store CleanupLockKey = None" by (simp add: demo_store_def demo_kv_def key_defs)
  then show ?thesis
    using cleanup_round_exact [OF mem.redis_up_axioms demo_ok, of 130 2 demo_bridge]
    by (simp add: demo_shared expired_at_def)
qed





text \<open>
  C20: whatever calls to Redis fail, the monitor never signals a stream whose bot is online: a failed
  read is not taken for a missing bot.
\<close>

theorem monitor_safe_under_failure:
  assumes "redis_service R view" and "bots_ok (view s)" and "(k, c) \<in> set (m_conns m)"
    and "inj_on (\<lambda>(_, c). sc_id c) (set (m_conns m))"
    and "sh_online now (sc_token c) (shared_of (view s))" and "sc_id c \<notin> set (m_signalled m)"
  shows "sc_id c \<notin> set (m_signalled (fst (checkAllBots R now m s)))"
  using redis_service.checkAllBots_safe [OF assms] .

theorem monitor_safe_under_failure_witness:
  "4 \<notin> set (m_signalled (fst (checkAllBots mem_redis 110
      (snd (RegisterSSEConnection 4 ''t'' ''s1'' ''k1'' empty_monitor)) demo_store)))"
  using monitor_safe_under_failure [OF mem.redis_service_axioms demo_ok, of "''k1''"
      "fst (RegisterSSEConnection 4 ''t'' ''s1'' ''k1'' empty_monitor)"
      "snd (RegisterSSEConnection 4 ''t'' ''s1'' ''k1'' empty_monitor)" 110]
  by (simp add: RegisterSSEConnection_def Let_def empty_monitor_def demo_shared sh_online_def)

section \<open>A worker in every state it can reach\<close>



text \<open>
  C22: once \<open>Shutdown\<close> has begun no operation gives a worker a connection again: it stays shut
  down, and in every later state each connection it holds is one it held then.
\<close>

theorem shutdown_is_final:
  assumes "(worker_step R Q)\<^sup>*\<^sup>* (fst (Shutdown R b s), s1) (b', s')"
  shows "b_down b' \<and> map_of (b_bots b') \<subseteq>\<^sub>m map_of (b_bots b)"
  using closing_forever [OF assms] by (simp add: Shutdown_def case_prod_beta bridge_simps)

theorem shutdown_is_final_witness:
  "b_down (fst (snd (RegisterBot mem_redis 5 ''u'' 8 (fst (Shutdown mem_redis demo_bridge demo_store)) demo_store)))"
proof -
  let ?b = "fst (Shutdown mem_redis demo_bridge demo_store)"
  obtain r b' s' where e: "RegisterBot mem_redis 5 ''u'' 8 ?b demo_store = (r, b', s')"
    by (cases "RegisterBot mem_redis 5 ''u'' 8 ?b demo_store")
  have "(worker_step mem_redis (NewRedisStreamQueue mem_redis 9))\<^sup>*\<^sup>* (?b, demo_store) (b', s')"
    by (rule r_into_rtranclp) (rule w_register [OF e])
  from shutdown_is_final [OF this] show ?thesis unfolding e by simp
qed

text \<open>
  C23: \<open>Shutdown\<close> gives up the worker's bots and no others: each bot it holds is unregistered at the
  worker's generation, in turn, and a bot it does not hold keeps liveness, owner and generation.
\<close>

theorem shutdown_releases_own_bots:
  assumes "redis_up R view" and "bots_ok (view s)" and "Shutdown R b s = (b', s')"
  shows "shared_of (view s') = sh_shutdown (map (\<lambda>(t, _). (t, local_gen t b)) (b_bots b)) (shared_of (view s)) \<and>
    (\<forall>t. t \<notin> fst ` set (b_bots b) \<longrightarrow>
       sh_owner (shared_of (view s')) t = sh_owner (shared_of (view s)) t \<and>
       sh_alive (shared_of (view s')) t = sh_alive (shared_of (view s)) t)"
proof -
  let ?gs = "map (\<lambda>(t, _). (t, local_gen t b)) (b_bots b)"
  have "fst ` set ?gs = fst ` set (b_bots b)" by force
  with redis_up.Shutdown_refines(1) [OF assms] sh_shutdown_other [of _ ?gs "shared_of (view s)"] show ?thesis
    by metis
qed

theorem shutdown_releases_own_bots_witness:
  "sh_owner (shared_of (snd (Shutdown mem_redis demo_bridge demo_store))) ''t'' = None"
proof -
  obtain b' s' where e: "Shutdown mem_redis demo_bridge demo_store = (b', s')"
    by (cases "Shutdown mem_redis demo_bridge demo_store")
  have "sh_owner (shared_of s') ''t'' = None"
    using shutdown_releases_own_bots [OF mem.redis_up_axioms demo_ok e]
    by (simp add: demo_shared sh_unregister_def newer_gen_def local_gen_def)
  then show ?thesis unfolding e by simp
qed

text \<open>
  C24: reconciliation converges. While Redis stands still, as many rounds as the square of the number
  of connections leave a worker with exactly the connections that Redis neither names another
  owner for nor a newer generation of, for every positive batch size.
\<close>

theorem reconcile_leaves_survivors:
  assumes "redis_up R view" and "bots_ok (view s)" and "bridge_inv b" and "1 \<le> b_batch b"
    and "length (b_bots b) * length (b_bots b) \<le> n" and "reconcile_rounds R n b s = (b', s')"
  shows "map_of (b_bots b') = map_of (b_bots b) |` {t. \<not> stale b (shared_of (view s)) t} \<and> view s' = view s"
  using redis_up.reconcile_exact [OF assms] by (simp add: survivors_def)

theorem reconcile_leaves_survivors_witness:
  "map_of (b_bots (fst (reconcile_rounds mem_redis 1 (demo_bridge\<lparr>b_worker := ''w2''\<rparr>) demo_store))) ''t'' = None"
proof -
  let ?b = "demo_bridge\<lparr>b_worker := ''w2''\<rparr>"
  obtain b' s' where e: "reconcile_rounds mem_redis 1 ?b demo_store = (b', s')"
    by (cases "reconcile_rounds mem_redis 1 ?b demo_store")
  have "bridge_inv ?b" using demo_bridge_inv by (simp add: bridge_inv_def)
  from reconcile_leaves_survivors [OF mem.redis_up_axioms demo_ok this _ _ e]
  have "map_of (b_bots b') ''t'' = None" by (simp add: demo_shared stale_def)
  then show ?thesis unfolding e by simp
qed

text \<open>
  C25: a full tour of the ring visits every bot. Successive batches of any positive size whose total
  length reaches the number of tracked bots contain every tracked bot and no other.
\<close>

theorem batches_visit_all:
  assumes "ring_inv r" and "length (r_toks r) \<le> k * nat n"
  shows "set (batches n k r) = set (r_toks r)"
  using assms by (rule batches_cover)

theorem batches_visit_all_witness:
  "set (batches 2 2 (trackReconcileToken ''c'' (trackReconcileToken ''b'' (trackReconcileToken ''a'' empty_ring))))
     = {''a'', ''b'', ''c''}"
  using batches_visit_all [of "trackReconcileToken ''c'' (trackReconcileToken ''b'' (trackReconcileToken ''a'' empty_ring))" 2 2]
  by (simp add: track_inv empty_ring_inv track_set) (simp add: trackReconcileToken_def empty_ring_def insert_commute)

section \<open>On the wire\<close>

text \<open>
  C26: the probe reads what the backend writes. For every sequence of events and heartbeats with
  one-line names and well-formed data that fit the reader's line buffer, the reader's result on the
  bytes of \<open>FormatSSEEvent\<close> and \<open>FormatSSEComment\<close> is that of the events themselves: the session id
  of the last \<open>session\<close>, up to the first \<open>done\<close> or \<open>error\<close>.
\<close>

theorem stream_read_as_written:
  assumes "\<forall>f\<in>set fs. frame_ok f"
  shows "read_chat_stream (concat (map frame_text fs)) = stream_outcome fs empty_chat_result"
  using assms by (rule read_stream_outcome)

theorem stream_read_as_written_witness:
  "read_chat_stream (concat (map frame_text [Event ''session'' (jobj [(''sessionId'', JStr ''s1'')]), Heartbeat,
      Event ''done'' (jobj [(''content'', JStr ''bye'')])])) =
    Inr (empty_chat_result\<lparr>cr_session := ''s1'', cr_content := ''bye''\<rparr>)"
  using stream_read_as_written [of "[Event ''session'' (jobj [(''sessionId'', JStr ''s1'')]), Heartbeat,
      Event ''done'' (jobj [(''content'', JStr ''bye'')])]"]
  by (simp add: frame_ok_def jobj_def obj_of_def struct_str_def struct_field_def
      jquote_def esc_str_def esc_char_def)



section \<open>Sessions and tokens\<close>

text \<open>
  C28: the session cache never lies. After any sequence of session operations from an empty cache,
  by any callers, the next \<open>GetSessions\<close> lists exactly the ids of the token's rows, whether it
  answers from Redis or from the table.
\<close>

theorem session_list_exact:
  assumes "session_backend R view T rows cast" and "\<And>t. kv (view s) (sessionsPrefix @ t) = None"
    and "(session_step T R)\<^sup>*\<^sup>* (d, s) (d1, s1)" and "GetSessions T R t d1 s1 = (r, d2, s2)"
  shows "\<exists>xs. r = Inr xs \<and> mset (map si_id xs) = mset (map cs_id (filter (of_token t) (rows d1)))"
proof -
  have "cache_ok (rows d1) (view s1)"
    using session_backend.session_steps_cache [OF assms(1,3)] empty_cache_ok [OF assms(2), of "rows d"] by simp
  then show ?thesis by (rule session_backend.GetSessions_ok(1) [OF assms(1) _ assms(4)])
qed

theorem session_list_exact_witness:
  "\<exists>xs. fst (GetSessions (mem_table cs_id session_cast) mem_redis ''t''
      (fst (snd (CreateSession (mem_table cs_id session_cast) mem_redis 0 ''t'' ''s1'' [] demo_store)))
      (snd (snd (CreateSession (mem_table cs_id session_cast) mem_redis 0 ''t'' ''s1'' [] demo_store)))) = Inr xs \<and>
    mset (map si_id xs) = {#''s1''#}"
proof -
  let ?T = "mem_table cs_id session_cast"
  have c: "fst (snd (CreateSession ?T mem_redis 0 ''t'' ''s1'' [] demo_store)) = [session_cast
      \<lparr>cs_token = ''t'', cs_id = ''s1'', cs_number = 1, cs_created = 0\<rparr>]"
    by (simp add: CreateSession_def mem_table_def)
  obtain r d1 s1 where e: "CreateSession ?T mem_redis 0 ''t'' ''s1'' [] demo_store = (r, d1, s1)"
    by (cases "CreateSession ?T mem_redis 0 ''t'' ''s1'' [] demo_store")
  obtain r2 d2 s2 where g: "GetSessions ?T mem_redis ''t'' d1 s1 = (r2, d2, s2)"
    by (cases "GetSessions ?T mem_redis ''t'' d1 s1")
  have k: "kv demo_store (sessionsPrefix @ t) = None" for t
    by (simp add: demo_store_def demo_kv_def sessionsPrefix_def key_defs)
  have "(session_step ?T mem_redis)\<^sup>*\<^sup>* ([], demo_store) (d1, s1)"
    by (rule r_into_rtranclp) (rule s_create [OF e])
  from session_list_exact [OF mem_sessions.session_backend_axioms k this g] c e g
  show ?thesis by (simp add: of_token_def session_cast_def)
qed

text \<open>
  C29: a token is accepted from its creation until it expires. When the table accepts the new value,
  \<open>Generate\<close> returns \<open>sk-\<close> and the hexadecimal random bytes, and \<open>Validate\<close> accepts it at exactly the
  instants up to its creation plus its lifetime, as the column stores it.
\<close>

theorem token_lifetime:
  assumes "token_backend T rows cast" and "''sk-'' @ hex_encode bs \<notin> tk_token ` set (rows d)"
    and "0 < e" and "fits64 (e * second_ns)"
  shows "fst (Generate T (Some bs) now name e d) = Inr (''sk-'' @ hex_encode bs) \<and>
    (\<forall>t. fst (Validate T t (''sk-'' @ hex_encode bs) (snd (Generate T (Some bs) now name e d))) \<longleftrightarrow>
       t \<le> to_datetime (now + e * second_ns))"
  using token_backend.Generate_new(1) [OF assms(1,2)] token_backend.generated_valid [OF assms] by blast

theorem token_lifetime_witness:
  "fst (Validate (mem_table tk_token token_cast) 9000000000 (''sk-'' @ hex_encode [10])
     (snd (Generate (mem_table tk_token token_cast) (Some [10]) 0 ''n'' 10 []))) \<and>
   \<not> fst (Validate (mem_table tk_token token_cast) 10000000001 (''sk-'' @ hex_encode [10])
     (snd (Generate (mem_table tk_token token_cast) (Some [10]) 0 ''n'' 10 [])))"
  using token_lifetime [OF mem_tokens.token_backend_axioms, of "[10]" "[]" 10 0 "''n''"]
  by (simp add: fits64_def min_int64_def max_int64_def second_ns_def to_datetime_def)

text \<open>
  C30: the periodic cleanup deletes exactly the expired tokens, reports how many, and changes no
  answer of \<open>Validate\<close> from then on.
\<close>

theorem token_cleanup_invisible:
  assumes "token_backend T rows cast"
  shows "fst (CleanupExpired T now d) = Inr (length (filter (\<lambda>r. tk_expires r < now) (rows d))) \<and>
    rows (snd (CleanupExpired T now d)) = filter (\<lambda>r. now \<le> tk_expires r) (rows d) \<and>
    (\<forall>t u. now \<le> t \<longrightarrow> fst (Validate T t u (snd (CleanupExpired T now d))) = fst (Validate T t u d))"
proof -
  have "rows (snd (CleanupExpired T now d)) = filter (\<lambda>r. now \<le> tk_expires r) (rows d)"
    using token_backend.CleanupExpired_ok(2) [OF assms, of now d] by (simp add: live_at_def [abs_def])
  moreover have "fst (Validate T t u (snd (CleanupExpired T now d))) = fst (Validate T t u d)" if "now \<le> t" for t u
    by (simp only: token_backend.Validate_reply(1) [OF assms] token_backend.cleanup_keeps_valid [OF assms that])
  ultimately show ?thesis using token_backend.CleanupExpired_ok(1) [OF assms, of now d] by blast
qed

theorem token_cleanup_invisible_witness:
  "snd (CleanupExpired (mem_table tk_token token_cast) 5
     [\<lparr>tk_token = ''a'', tk_name = ''n'', tk_created = 0, tk_expires = 4\<rparr>,
      \<lparr>tk_token = ''b'', tk_name = ''n'', tk_created = 0, tk_expires = 5\<rparr>])
    = [\<lparr>tk_token = ''b'', tk_name = ''n'', tk_created = 0, tk_expires = 5\<rparr>]"
  using token_cleanup_invisible [OF mem_tokens.token_backend_axioms, of 5
     "[\<lparr>tk_token = ''a'', tk_name = ''n'', tk_created = 0, tk_expires = 4\<rparr>,
      \<lparr>tk_token = ''b'', tk_name = ''n'', tk_created = 0, tk_expires = 5\<rparr>]"] by simp

text \<open>
  C31: a page of the token list is the window of its ordered result. For any total order of the
  database's collation, the items on page \<open>p\<close> of size \<open>n\<close> are the tokens from position
  \<open>(p - 1) * n\<close> on, at most \<open>n\<close>, of the live tokens that match the search in the requested order,
  and the total counts them all.
\<close>

theorem token_page_window:
  assumes "token_backend T rows cast"
    and "\<And>a b. collate a b \<or> collate b a" and "\<And>a b c. collate a b \<Longrightarrow> collate b c \<Longrightarrow> collate a c"
    and "1 \<le> p" "0 \<le> n" "fits64 p" "fits64 ((p - 1) * n)"
  shows "\<exists>rs res. ordered_rows (list_filter now search) (order_of collate sb so) (rows d) rs \<and>
    fst (ListPaged T collate now p n search sb so d) = Inr res \<and>
    tl_items res = map token_item_of (take (nat n) (drop (nat ((p - 1) * n)) rs)) \<and>
    tl_total res = int (length rs)"
  by (rule token_backend.ListPaged_window [OF assms(1)]) (use assms(2-) in \<open>blast+\<close>)

theorem token_page_window_witness:
  "\<exists>res. fst (ListPaged (mem_table tk_token token_cast) (\<le>) 0 1 10 [] ''name'' ''asc''
      [\<lparr>tk_token = ''a'', tk_name = ''n'', tk_created = 0, tk_expires = 4\<rparr>]) = Inr res \<and> tl_total res = 1"
  using token_page_window [OF mem_tokens.token_backend_axioms, of "(\<le>)" 1 10 0 "[]" "''name''" "''asc''"
      "[\<lparr>tk_token = ''a'', tk_name = ''n'', tk_created = 0, tk_expires = 4\<rparr>]"]
  by (force simp: ordered_rows_def fits64_def min_int64_def max_int64_def list_filter_def live_at_def)

text \<open>
  C32: the token list is bounded. Whatever page, page size, order, search text and bot filter a
  request asks for, the administrator gets at most a hundred tokens and never more than the page size
  the reply names. The page has to be small enough for its offset to fit an \<open>int\<close>.
\<close>

theorem token_list_bounded:
  assumes "token_backend T rows cast"
    and "\<forall>a b. collate a b \<or> collate b a" and "\<forall>a b c. collate a b \<longrightarrow> collate b c \<longrightarrow> collate a c"
    and "\<forall>l xs. length (srt l xs) = length xs"
    and "clamp_page (fst (atoi (query_or q ''page'' ''1''))) * 100 \<le> max_int64"
  shows "\<exists>items all page n online tokens.
    fst (listTokens srt T R collate now sec q d s) = Some (token_list_reply items all page n online tokens) \<and>
    int (length items) \<le> n \<and> n \<le> 100"
  by (rule token_backend.listTokens_bounded [OF assms(1) _ _ _ assms(5)]) (use assms(2-4) in blast)+

theorem token_list_bounded_witness:
  "\<exists>items all page n online tokens.
    fst (listTokens (\<lambda>_ xs. xs) (mem_table tk_token token_cast) mem_redis (\<lambda>_ _. True) 5 5
      [(''page'', ''2''), (''page_size'', ''100000''), (''sort_by'', ''bot_online'')] [] demo_store) =
      Some (token_list_reply items all page n online tokens) \<and> int (length items) \<le> n \<and> n \<le> 100"
proof (rule token_list_bounded [OF mem_tokens.token_backend_axioms])
  show "clamp_page (fst (atoi (query_or [(''page'', ''2''), (''page_size'', ''100000''), (''sort_by'', ''bot_online'')]
      ''page'' ''1''))) * 100 \<le> max_int64" by code_simp
qed auto

section \<open>The administrator\<close>

text \<open>
  C33: the administrator's password is set up once. With a password stored the setup changes nothing
  and says so. Without one, a password of acceptable length is stored, logs in, and the reply's cookie
  is the only live admin session, so that nobody else is logged in.
\<close>

theorem admin_setup_once:
  assumes "admin_backend R view T rows cast commit B" and "sessions_indexed (view s)" and "bs \<noteq> []"
    and "struct_body body = Some j" "struct_field (Some j) ''password'' = Some (JStr p)"
    and "8 \<le> length p" "length p \<le> 72"
    and "adminAuthSetup B T commit R (Some bs) body d s = (resp, d', s')"
  shows "if config_value (rows d) ''password_hash'' \<noteq> None
    then resp = MetricsErrorResponse ErrAdminPasswordExists \<and> rows d' = rows d \<and> s' = s
    else resp = session_cookie (hex_encode bs) \<and> (\<forall>t. session_live (view s') t \<longleftrightarrow> t = hex_encode bs) \<and>
      (\<forall>s2. fst (VerifyPassword B T commit R p d' s2) = Inr True) \<and> config_value (rows d') ''password_hash'' \<noteq> None"
proof (cases "config_value (rows d) ''password_hash'' = None")
  case True
  from admin_backend.setup_effective [OF assms(1) True assms(2-8)] True show ?thesis by simp
next
  case False
  from admin_backend.setup_refused [OF assms(1) False assms(8)] False show ?thesis by simp
qed

theorem admin_setup_once_witness:
  "\<exists>resp d' s'. adminAuthSetup plain_bcrypt (mem_table ac_key (\<lambda>r. r)) (\<lambda>d. (Inr (), d)) mem_redis (Some [1, 2])
      (''{'' @ jquote ''password'' @ '':'' @ jquote ''12345678'' @ ''}'') [] demo_store = (resp, d', s') \<and>
    (\<forall>t. session_live s' t \<longleftrightarrow> t = hex_encode [1, 2])"
proof -
  let ?b = "''{'' @ jquote ''password'' @ '':'' @ jquote ''12345678'' @ ''}''"
  obtain resp d' s' where e: "adminAuthSetup plain_bcrypt (mem_table ac_key (\<lambda>r. r)) (\<lambda>d. (Inr (), d)) mem_redis (Some [1, 2])
      ?b [] demo_store = (resp, d', s')" by (metis prod_cases3)
  have j: "struct_body ?b = Some (JObj [(''password'', JStr ''12345678'')])" by code_simp
  have "sessions_indexed demo_store"
    by (auto simp: sessions_indexed_def set_key_def adminSessionPrefix_def adminSessionIdx_def demo_store_def
        demo_kv_def key_defs)
  from admin_setup_once [OF mem_admin.admin_backend_axioms this _ j _ _ _ e] e
  show ?thesis by (simp add: struct_field_def config_value_def)
qed

text \<open>
  C34: setting the admin password works and ends every session. For a password of at most 72 bytes
  \<open>SetPassword\<close> succeeds; from then on \<open>VerifyPassword\<close> accepts it, and no admin session that was
  open before is valid any more.
\<close>

theorem set_password_effective:
  assumes "admin_backend R view T rows cast commit B" and "length p \<le> 72" and "sessions_indexed (view s)"
    and "SetPassword B T commit R p d s = (r, d', s')"
  shows "r = Inr () \<and> fst (VerifyPassword B T commit R p d' s2) = Inr True \<and>
    \<not> fst (ValidateSession R t s') \<and> sessions_indexed (view s')"
  using admin_backend.set_then_verify(1) [OF assms(1,2), where d = d and s = s]
    admin_backend.set_then_verify(2) [OF assms(1,2), where d = d and s = s and s' = s2]
    admin_backend.SetPassword_ends_sessions(1) [OF assms(1,2,3), where d = d and t = t]
    admin_backend.SetPassword_ends_sessions(2) [OF assms(1,2,3), where d = d]
    redis_up.ValidateSession_reply(1) [OF admin_backend.axioms(1) [OF assms(1)], of t s']
  by (simp add: assms(4))

theorem set_password_effective_witness:
  "fst (SetPassword plain_bcrypt (mem_table ac_key (\<lambda>r. r)) (\<lambda>d. (Inr (), d)) mem_redis ''secret-pw'' [] demo_store) = Inr ()"
proof -
  let ?r = "SetPassword plain_bcrypt (mem_table ac_key (\<lambda>r. r)) (\<lambda>d. (Inr (), d)) mem_redis ''secret-pw'' [] demo_store"
  obtain r d' s' where e: "?r = (r, d', s')" by (cases ?r)
  have "sessions_indexed demo_store"
    by (auto simp: sessions_indexed_def set_key_def demo_store_def demo_kv_def adminSessionIdx_def
        adminSessionPrefix_def key_defs)
  from set_password_effective [OF mem_admin.admin_backend_axioms _ this e] show ?thesis by (simp add: e)
qed



text \<open>
  C36: admin sessions behave as a set of tokens. A created session is valid, validity of the others
  is unchanged, removing a session ends exactly that one, and every live session stays in the index.
\<close>

theorem admin_sessions_as_set:
  assumes "redis_up R view" and "sessions_indexed (view s)" and "bs \<noteq> []"
    and "CreateAdminSession R (Some bs) s = (r, s')"
  shows "r = Inr (hex_encode bs) \<and> sessions_indexed (view s') \<and> sessions_indexed (view (RemoveSession R x s)) \<and>
    (\<forall>t. fst (ValidateSession R t s') \<longleftrightarrow> t = hex_encode bs \<or> fst (ValidateSession R t s)) \<and>
    (\<forall>t. fst (ValidateSession R t (RemoveSession R x s)) \<longleftrightarrow> t \<noteq> x \<and> fst (ValidateSession R t s))"
proof -
  have "hex_encode bs \<noteq> []" using assms(3) by (cases bs) (simp_all add: hex_encode_def hex_byte_def)
  then show ?thesis
    using redis_up.CreateAdminSession_ok [OF assms(1,2), of bs] redis_up.RemoveSession_ok [OF assms(1,2)]
    by (auto simp: assms(4) redis_up.ValidateSession_reply [OF assms(1)])
qed

theorem admin_sessions_as_set_witness:
  "fst (ValidateSession mem_redis (hex_encode [1, 2]) (snd (CreateAdminSession mem_redis (Some [1, 2]) demo_store)))"
proof -
  obtain r s' where e: "CreateAdminSession mem_redis (Some [1, 2]) demo_store = (r, s')"
    by (cases "CreateAdminSession mem_redis (Some [1, 2]) demo_store")
  have "sessions_indexed demo_store"
    by (auto simp: sessions_indexed_def set_key_def demo_store_def demo_kv_def adminSessionIdx_def
        adminSessionPrefix_def key_defs)
  from admin_sessions_as_set [OF mem.redis_up_axioms this _ e] show ?thesis unfolding e by simp
qed

section \<open>Media\<close>





section \<open>Starting and loading the server\<close>



text \<open>
  C40: the load generator's counters are true. Its bots share the counters and every atomic update is
  a step of its own; in every state that any interleaving of the bots, of starts and of a cancellation
  reaches, \<open>started\<close> is the number of bots and \<open>connected_now\<close> the number of those that are between
  counting their connection and giving it up.
\<close>

theorem load_counters_true:
  assumes "load_reach (bots, s, cancelled)"
  shows "ls_started s = int (length bots) \<and>
    ls_connected_now s = int (length (filter (\<lambda>p. p \<in> {Counted, AtRead, InRead} \<or> (\<exists>code. p = Leaving code)) bots))"
proof -
  have "sum_list (map connected_part bots) =
      length (filter (\<lambda>p. p \<in> {Counted, AtRead, InRead} \<or> (\<exists>code. p = Leaving code)) bots)"
    by (induction bots) (auto simp: connected_part_def split: bot_phase.splits)
  with load_counters [OF assms] show ?thesis by (simp add: counters_true_def)
qed

theorem load_counters_true_witness:
  "\<exists>bots s. load_reach (bots, s, True) \<and> bots = [InRead, LoopHead True] \<and> ls_connected_now s = 1"
proof -
  let ?s = "\<lparr>ls_started = 2, ls_connected_now = 1, ls_connected_total = 1, ls_reconnect_total = 0,
     ls_connect_fail_total = 0, ls_close_codes = []\<rparr>"
  note go = load_reach.Step [OF _ load_step.Bot [where k = 0 and i = Fine]]
  have "load_reach (bots, s, c) \<Longrightarrow> load_reach (bots @ [LoopHead True], s\<lparr>ls_started := ls_started s + 1\<rparr>, c)" for bots s c
    by (rule load_reach.Step [OF _ load_step.Start])
  from this [OF this [OF load_reach.Init [unfolded load_start_def]]]
  have "load_reach ([LoopHead True, LoopHead True], ?s\<lparr>ls_connected_now := 0, ls_connected_total := 0\<rparr>, False)" by simp
  from go [OF this] have "load_reach ([BotDialing, LoopHead True], ?s\<lparr>ls_connected_now := 0, ls_connected_total := 0\<rparr>, False)" by simp
  from go [OF this] have "load_reach ([Counted, LoopHead True], ?s\<lparr>ls_connected_total := 0\<rparr>, False)" by simp
  from go [OF this] have "load_reach ([AtRead, LoopHead True], ?s, False)" by simp
  from go [OF this] have "load_reach ([InRead, LoopHead True], ?s, False)" by simp
  then have r: "load_reach ([InRead, LoopHead True], ?s, True)" by (rule load_reach.Step [OF _ load_step.Cancel])
  from load_counters_true [OF r] r show ?thesis by fastforce
qed

end
